(* ===== verification/Prelude.thy ===== *)
theory Prelude
  imports Main "HOL-Library.Word" "HOL-Library.Char_ord" "HOL-Library.List_Lexorder"
begin

text \<open>
  What every component shares.
  Go strings and byte slices are both \<open>bytes\<close>, a list of 8-bit \<open>char\<close>s: the conversions
  \<open>string(b)\<close> and \<open>[]byte(s)\<close> of the source are the identity.
  An error value is an \<open>error\<close>; a function that returns \<open>(T, error)\<close> returns
  \<open>error + 'a\<close>, with \<open>Inl\<close> the error.
  A \<open>time.Time\<close> is the number of nanoseconds since Go's zero time (1 January of the year 1,
  UTC), so \<open>IsZero\<close> is \<open>t = 0\<close>; a \<open>time.Duration\<close> is a number of nanoseconds kept in
  the range of \<open>int64\<close>.
\<close>

named_theorems inv_intros \<open>an operation keeps its component's invariant\<close>
named_theorems go_simps \<open>evaluation of the modelled parts of the Go library\<close>

type_synonym bytes = string
type_synonym time = int
type_synonym duration = int

section \<open>Errors\<close>

datatype sentinel =
    EOF | UnexpectedEOF | NotExist | AbortHandler | Canceled | DeadlineExceeded | UnpinnedRelease | ServerClosed

text \<open>
  \<open>Msg\<close> is \<open>errors.New\<close> (or \<open>fmt.Errorf\<close> without \<open>%w\<close>), \<open>Wrapf p e s\<close> is
  \<open>fmt.Errorf("p%ws", e)\<close>, \<open>Join\<close> is \<open>errors.Join\<close> of two errors.
\<close>

datatype error =
    Msg string
  | Sent sentinel
  | Wrapf string error string
  | Join error error

type_synonym 'a result = "error + 'a"

text \<open>\<open>errors.Is(err, target)\<close> for a sentinel target.\<close>

fun error_is :: "error \<Rightarrow> sentinel \<Rightarrow> bool" where
  "error_is (Msg m) s = False"
| "error_is (Sent t) s = (t = s)"
| "error_is (Wrapf p e q) s = error_is e s"
| "error_is (Join e f) s = (error_is e s \<or> error_is f s)"

fun sentinel_text :: "sentinel \<Rightarrow> string" where
  "sentinel_text EOF = ''EOF''"
| "sentinel_text UnexpectedEOF = ''unexpected EOF''"
| "sentinel_text NotExist = ''file does not exist''"
| "sentinel_text AbortHandler = ''net/http: abort Handler''"
| "sentinel_text Canceled = ''context canceled''"
| "sentinel_text DeadlineExceeded = ''context deadline exceeded''"
| "sentinel_text UnpinnedRelease = ''attested source_revision is not a pinned Gateway release''"
| "sentinel_text ServerClosed = ''http: Server closed''"

text \<open>\<open>err.Error()\<close>.\<close>

fun error_text :: "error \<Rightarrow> string" where
  "error_text (Msg m) = m"
| "error_text (Sent s) = sentinel_text s"
| "error_text (Wrapf p e q) = p @ error_text e @ q"
| "error_text (Join e f) = error_text e @ [CHR 0x0A] @ error_text f"

text \<open>\<open>firstErr = errors.Join(firstErr, err)\<close>, with \<open>None\<close> for \<open>nil\<close>.\<close>

definition join_error :: "error option \<Rightarrow> error \<Rightarrow> error" where
  "join_error acc e = (case acc of None \<Rightarrow> e | Some f \<Rightarrow> Join f e)"

definition rbind :: "'e + 'a \<Rightarrow> ('a \<Rightarrow> 'e + 'b) \<Rightarrow> 'e + 'b" where
  "rbind r f = (case r of Inl e \<Rightarrow> Inl e | Inr x \<Rightarrow> f x)"

lemma rbind_simps [simp]: "rbind (Inl e) f = Inl e" "rbind (Inr x) f = f x"
  by (simp_all add: rbind_def)

lemma rbind_Inr_iff: "rbind r f = Inr y \<longleftrightarrow> (\<exists>x. r = Inr x \<and> f x = Inr y)"
  by (cases r) auto

definition is_ok :: "'e + 'a \<Rightarrow> bool" where
  "is_ok r = (case r of Inl _ \<Rightarrow> False | Inr _ \<Rightarrow> True)"

lemma is_ok_simps [simp]: "is_ok (Inl e) = False" "is_ok (Inr x) = True"
  by (simp_all add: is_ok_def)

lemma is_ok_iff: "is_ok r \<longleftrightarrow> (\<exists>x. r = Inr x)"
  by (cases r) auto

section \<open>Machine integers, time\<close>

text \<open>The value an integer has after conversion to \<open>int64\<close>.\<close>

definition int64 :: "int \<Rightarrow> int" where
  "int64 x = (x + 2 ^ 63) mod 2 ^ 64 - 2 ^ 63"

definition in_int64 :: "int \<Rightarrow> bool" where
  "in_int64 x \<longleftrightarrow> - (2 ^ 63) \<le> x \<and> x < 2 ^ 63"

lemma int64_id: "in_int64 x \<Longrightarrow> int64 x = x"
  by (simp add: int64_def in_int64_def)

lemma int64_range: "in_int64 (int64 x)"
proof -
  have "0 \<le> (x + 2 ^ 63) mod (2 ^ 64 :: int)" "(x + 2 ^ 63) mod (2 ^ 64 :: int) < 2 ^ 64"
    by simp_all
  then show ?thesis by (simp add: int64_def in_int64_def)
qed

definition microsecond :: duration where "microsecond = 1000"
definition millisecond :: duration where "millisecond = 1000000"
definition second :: duration where "second = 1000000000"
definition minute :: duration where "minute = 60 * second"
definition hour :: duration where "hour = 60 * minute"

lemmas duration_units = microsecond_def millisecond_def second_def minute_def hour_def

definition max_duration :: duration where "max_duration = 2 ^ 63 - 1"
definition min_duration :: duration where "min_duration = - (2 ^ 63)"

text \<open>\<open>t.Sub(u)\<close> saturates at the ends of the range of \<open>Duration\<close>.\<close>

definition time_sub :: "time \<Rightarrow> time \<Rightarrow> duration" where
  "time_sub t u = (let d = t - u in
     if d > max_duration then max_duration else if d < min_duration then min_duration else d)"

lemma time_sub_exact: "in_int64 (t - u) \<Longrightarrow> time_sub t u = t - u"
  by (simp add: time_sub_def in_int64_def max_duration_def min_duration_def)

lemma time_sub_less_iff:
  "min_duration \<le> d \<Longrightarrow> d \<le> max_duration \<Longrightarrow> time_sub t u < d \<longleftrightarrow> t - u < d \<and> d > min_duration"
  by (auto simp: time_sub_def max_duration_def min_duration_def Let_def)

text \<open>Division and remainder of Go's integers, which truncate towards zero.\<close>

definition quot :: "int \<Rightarrow> int \<Rightarrow> int" where
  "quot a b = (if (a < 0) = (b < 0) then \<bar>a\<bar> div \<bar>b\<bar> else - (\<bar>a\<bar> div \<bar>b\<bar>))"

definition remt :: "int \<Rightarrow> int \<Rightarrow> int" where
  "remt a b = a - b * quot a b"

text \<open>The instant of \<open>time.UnixMilli(0)\<close> on the scale of \<open>time\<close>.\<close>

definition unix_epoch :: time where
  "unix_epoch = 62135596800 * second"

definition unix_milli :: "int \<Rightarrow> time" where
  "unix_milli ms = unix_epoch + ms * millisecond"

section \<open>Decimal text\<close>

fun dec_nat :: "nat \<Rightarrow> string" where
  "dec_nat n = (if n < 10 then [char_of (48 + n)] else dec_nat (n div 10) @ [char_of (48 + n mod 10)])"

declare dec_nat.simps [simp del]

definition dec_int :: "int \<Rightarrow> string" where
  "dec_int i = (if i < 0 then ''-'' @ dec_nat (nat (- i)) else dec_nat (nat i))"

section \<open>Lists\<close>

lemma last_rev_hd: "rev xs = y # ys \<Longrightarrow> xs \<noteq> [] \<and> last xs = y"
  by (metis last_rev list.sel(1) list.simps(3) rev_is_Nil_conv rev_rev_ident)

text \<open>\<open>strings.HasPrefix\<close>, \<open>strings.HasSuffix\<close>, \<open>strings.CutPrefix\<close>, \<open>strings.Cut\<close> at one byte.\<close>

fun has_prefix :: "string \<Rightarrow> string \<Rightarrow> bool" where
  "has_prefix s [] = True"
| "has_prefix [] (p # ps) = False"
| "has_prefix (c # s) (p # ps) = (c = p \<and> has_prefix s ps)"

definition has_suffix :: "string \<Rightarrow> string \<Rightarrow> bool" where
  "has_suffix s p = has_prefix (rev s) (rev p)"

lemma has_prefix_iff: "has_prefix s p \<longleftrightarrow> (\<exists>t. s = p @ t)"
  by (induction s p rule: has_prefix.induct) auto

lemma has_suffix_iff: "has_suffix s p \<longleftrightarrow> (\<exists>t. s = t @ p)"
  by (simp add: has_suffix_def has_prefix_iff rev_eq_append_conv) (metis rev_rev_ident)

fun cut_byte :: "char \<Rightarrow> string \<Rightarrow> string \<times> string \<times> bool" where
  "cut_byte sep [] = ([], [], False)"
| "cut_byte sep (c # s) =
     (if c = sep then ([], s, True)
      else (case cut_byte sep s of (a, b, found) \<Rightarrow> (c # a, b, found)))"

lemma cut_byte_found: "cut_byte sep s = (a, b, True) \<Longrightarrow> s = a @ sep # b \<and> sep \<notin> set a"
  by (induction s arbitrary: a b) (auto split: if_splits prod.splits)

lemma cut_byte_missing: "cut_byte sep s = (a, b, False) \<Longrightarrow> a = s \<and> b = [] \<and> sep \<notin> set s"
  by (induction s arbitrary: a b) (auto split: if_splits prod.splits)

end
