(* ===== verification/GoIO.thy ===== *)
theory GoIO
  imports Prelude
begin

text \<open>
  \<open>io.Reader\<close> as the script of what its \<open>Read\<close> calls deliver: each entry is one delivery of
  bytes together with the error returned beside them (\<open>None\<close> for \<open>nil\<close>; an entry may be
  empty, so a \<open>Read\<close> that returns \<open>0, nil\<close> is one). A call with a smaller buffer than the
  entry takes the front of it. When the script is used up every call returns \<open>io.EOF\<close>.
  So a reader here stops stalling after finitely many empty reads; one that returns \<open>0, nil\<close>
  for ever is outside the model (the code loops on it).
\<close>

type_synonym reader = "(bytes \<times> error option) list"

fun read :: "nat \<Rightarrow> reader \<Rightarrow> (bytes \<times> error option) \<times> reader" where
  "read n [] = (([], Some (Sent EOF)), [])"
| "read n ((bs, e) # r) =
     (if length bs \<le> n then ((bs, e), r) else ((take n bs, None), (drop n bs, e) # r))"

text \<open>\<open>io.ReadFull\<close>: bytes until \<open>n\<close> are there or an error comes; an error that comes with the last byte is dropped.\<close>

fun fill :: "nat \<Rightarrow> reader \<Rightarrow> bytes \<times> error option \<times> reader" where
  "fill 0 r = ([], None, r)"
| "fill (Suc n) [] = ([], Some (Sent EOF), [])"
| "fill (Suc n) ((bs, e) # r) =
     (if length bs > Suc n then (take (Suc n) bs, None, (drop (Suc n) bs, e) # r)
      else if length bs = Suc n then (bs, None, r)
      else (case e of
        Some err \<Rightarrow> (bs, Some err, r)
      | None \<Rightarrow> (case fill (Suc n - length bs) r of (d, e', r') \<Rightarrow> (bs @ d, e', r'))))"

definition read_full :: "nat \<Rightarrow> reader \<Rightarrow> bytes \<times> error option \<times> reader" where
  "read_full n r = (case fill n r of (d, e, r') \<Rightarrow>
     (d, (if e = Some (Sent EOF) \<and> d \<noteq> [] then Some (Sent UnexpectedEOF) else e), r'))"

text \<open>\<open>io.ReadAll(io.LimitReader(r, n))\<close>; \<open>None\<close> is the end of the input or of the limit.\<close>

fun read_all :: "nat \<Rightarrow> reader \<Rightarrow> bytes \<times> error option" where
  "read_all 0 r = ([], None)"
| "read_all (Suc n) [] = ([], None)"
| "read_all (Suc n) ((bs, e) # r) =
     (if length bs > Suc n then (take (Suc n) bs, None)
      else (case e of
        Some err \<Rightarrow> (bs, if err = Sent EOF then None else Some err)
      | None \<Rightarrow> (case read_all (Suc n - length bs) r of (d, e') \<Rightarrow> (bs @ d, e'))))"

text \<open>Everything a reader delivers up to its first error; \<open>None\<close> for a clean end.\<close>

fun drain :: "reader \<Rightarrow> bytes \<times> error option" where
  "drain [] = ([], None)"
| "drain ((bs, e) # r) = (case e of
     Some err \<Rightarrow> (bs, if err = Sent EOF then None else Some err)
   | None \<Rightarrow> (case drain r of (d, e') \<Rightarrow> (bs @ d, e')))"

lemma read_all_drain:
  "drain r = (d, e) \<Longrightarrow> length d < n \<Longrightarrow> read_all n r = (d, e)"
  by (induction n r arbitrary: d e rule: read_all.induct) (auto split: option.splits prod.splits)

lemma read_all_prefix: "fst (read_all n r) = take n (fst (drain r))"
proof (induction n r rule: read_all.induct)
  case (3 n bs e r)
  show ?case
  proof (cases "length bs > Suc n")
    case True
    then show ?thesis by (auto split: option.splits prod.splits)
  next
    case False
    with 3 show ?thesis by (auto split: option.splits prod.splits)
  qed
qed simp_all

lemma read_length: "read n r = ((bs, e), r') \<Longrightarrow> length bs \<le> n"
  by (cases r) (auto split: if_splits)

lemma fill_length: "fill n r = (d, e, r') \<Longrightarrow> length d \<le> n \<and> (e = None \<longleftrightarrow> length d = n)"
  by (induction n r arbitrary: d e r' rule: fill.induct)
     (fastforce split: if_splits option.splits prod.splits)+

end
