(* ===== verification/Encoding.thy ===== *)
theory Encoding
  imports Prelude
begin

text \<open>
  The part of \<open>encoding/hex\<close> and \<open>encoding/base64\<close> of the Go library that the SDK uses,
  with the round trips that its canonical-form checks rely on.
\<close>

abbreviation ord_of :: "char \<Rightarrow> nat" where
  "ord_of c \<equiv> of_char c"

lemma ord_of_less [simp]: "ord_of c < 256"
  by simp

lemma ord_of_char_of [simp]: "n < 256 \<Longrightarrow> ord_of (char_of n) = n"
  by simp

section \<open>Hexadecimal\<close>

definition hex_char :: "nat \<Rightarrow> char" where
  "hex_char n = char_of (if n < 10 then 48 + n else 87 + n)"

definition hex_val :: "char \<Rightarrow> nat option" where
  "hex_val c = (let n = ord_of c in
     if 48 \<le> n \<and> n \<le> 57 then Some (n - 48)
     else if 97 \<le> n \<and> n \<le> 102 then Some (n - 87)
     else if 65 \<le> n \<and> n \<le> 70 then Some (n - 55) else None)"

definition is_lower_hex :: "char \<Rightarrow> bool" where
  "is_lower_hex c = (let n = ord_of c in (48 \<le> n \<and> n \<le> 57) \<or> (97 \<le> n \<and> n \<le> 102))"

fun hex_encode :: "bytes \<Rightarrow> string" where
  "hex_encode [] = []"
| "hex_encode (c # s) = hex_char (ord_of c div 16) # hex_char (ord_of c mod 16) # hex_encode s"

fun hex_decode :: "string \<Rightarrow> bytes result" where
  "hex_decode [] = Inr []"
| "hex_decode [a] = (case hex_val a of
     None \<Rightarrow> Inl (Msg ''encoding/hex: invalid byte'')
   | Some _ \<Rightarrow> Inl (Msg ''encoding/hex: odd length hex string''))"
| "hex_decode (a # b # s) = (case hex_val a of
     None \<Rightarrow> Inl (Msg ''encoding/hex: invalid byte'')
   | Some x \<Rightarrow> (case hex_val b of
       None \<Rightarrow> Inl (Msg ''encoding/hex: invalid byte'')
     | Some y \<Rightarrow> (case hex_decode s of Inl e \<Rightarrow> Inl e | Inr r \<Rightarrow> Inr (char_of (16 * x + y) # r))))"

lemma hex_val_char [simp]: "n < 16 \<Longrightarrow> hex_val (hex_char n) = Some n"
  by (auto simp: hex_val_def hex_char_def Let_def)

lemma is_lower_hex_char [simp]: "n < 16 \<Longrightarrow> is_lower_hex (hex_char n)"
  by (auto simp: is_lower_hex_def hex_char_def Let_def)

lemma hex_val_less: "hex_val c = Some n \<Longrightarrow> n < 16"
  by (auto simp: hex_val_def Let_def split: if_splits)

lemma hex_char_val: "is_lower_hex c \<Longrightarrow> hex_val c = Some n \<Longrightarrow> hex_char n = c"
  by (auto simp: is_lower_hex_def hex_val_def hex_char_def Let_def split: if_splits)

lemma hex_val_lower: "is_lower_hex c \<Longrightarrow> \<exists>n. hex_val c = Some n"
  by (auto simp: is_lower_hex_def hex_val_def Let_def)

lemma length_hex_encode [simp]: "length (hex_encode s) = 2 * length s"
  by (induction s) auto

lemma hex_encode_lower: "list_all is_lower_hex (hex_encode s)"
proof (induction s)
  case (Cons c s)
  have "ord_of c div 16 < 16" by (simp add: less_mult_imp_div_less)
  with Cons show ?case by simp
qed simp

lemma hex_decode_encode [simp]: "hex_decode (hex_encode s) = Inr s"
proof (induction s)
  case (Cons c s)
  have "ord_of c div 16 < 16" by (simp add: less_mult_imp_div_less)
  with Cons show ?case by simp
qed simp

lemma hex_decode_length: "hex_decode s = Inr d \<Longrightarrow> length s = 2 * length d"
  by (induction s arbitrary: d rule: hex_decode.induct) (auto split: option.splits sum.splits)

lemma hex_decode_lower:
  "even (length s) \<Longrightarrow> list_all is_lower_hex s \<Longrightarrow> \<exists>d. hex_decode s = Inr d \<and> hex_encode d = s"
proof (induction s rule: hex_decode.induct)
  case (3 a b s)
  then obtain x y where xy: "hex_val a = Some x" "hex_val b = Some y"
    using hex_val_lower by (auto dest!: hex_val_lower)
  with "3.prems" have ch: "hex_char x = a" "hex_char y = b" and lt: "x < 16" "y < 16"
    by (auto intro: hex_char_val hex_val_less)
  from 3 xy obtain d where d: "hex_decode s = Inr d" "hex_encode d = s" by auto
  from lt have "16 * x + y < 256" by simp
  moreover have "(16 * x + y) div 16 = x" "(16 * x + y) mod 16 = y" using lt by simp_all
  ultimately show ?case using xy d ch by simp
qed auto

lemma hex_canonical_iff:
  "(\<exists>d. hex_decode s = Inr d \<and> hex_encode d = s) \<longleftrightarrow> even (length s) \<and> list_all is_lower_hex s"
  using hex_decode_lower hex_decode_length hex_encode_lower
  by (metis dvd_triv_left)

lemma hex_encode_inj [simp]: "hex_encode s = hex_encode t \<longleftrightarrow> s = t"
  by (metis hex_decode_encode sum.inject(2))

section \<open>Base64\<close>

definition b64_std_char :: "nat \<Rightarrow> char" where
  "b64_std_char n = char_of (if n < 26 then 65 + n else if n < 52 then 71 + n
     else if n < 62 then n - 4 else if n = 62 then 43 else 47)"

definition b64_url_char :: "nat \<Rightarrow> char" where
  "b64_url_char n = char_of (if n < 26 then 65 + n else if n < 52 then 71 + n
     else if n < 62 then n - 4 else if n = 62 then 45 else 95)"

definition b64_std_val :: "char \<Rightarrow> nat option" where
  "b64_std_val c = (let n = ord_of c in
     if 65 \<le> n \<and> n \<le> 90 then Some (n - 65) else if 97 \<le> n \<and> n \<le> 122 then Some (n - 71)
     else if 48 \<le> n \<and> n \<le> 57 then Some (n + 4) else if n = 43 then Some 62
     else if n = 47 then Some 63 else None)"

fun b64_encode :: "(nat \<Rightarrow> char) \<Rightarrow> string \<Rightarrow> bytes \<Rightarrow> string" where
  "b64_encode ch pad [] = []"
| "b64_encode ch pad [a] =
     [ch (ord_of a div 4), ch (ord_of a mod 4 * 16)] @ pad @ pad"
| "b64_encode ch pad [a, b] =
     [ch (ord_of a div 4), ch (ord_of a mod 4 * 16 + ord_of b div 16), ch (ord_of b mod 16 * 4)] @ pad"
| "b64_encode ch pad (a # b # c # s) =
     [ch (ord_of a div 4), ch (ord_of a mod 4 * 16 + ord_of b div 16),
      ch (ord_of b mod 16 * 4 + ord_of c div 64), ch (ord_of c mod 64)] @ b64_encode ch pad s"

definition b64_std_encode :: "bytes \<Rightarrow> string" where
  "b64_std_encode = b64_encode b64_std_char ''=''"

definition b64_rawurl_encode :: "bytes \<Rightarrow> string" where
  "b64_rawurl_encode = b64_encode b64_url_char []"

text \<open>
  The decoder of \<open>StdEncoding\<close> skips carriage returns and newlines, wants the padding, and in
  strict mode wants the unused low bits of the last character to be zero.
\<close>

definition b64_error :: error where
  "b64_error = Msg ''illegal base64 data''"

fun b64_quanta :: "bool \<Rightarrow> string \<Rightarrow> bytes result" where
  "b64_quanta strict [] = Inr []"
| "b64_quanta strict (a # b # c # d # s) = (case (b64_std_val a, b64_std_val b) of
     (Some w, Some x) \<Rightarrow>
       (if c = CHR ''='' then
          (if d = CHR ''='' \<and> s = [] \<and> (strict \<longrightarrow> x mod 16 = 0)
           then Inr [char_of (4 * w + x div 16)] else Inl b64_error)
        else (case b64_std_val c of
          None \<Rightarrow> Inl b64_error
        | Some y \<Rightarrow>
           (if d = CHR ''='' then
              (if s = [] \<and> (strict \<longrightarrow> y mod 4 = 0)
               then Inr [char_of (4 * w + x div 16), char_of (x mod 16 * 16 + y div 4)]
               else Inl b64_error)
            else (case b64_std_val d of
              None \<Rightarrow> Inl b64_error
            | Some z \<Rightarrow> (case b64_quanta strict s of
                Inl e \<Rightarrow> Inl e
              | Inr r \<Rightarrow> Inr (char_of (4 * w + x div 16) # char_of (x mod 16 * 16 + y div 4)
                           # char_of (y mod 4 * 64 + z) # r))))))
   | _ \<Rightarrow> Inl b64_error)"
| "b64_quanta strict s = Inl b64_error"

definition b64_std_decode :: "bool \<Rightarrow> string \<Rightarrow> bytes result" where
  "b64_std_decode strict s = b64_quanta strict (filter (\<lambda>c. c \<noteq> CHR 0x0A \<and> c \<noteq> CHR 0x0D) s)"

lemma b64_std_val_char [simp]: "n < 64 \<Longrightarrow> b64_std_val (b64_std_char n) = Some n"
  by (auto simp: b64_std_val_def b64_std_char_def Let_def)

lemma b64_std_char_plain:
  assumes "n < 64"
  shows "b64_std_char n \<noteq> CHR ''=''" "b64_std_char n \<noteq> CHR 0x0A" "b64_std_char n \<noteq> CHR 0x0D"
proof -
  have "b64_std_val (b64_std_char n) = Some n" using assms by simp
  moreover have "b64_std_val CHR ''='' = None" "b64_std_val CHR 0x0A = None" "b64_std_val CHR 0x0D = None"
    by (simp_all add: b64_std_val_def)
  ultimately show "b64_std_char n \<noteq> CHR ''=''" "b64_std_char n \<noteq> CHR 0x0A" "b64_std_char n \<noteq> CHR 0x0D"
    by auto
qed

lemma pack_div_mod:
  fixes x y n :: nat
  assumes "y < n"
  shows "(x * n + y) div n = x" "(x * n + y) mod n = y"
  using assms by simp_all

lemma pack_less:
  fixes x y m n :: nat
  assumes "x < m" "y < n"
  shows "x * n + y < m * n"
proof -
  have "x * n + y < Suc x * n" using assms(2) by simp
  also have "\<dots> \<le> m * n" using assms(1) by (intro mult_le_mono1) simp
  finally show ?thesis .
qed

lemma div_less_256:
  fixes a :: nat
  assumes "a < 256"
  shows "a div 4 < 64" "a div 16 < 16" "a div 64 < 4"
  using assms by (simp_all add: less_mult_imp_div_less)

lemma b64_sextets:
  fixes a b c :: char
  shows "ord_of a div 4 < 64" "ord_of a mod 4 * 16 + ord_of b div 16 < 64"
    "ord_of b mod 16 * 4 + ord_of c div 64 < 64" "ord_of c mod 64 < 64"
    "ord_of a mod 4 * 16 < 64" "ord_of b mod 16 * 4 < 64"
  using pack_less [of "ord_of a mod 4" 4 "ord_of b div 16" 16]
    pack_less [of "ord_of b mod 16" 16 "ord_of c div 64" 4]
    pack_less [of "ord_of a mod 4" 4 0 16] pack_less [of "ord_of b mod 16" 16 0 4]
  by (simp_all add: div_less_256)

lemma b64_octets:
  fixes a b c :: nat
  assumes "a < 256" "b < 256" "c < 256"
  shows "4 * (a div 4) + (a mod 4 * 16 + b div 16) div 16 = a"
    "(a mod 4 * 16 + b div 16) mod 16 * 16 + (b mod 16 * 4 + c div 64) div 4 = b"
    "(b mod 16 * 4 + c div 64) mod 4 * 64 + c mod 64 = c"
  using assms by (simp_all only: pack_div_mod div_less_256 mult_div_mod_eq div_mult_mod_eq)

lemma b64_quanta_encode: "b64_quanta strict (b64_encode b64_std_char ''='' s) = Inr s"
proof (induction b64_std_char "''=''" s rule: b64_encode.induct)
  case (2 a)
  have "4 * (ord_of a div 4) + ord_of a mod 4 * 16 div 16 = ord_of a" by simp
  then show ?case by (simp add: b64_sextets b64_std_char_plain)
next
  case (3 a b)
  have "4 * (ord_of a div 4) + (ord_of a mod 4 * 16 + ord_of b div 16) div 16 = ord_of a"
    "(ord_of a mod 4 * 16 + ord_of b div 16) mod 16 * 16 + (ord_of b mod 16 * 4) div 4 = ord_of b"
    using b64_octets [of "ord_of a" "ord_of b" 0] by simp_all
  then show ?case
    by (simp only: b64_encode.simps append.simps b64_quanta.simps b64_std_val_char b64_sextets
        b64_std_char_plain) simp
next
  case (4 a b c s)
  have "4 * (ord_of a div 4) + (ord_of a mod 4 * 16 + ord_of b div 16) div 16 = ord_of a"
    "(ord_of a mod 4 * 16 + ord_of b div 16) mod 16 * 16 + (ord_of b mod 16 * 4 + ord_of c div 64) div 4 = ord_of b"
    "(ord_of b mod 16 * 4 + ord_of c div 64) mod 4 * 64 + ord_of c mod 64 = ord_of c"
    using b64_octets [of "ord_of a" "ord_of b" "ord_of c"] by simp_all
  with 4 show ?case
    by (simp only: b64_encode.simps append.simps b64_quanta.simps b64_std_val_char b64_sextets
        b64_std_char_plain) simp
qed simp

lemma b64_encode_no_newline:
  "filter (\<lambda>c. c \<noteq> CHR 0x0A \<and> c \<noteq> CHR 0x0D) (b64_encode b64_std_char ''='' s) = b64_encode b64_std_char ''='' s"
  by (induction b64_std_char "''=''" s rule: b64_encode.induct)
     (simp_all add: b64_sextets b64_std_char_plain)

lemma b64_decode_encode [simp]: "b64_std_decode strict (b64_std_encode s) = Inr s"
  by (simp add: b64_std_decode_def b64_std_encode_def b64_encode_no_newline b64_quanta_encode)

end
