(* ===== verification/GoText.thy ===== *)
theory GoText
  imports Encoding
begin

text \<open>
  What the SDK uses of \<open>strings\<close>, \<open>bytes\<close>, \<open>mime\<close> and \<open>net/textproto\<close>: trimming of
  Unicode white space, ASCII case folding, \<open>mime.ParseMediaType\<close> (the media type and whether it
  parses), canonical header keys and header maps.
\<close>

section \<open>White space\<close>

definition ascii_space :: "char \<Rightarrow> bool" where
  "ascii_space c \<longleftrightarrow> ord_of c = 32 \<or> (9 \<le> ord_of c \<and> ord_of c \<le> 13)"

text \<open>\<open>unicode.IsSpace\<close> on the UTF-8 encodings of two and three bytes.\<close>

definition space2 :: "char \<Rightarrow> char \<Rightarrow> bool" where
  "space2 a b \<longleftrightarrow> ord_of a = 0xC2 \<and> (ord_of b = 0x85 \<or> ord_of b = 0xA0)"

definition space3 :: "char \<Rightarrow> char \<Rightarrow> char \<Rightarrow> bool" where
  "space3 a b c \<longleftrightarrow>
     (ord_of a = 0xE1 \<and> ord_of b = 0x9A \<and> ord_of c = 0x80)
   \<or> (ord_of a = 0xE2 \<and> ord_of b = 0x80 \<and>
        (0x80 \<le> ord_of c \<and> ord_of c \<le> 0x8A \<or> ord_of c = 0xA8 \<or> ord_of c = 0xA9 \<or> ord_of c = 0xAF))
   \<or> (ord_of a = 0xE2 \<and> ord_of b = 0x81 \<and> ord_of c = 0x9F)
   \<or> (ord_of a = 0xE3 \<and> ord_of b = 0x80 \<and> ord_of c = 0x80)"

fun trim_left :: "string \<Rightarrow> string" where
  "trim_left (a # b # c # s) =
     (if ascii_space a then trim_left (b # c # s) else if space2 a b then trim_left (c # s)
      else if space3 a b c then trim_left s else a # b # c # s)"
| "trim_left [a, b] =
     (if ascii_space a then trim_left [b] else if space2 a b then [] else [a, b])"
| "trim_left [a] = (if ascii_space a then [] else [a])"
| "trim_left [] = []"

text \<open>The same from the right end, on the reversed string.\<close>

fun trim_left_rev :: "string \<Rightarrow> string" where
  "trim_left_rev (a # b # c # s) =
     (if ascii_space a then trim_left_rev (b # c # s) else if space2 b a then trim_left_rev (c # s)
      else if space3 c b a then trim_left_rev s else a # b # c # s)"
| "trim_left_rev [a, b] =
     (if ascii_space a then trim_left_rev [b] else if space2 b a then [] else [a, b])"
| "trim_left_rev [a] = (if ascii_space a then [] else [a])"
| "trim_left_rev [] = []"

definition trim_space :: "string \<Rightarrow> string" where
  "trim_space s = rev (trim_left_rev (rev (trim_left s)))"

lemma trim_left_suffix: "\<exists>p. s = p @ trim_left s"
proof (induction s rule: trim_left.induct)
  case (1 a b c s)
  consider "ascii_space a" | "\<not> ascii_space a" "space2 a b"
    | "\<not> ascii_space a" "\<not> space2 a b" "space3 a b c"
    | "\<not> ascii_space a" "\<not> space2 a b" "\<not> space3 a b c" by blast
  then show ?case
  proof cases
    case 1
    then obtain p where "b # c # s = p @ trim_left (b # c # s)" using "1.IH"(1) by blast
    then have "a # b # c # s = (a # p) @ trim_left (b # c # s)" by simp
    with 1 show ?thesis by (metis trim_left.simps(1))
  next
    case 2
    then obtain p where "c # s = p @ trim_left (c # s)" using "1.IH"(2) by blast
    then have "a # b # c # s = (a # b # p) @ trim_left (c # s)" by simp
    with 2 show ?thesis by (metis trim_left.simps(1))
  next
    case 3
    then obtain p where "s = p @ trim_left s" using "1.IH"(3) by blast
    then have "a # b # c # s = (a # b # c # p) @ trim_left s" by simp
    with 3 show ?thesis by (metis trim_left.simps(1))
  qed simp
qed auto

lemma trim_left_length: "length (trim_left s) \<le> length s"
proof -
  obtain p where "s = p @ trim_left s" using trim_left_suffix by blast
  then have "length s = length p + length (trim_left s)" by (metis length_append)
  then show ?thesis by simp
qed

lemma trim_left_rev_length: "length (trim_left_rev s) \<le> length s"
  by (induction s rule: trim_left_rev.induct) auto

lemma trim_space_length: "length (trim_space s) \<le> length s"
  using trim_left_length [of s] trim_left_rev_length [of "rev (trim_left s)"] by (simp add: trim_space_def)

text \<open>Text that starts and ends with a visible ASCII byte is not touched.\<close>

definition visible :: "char \<Rightarrow> bool" where
  "visible c \<longleftrightarrow> ord_of c < 128 \<and> \<not> ascii_space c"

lemma trim_left_visible: "visible a \<Longrightarrow> trim_left (a # s) = a # s"
  by (cases "a # s" rule: trim_left.cases) (auto simp: visible_def space2_def space3_def)

lemma trim_left_rev_visible: "visible a \<Longrightarrow> trim_left_rev (a # s) = a # s"
  by (cases "a # s" rule: trim_left_rev.cases) (auto simp: visible_def space2_def space3_def)

lemma trim_space_visible:
  assumes "s \<noteq> []" "visible (hd s)" "visible (last s)"
  shows "trim_space s = s"
proof -
  have "trim_left s = s" using assms(1,2) by (cases s) (simp_all add: trim_left_visible)
  moreover obtain c r where "rev s = c # r" "c = last s"
    using assms(1) by (cases "rev s") (auto dest: last_rev_hd)
  moreover from this have "trim_left_rev (rev s) = rev s"
    using assms(3) trim_left_rev_visible [of c r] by (simp only:)
  ultimately show ?thesis by (simp add: trim_space_def)
qed

section \<open>Case\<close>

definition lower_char :: "char \<Rightarrow> char" where
  "lower_char c = (if 65 \<le> ord_of c \<and> ord_of c \<le> 90 then char_of (ord_of c + 32) else c)"

definition upper_char :: "char \<Rightarrow> char" where
  "upper_char c = (if 97 \<le> ord_of c \<and> ord_of c \<le> 122 then char_of (ord_of c - 32) else c)"

text \<open>\<open>strings.ToLower\<close> on the ASCII letters; a non-ASCII byte stays as it is.\<close>

definition to_lower :: "string \<Rightarrow> string" where
  "to_lower = map lower_char"

section \<open>Tokens and media types\<close>

definition token_char :: "char \<Rightarrow> bool" where
  "token_char c \<longleftrightarrow> 33 \<le> ord_of c \<and> ord_of c < 127 \<and> c \<notin> set ''()<>@,;:/[]?='' \<and> c \<noteq> CHR 0x5C \<and> c \<noteq> CHR 0x22"

fun consume_token :: "string \<Rightarrow> string \<times> string" where
  "consume_token [] = ([], [])"
| "consume_token (c # s) =
     (if token_char c then (case consume_token s of (t, r) \<Rightarrow> (c # t, r)) else ([], c # s))"

definition tspecial :: "char \<Rightarrow> bool" where
  "tspecial c \<longleftrightarrow> c \<in> set ''()<>@,;:/[]?='' \<or> c = CHR 0x5C \<or> c = CHR 0x22"

text \<open>A quoted string after its opening quote: the value and the rest, \<open>None\<close> when it does not end.\<close>

fun consume_quoted :: "string \<Rightarrow> (string \<times> string) option" where
  "consume_quoted [] = None"
| "consume_quoted (r # s) =
     (if r = CHR 0x22 then Some ([], s)
      else if r = CHR 0x5C \<and> (case s of [] \<Rightarrow> False | e # _ \<Rightarrow> tspecial e)
           then (case s of [] \<Rightarrow> None | e # t \<Rightarrow> map_option (\<lambda>(v, u). (e # v, u)) (consume_quoted t))
      else if r = CHR 0x0D \<or> r = CHR 0x0A then None
      else map_option (\<lambda>(v, u). (r # v, u)) (consume_quoted s))"

definition consume_value :: "string \<Rightarrow> string \<times> string" where
  "consume_value v = (case v of [] \<Rightarrow> ([], [])
     | c # s \<Rightarrow> (if c \<noteq> CHR 0x22 then consume_token v
                else (case consume_quoted s of None \<Rightarrow> ([], v) | Some r \<Rightarrow> r)))"

definition consume_media_param :: "string \<Rightarrow> (string \<times> string \<times> string) option" where
  "consume_media_param v = (case trim_left v of [] \<Rightarrow> None | c # r1 \<Rightarrow>
     (if c \<noteq> CHR '';'' then None else
      (case consume_token (trim_left r1) of (param, r2) \<Rightarrow>
        (if param = [] then None else
         (case trim_left r2 of [] \<Rightarrow> None | e # r3 \<Rightarrow>
           (if e \<noteq> CHR ''='' then None else
            (let r4 = trim_left r3 in case consume_value r4 of (value, r5) \<Rightarrow>
              (if value = [] \<and> r5 = r4 then None else Some (to_lower param, value, r5)))))))))"

lemma consume_token_length: "consume_token s = (t, r) \<Longrightarrow> length s = length t + length r"
  by (induction s arbitrary: t r) (auto split: if_splits prod.splits)

lemma consume_quoted_length: "consume_quoted s = Some (v, r) \<Longrightarrow> length r < length s"
proof (induction s arbitrary: v r rule: consume_quoted.induct)
  case (2 c s)
  then show ?case by (fastforce split: if_splits list.splits)
qed simp

lemma consume_value_length: "consume_value s = (v, r) \<Longrightarrow> length r \<le> length s"
  by (auto simp: consume_value_def simp del: consume_token.simps split: list.splits if_splits option.splits
      dest!: consume_token_length consume_quoted_length)

lemma consume_media_param_length:
  assumes "consume_media_param v = Some (k, val, rest)"
  shows "length rest < length v"
proof -
  obtain c r1 where 1: "trim_left v = c # r1"
    using assms by (auto simp: consume_media_param_def split: list.splits)
  obtain r2 where 2: "consume_token (trim_left r1) = (fst (consume_token (trim_left r1)), r2)"
    by (metis prod.collapse)
  obtain e r3 where 3: "trim_left r2 = e # r3"
    using assms 1 2 by (auto simp: consume_media_param_def split: list.splits if_splits prod.splits)
  have 5: "consume_value (trim_left r3) = (val, rest)"
    using assms 1 2 3
    by (auto simp: consume_media_param_def Let_def split: if_splits prod.splits)
  have "length rest \<le> length r3"
    using consume_value_length [OF 5] trim_left_length [of r3] by simp
  moreover have "length r3 < length r2" using trim_left_length [of r2] 3 by simp
  moreover have "length r2 \<le> length r1"
    using consume_token_length [OF 2] trim_left_length [of r1] by simp
  moreover have "length r1 < length v" using trim_left_length [of v] 1 by simp
  ultimately show ?thesis by simp
qed

text \<open>
  The parameters; the result is whether they parse. A repeated parameter with another value is an
  error. Each round consumes at least the parameter's semicolon.
\<close>

function media_params_ok :: "(string \<times> string) list \<Rightarrow> string \<Rightarrow> bool" where
  "media_params_ok seen v =
     (let u = trim_left v in
      if u = [] then True
      else (case consume_media_param u of
        None \<Rightarrow> trim_space u = '';''
      | Some (k, val, rest) \<Rightarrow>
          (case map_of seen k of
             Some val' \<Rightarrow> val' = val \<and> media_params_ok seen rest
           | None \<Rightarrow> media_params_ok ((k, val) # seen) rest)))"
  by pat_completeness auto
termination
  by (relation "measure (\<lambda>(seen, v). length v)")
     (auto dest!: consume_media_param_length intro: less_le_trans [OF _ trim_left_length])

declare media_params_ok.simps [simp del]

definition media_type_ok :: "string \<Rightarrow> bool" where
  "media_type_ok s = (case consume_token s of (typ, rest) \<Rightarrow>
     typ \<noteq> [] \<and> (rest = [] \<or>
       (case rest of [] \<Rightarrow> False | c # r \<Rightarrow>
         c = CHR ''/'' \<and> (case consume_token r of (sub, rest2) \<Rightarrow> sub \<noteq> [] \<and> rest2 = []))))"

text \<open>\<open>mime.ParseMediaType\<close>: the media type when there is no error.\<close>

definition parse_media_type :: "string \<Rightarrow> string option" where
  "parse_media_type v = (case cut_byte CHR '';'' v of (base, rest, found) \<Rightarrow>
     (let mt = trim_space (to_lower base); params = (if found then CHR '';'' # rest else [])
      in if media_type_ok mt \<and> media_params_ok [] params then Some mt else None))"

section \<open>Headers\<close>

definition header_token_char :: "char \<Rightarrow> bool" where
  "header_token_char c \<longleftrightarrow> c \<in> set ''!#$%&'' \<or> c = CHR 0x27 \<or> c \<in> set ''*+-.^_`|~'' \<or>
     (48 \<le> ord_of c \<and> ord_of c \<le> 57) \<or> (65 \<le> ord_of c \<and> ord_of c \<le> 90) \<or> (97 \<le> ord_of c \<and> ord_of c \<le> 122)"

fun canonical_chars :: "bool \<Rightarrow> string \<Rightarrow> string" where
  "canonical_chars up [] = []"
| "canonical_chars up (c # s) =
     (if up then upper_char c else lower_char c) # canonical_chars (c = CHR ''-'') s"

text \<open>\<open>http.CanonicalHeaderKey\<close>: a key with a byte that is not a token byte is returned unchanged.\<close>

definition canonical_key :: "string \<Rightarrow> string" where
  "canonical_key k = (if list_all header_token_char k then canonical_chars True k else k)"

text \<open>
  A header is the list of its keys with their values, in the order the keys were first set (Go's
  map has no order; nothing here depends on it).
\<close>

type_synonym header = "(string \<times> string list) list"

definition header_values :: "header \<Rightarrow> string \<Rightarrow> string list" where
  "header_values h k = (case map_of h (canonical_key k) of None \<Rightarrow> [] | Some vs \<Rightarrow> vs)"

definition header_get :: "header \<Rightarrow> string \<Rightarrow> string" where
  "header_get h k = (case header_values h k of [] \<Rightarrow> [] | v # _ \<Rightarrow> v)"

fun assoc_set :: "'k \<Rightarrow> 'v \<Rightarrow> ('k \<times> 'v) list \<Rightarrow> ('k \<times> 'v) list" where
  "assoc_set k v [] = [(k, v)]"
| "assoc_set k v ((k', v') # m) = (if k' = k then (k, v) # m else (k', v') # assoc_set k v m)"

definition header_set :: "header \<Rightarrow> string \<Rightarrow> string \<Rightarrow> header" where
  "header_set h k v = assoc_set (canonical_key k) [v] h"

definition header_add :: "header \<Rightarrow> string \<Rightarrow> string \<Rightarrow> header" where
  "header_add h k v = assoc_set (canonical_key k) (header_values h k @ [v]) h"

lemma map_of_assoc_set [simp]: "map_of (assoc_set k v m) = (map_of m)(k \<mapsto> v)"
  by (induction m) auto

lemma header_values_set:
  "header_values (header_set h k v) j = (if canonical_key j = canonical_key k then [v] else header_values h j)"
  by (simp add: header_values_def header_set_def)

lemma header_get_set:
  "header_get (header_set h k v) j = (if canonical_key j = canonical_key k then v else header_get h j)"
  by (simp add: header_get_def header_values_set)

lemma header_values_add:
  "header_values (header_add h k v) j =
     (if canonical_key j = canonical_key k then header_values h j @ [v] else header_values h j)"
  by (auto simp: header_values_def header_add_def)

end
