(* ===== verification/Json.thy ===== *)
theory Json
  imports Encoding
begin

text \<open>
  The part of Go's \<open>encoding/json\<close> that the SDK uses: the grammar its scanner accepts
  (\<open>json_parse\<close>), decoding of a value into a struct (\<open>decode_struct\<close>: exact field names
  before case-folded ones, the last of two equal keys wins, \<open>null\<close> leaves a field alone,
  \<open>DisallowUnknownFields\<close>), and encoding (\<open>enc_string\<close>, \<open>enc_object\<close>, and
  \<open>json_compact\<close> for a \<open>json.RawMessage\<close>, with the HTML escapes \<open>Marshal\<close> applies).
  An array element or object member keeps the exact bytes of its value beside the value, because
  \<open>json.RawMessage\<close> fields retain them. The text of a decoding error is not modelled: it is
  \<open>json_error\<close>.
\<close>

abbreviation (input) bslash :: char where "bslash \<equiv> CHR 0x5C"
abbreviation (input) dquote :: char where "dquote \<equiv> CHR 0x22"

definition json_error :: error where
  "json_error = Msg ''json: cannot decode input''"

datatype json =
    JNull
  | JBool bool
  | JNum string
  | JStr string
  | JArr "(string \<times> json) list"
  | JObj "(string \<times> string \<times> json) list"

section \<open>UTF-8\<close>

definition in_range :: "nat \<Rightarrow> nat \<Rightarrow> char \<Rightarrow> bool" where
  "in_range lo hi c \<longleftrightarrow> lo \<le> ord_of c \<and> ord_of c \<le> hi"

text \<open>
  The length of the multi-byte UTF-8 sequence a string starts with, 0 when there is none
  (an ASCII byte, or an invalid sequence).
\<close>

definition utf8_2 :: "char \<Rightarrow> char \<Rightarrow> bool" where
  "utf8_2 a b \<longleftrightarrow> in_range 0xC2 0xDF a \<and> in_range 0x80 0xBF b"

definition utf8_3 :: "char \<Rightarrow> char \<Rightarrow> char \<Rightarrow> bool" where
  "utf8_3 a b c \<longleftrightarrow>
     (in_range 0xE0 0xE0 a \<and> in_range 0xA0 0xBF b \<or> in_range 0xED 0xED a \<and> in_range 0x80 0x9F b
      \<or> (in_range 0xE1 0xEC a \<or> in_range 0xEE 0xEF a) \<and> in_range 0x80 0xBF b)
     \<and> in_range 0x80 0xBF c"

definition utf8_4 :: "char \<Rightarrow> char \<Rightarrow> char \<Rightarrow> char \<Rightarrow> bool" where
  "utf8_4 a b c d \<longleftrightarrow>
     (in_range 0xF0 0xF0 a \<and> in_range 0x90 0xBF b \<or> in_range 0xF4 0xF4 a \<and> in_range 0x80 0x8F b
      \<or> in_range 0xF1 0xF3 a \<and> in_range 0x80 0xBF b)
     \<and> in_range 0x80 0xBF c \<and> in_range 0x80 0xBF d"

fun utf8_multi :: "string \<Rightarrow> nat" where
  "utf8_multi (a # b # c # d # s) =
     (if utf8_2 a b then 2 else if utf8_3 a b c then 3 else if utf8_4 a b c d then 4 else 0)"
| "utf8_multi [a, b, c] = (if utf8_2 a b then 2 else if utf8_3 a b c then 3 else 0)"
| "utf8_multi [a, b] = (if utf8_2 a b then 2 else 0)"
| "utf8_multi s = 0"

definition utf8_encode :: "nat \<Rightarrow> string" where
  "utf8_encode r =
     (if r < 0x80 then [char_of r]
      else if r < 0x800 then [char_of (0xC0 + r div 64), char_of (0x80 + r mod 64)]
      else if r < 0x10000 then
        [char_of (0xE0 + r div 4096), char_of (0x80 + r div 64 mod 64), char_of (0x80 + r mod 64)]
      else [char_of (0xF0 + r div 262144), char_of (0x80 + r div 4096 mod 64),
            char_of (0x80 + r div 64 mod 64), char_of (0x80 + r mod 64)])"

definition replacement_char :: string where
  "replacement_char = [CHR 0xEF, CHR 0xBF, CHR 0xBD]"

section \<open>Scanning\<close>

definition is_ws :: "char \<Rightarrow> bool" where
  "is_ws c \<longleftrightarrow> c = CHR '' '' \<or> c = CHR 0x09 \<or> c = CHR 0x0D \<or> c = CHR 0x0A"

fun skip_ws :: "string \<Rightarrow> string" where
  "skip_ws [] = []"
| "skip_ws (c # s) = (if is_ws c then skip_ws s else c # s)"

definition is_digit :: "char \<Rightarrow> bool" where
  "is_digit c = in_range 48 57 c"

definition is_hex :: "char \<Rightarrow> bool" where
  "is_hex c \<longleftrightarrow> hex_val c \<noteq> None"

text \<open>The contents of a string literal up to its closing quote, escapes still in place.\<close>

fun scan_string :: "string \<Rightarrow> (string \<times> string) option" where
  "scan_string [] = None"
| "scan_string (c # s) =
     (if c = dquote then Some ([], s)
      else if c = bslash then
        (case s of [] \<Rightarrow> None | e # t \<Rightarrow>
          (if e \<in> set [dquote, bslash, CHR ''/'', CHR ''b'', CHR ''f'', CHR ''n'', CHR ''r'', CHR ''t'']
           then map_option (\<lambda>(r, u). (c # e # r, u)) (scan_string t)
           else if e = CHR ''u'' then
             (case t of h1 # h2 # h3 # h4 # t' \<Rightarrow>
                (if is_hex h1 \<and> is_hex h2 \<and> is_hex h3 \<and> is_hex h4
                 then map_option (\<lambda>(r, u). (c # e # h1 # h2 # h3 # h4 # r, u)) (scan_string t')
                 else None)
              | _ \<Rightarrow> None)
           else None))
      else if ord_of c < 32 then None
      else map_option (\<lambda>(r, u). (c # r, u)) (scan_string s))"

fun span_digits :: "string \<Rightarrow> string \<times> string" where
  "span_digits [] = ([], [])"
| "span_digits (c # s) =
     (if is_digit c then (case span_digits s of (a, b) \<Rightarrow> (c # a, b)) else ([], c # s))"

definition scan_int :: "string \<Rightarrow> (string \<times> string) option" where
  "scan_int s = (case s of [] \<Rightarrow> None | c # t \<Rightarrow>
     (if c = CHR ''0'' then Some ([c], t)
      else if is_digit c then Some (span_digits s) else None))"

definition scan_frac :: "string \<Rightarrow> (string \<times> string) option" where
  "scan_frac s = (case s of c # t \<Rightarrow>
     (if c = CHR ''.'' then
        (case span_digits t of (a, b) \<Rightarrow> (if a = [] then None else Some (c # a, b)))
      else Some ([], s)) | [] \<Rightarrow> Some ([], s))"

definition scan_exp :: "string \<Rightarrow> (string \<times> string) option" where
  "scan_exp s = (case s of c # t \<Rightarrow>
     (if c = CHR ''e'' \<or> c = CHR ''E'' then
        (let (sg, t') = (case t of x # y \<Rightarrow>
               (if x = CHR ''+'' \<or> x = CHR ''-'' then ([x], y) else ([], t)) | [] \<Rightarrow> ([], t))
         in (case span_digits t' of (a, b) \<Rightarrow> (if a = [] then None else Some (c # sg @ a, b))))
      else Some ([], s)) | [] \<Rightarrow> Some ([], s))"

definition scan_number :: "string \<Rightarrow> (string \<times> string) option" where
  "scan_number s =
     (let (sg, t) = (case s of c # t \<Rightarrow> (if c = CHR ''-'' then ([c], t) else ([], s)) | [] \<Rightarrow> ([], s))
      in case scan_int t of None \<Rightarrow> None | Some (i, u) \<Rightarrow>
        (case scan_frac u of None \<Rightarrow> None | Some (fr, v) \<Rightarrow>
          (case scan_exp v of None \<Rightarrow> None | Some (ex, w) \<Rightarrow> Some (sg @ i @ fr @ ex, w))))"

section \<open>String literals\<close>

definition hex4 :: "char \<Rightarrow> char \<Rightarrow> char \<Rightarrow> char \<Rightarrow> nat" where
  "hex4 a b c d = fold (\<lambda>h n. 16 * n + (case hex_val h of None \<Rightarrow> 0 | Some v \<Rightarrow> v)) [a, b, c, d] 0"

definition unescape_char :: "char \<Rightarrow> char" where
  "unescape_char e = (if e = CHR ''b'' then CHR 0x08 else if e = CHR ''f'' then CHR 0x0C
     else if e = CHR ''n'' then CHR 0x0A else if e = CHR ''r'' then CHR 0x0D
     else if e = CHR ''t'' then CHR 0x09 else e)"

text \<open>
  The value of a string literal's contents: escapes replaced, a surrogate pair joined, an unpaired
  surrogate or an invalid UTF-8 byte replaced by U+FFFD.
\<close>

function unquote :: "string \<Rightarrow> string" where
  "unquote [] = []"
| "unquote (c # s) =
     (if c = bslash then
        (case s of [] \<Rightarrow> [] | e # t \<Rightarrow>
          (if e = CHR ''u'' then
             (case t of h1 # h2 # h3 # h4 # t' \<Rightarrow>
                (let r = hex4 h1 h2 h3 h4 in
                 if r < 0xD800 \<or> 0xDFFF < r then utf8_encode r @ unquote t'
                 else (case t' of b # u # k1 # k2 # k3 # k4 # t'' \<Rightarrow>
                    (let r2 = hex4 k1 k2 k3 k4 in
                     if b = bslash \<and> u = CHR ''u'' \<and> r < 0xDC00 \<and> 0xDC00 \<le> r2 \<and> r2 < 0xE000
                     then utf8_encode (0x10000 + (r - 0xD800) * 1024 + (r2 - 0xDC00)) @ unquote t''
                     else replacement_char @ unquote t')
                  | _ \<Rightarrow> replacement_char @ unquote t'))
              | _ \<Rightarrow> [])
           else unescape_char e # unquote t))
      else if ord_of c < 128 then c # unquote s
      else (let n = utf8_multi (c # s) in
        if n = 0 then replacement_char @ unquote s
        else take n (c # s) @ unquote (drop n (c # s))))"
  by pat_completeness auto
termination
  by (relation "measure length") (auto split: list.splits)

section \<open>Values\<close>

definition consumed :: "string \<Rightarrow> string \<Rightarrow> string" where
  "consumed s rest = (let t = skip_ws s in take (length t - length rest) t)"

definition max_nesting :: nat where "max_nesting = 10000"

text \<open>
  A recursive-descent reading of the scanner's grammar. The first argument is fuel (one unit per
  call; \<open>parse_value_fuel\<close> below shows that \<open>2 * length s + 1\<close> is enough for the string
  \<open>s\<close>), the second the nesting depth that is left.
\<close>

fun parse_value :: "nat \<Rightarrow> nat \<Rightarrow> string \<Rightarrow> (json \<times> string) option"
  and parse_elems :: "nat \<Rightarrow> nat \<Rightarrow> string \<Rightarrow> ((string \<times> json) list \<times> string) option"
  and parse_members :: "nat \<Rightarrow> nat \<Rightarrow> string \<Rightarrow> ((string \<times> string \<times> json) list \<times> string) option"
where
  "parse_value 0 d s = None"
| "parse_value (Suc f) d s = (case skip_ws s of [] \<Rightarrow> None | c # t \<Rightarrow>
     (if c = CHR ''{'' then
        (case d of 0 \<Rightarrow> None | Suc d' \<Rightarrow>
          (case skip_ws t of [] \<Rightarrow> None | x # u \<Rightarrow>
            (if x = CHR ''}'' then Some (JObj [], u)
             else map_option (\<lambda>(ms, w). (JObj ms, w)) (parse_members f d' t))))
      else if c = CHR ''['' then
        (case d of 0 \<Rightarrow> None | Suc d' \<Rightarrow>
          (case skip_ws t of [] \<Rightarrow> None | x # u \<Rightarrow>
            (if x = CHR '']'' then Some (JArr [], u)
             else map_option (\<lambda>(vs, w). (JArr vs, w)) (parse_elems f d' t))))
      else if c = dquote then map_option (\<lambda>(r, u). (JStr (unquote r), u)) (scan_string t)
      else if has_prefix (c # t) ''true'' then Some (JBool True, drop 4 (c # t))
      else if has_prefix (c # t) ''false'' then Some (JBool False, drop 5 (c # t))
      else if has_prefix (c # t) ''null'' then Some (JNull, drop 4 (c # t))
      else map_option (\<lambda>(n, u). (JNum n, u)) (scan_number (c # t))))"
| "parse_elems 0 d s = None"
| "parse_elems (Suc f) d s = (case parse_value f d s of None \<Rightarrow> None | Some (v, u) \<Rightarrow>
     (case skip_ws u of [] \<Rightarrow> None | c # t \<Rightarrow>
       (if c = CHR '']'' then Some ([(consumed s u, v)], t)
        else if c = CHR '','' then
          map_option (\<lambda>(vs, w). ((consumed s u, v) # vs, w)) (parse_elems f d t)
        else None)))"
| "parse_members 0 d s = None"
| "parse_members (Suc f) d s = (case skip_ws s of [] \<Rightarrow> None | q # t \<Rightarrow>
     (if q \<noteq> dquote then None else
      (case scan_string t of None \<Rightarrow> None | Some (k, u) \<Rightarrow>
        (case skip_ws u of [] \<Rightarrow> None | c # u' \<Rightarrow>
          (if c \<noteq> CHR '':'' then None else
           (case parse_value f d u' of None \<Rightarrow> None | Some (v, w) \<Rightarrow>
             (case skip_ws w of [] \<Rightarrow> None | e # w' \<Rightarrow>
               (if e = CHR ''}'' then Some ([(unquote k, consumed u' w, v)], w')
                else if e = CHR '','' then
                  map_option (\<lambda>(ms, z). ((unquote k, consumed u' w, v) # ms, z)) (parse_members f d w')
                else None))))))))"

text \<open>One JSON value with nothing but white space around it.\<close>

definition json_parse :: "string \<Rightarrow> json option" where
  "json_parse s = (case parse_value (2 * length s + 1) max_nesting s of
     None \<Rightarrow> None
   | Some (v, rest) \<Rightarrow> (if skip_ws rest = [] then Some v else None))"

text \<open>\<open>json.Valid\<close>.\<close>

definition json_valid :: "string \<Rightarrow> bool" where
  "json_valid s \<longleftrightarrow> json_parse s \<noteq> None"

section \<open>The fuel is enough\<close>

lemma skip_ws_length: "length (skip_ws s) \<le> length s"
  by (induction s) auto

lemma skip_ws_Cons_length: "skip_ws s = c # t \<Longrightarrow> length t < length s"
  using skip_ws_length [of s] by simp

lemma scan_string_length: "scan_string s = Some (r, u) \<Longrightarrow> length u < length s"
proof (induction s arbitrary: r u rule: scan_string.induct)
  case (2 c s)
  then show ?case
    by (fastforce split: if_splits list.splits option.splits)
qed simp

lemma span_digits_length: "span_digits s = (a, b) \<Longrightarrow> length s = length a + length b"
  by (induction s arbitrary: a b) (auto split: if_splits prod.splits)

lemma scan_int_length: "scan_int s = Some (i, u) \<Longrightarrow> length u < length s"
  by (auto simp: scan_int_def split: list.splits if_splits prod.splits dest: span_digits_length)

lemma scan_frac_length: "scan_frac s = Some (i, u) \<Longrightarrow> length u \<le> length s"
  by (auto simp: scan_frac_def split: list.splits if_splits prod.splits dest!: span_digits_length)

lemma scan_exp_length: "scan_exp s = Some (i, u) \<Longrightarrow> length u \<le> length s"
  by (auto simp: scan_exp_def Let_def split: list.splits if_splits prod.splits dest!: span_digits_length)

lemma scan_number_length: "scan_number s = Some (n, u) \<Longrightarrow> length u < length s"
  by (auto simp: scan_number_def split: list.splits if_splits option.splits prod.splits
      dest!: scan_int_length scan_frac_length scan_exp_length)

lemma parse_value_length_step:
  assumes "\<And>d s vs u. parse_elems f d s = Some (vs, u) \<Longrightarrow> length u < length s"
    and "\<And>d s ms u. parse_members f d s = Some (ms, u) \<Longrightarrow> length u < length s"
    and "parse_value (Suc f) d s = Some (v, u)"
  shows "length u < length s"
  using assms(3)
  by (auto split: list.splits if_splits nat.splits
      dest!: assms(1,2) skip_ws_Cons_length scan_string_length scan_number_length)

lemma parse_elems_length_step:
  assumes "\<And>d s v u. parse_value f d s = Some (v, u) \<Longrightarrow> length u < length s"
    and "\<And>d s vs u. parse_elems f d s = Some (vs, u) \<Longrightarrow> length u < length s"
    and "parse_elems (Suc f) d s = Some (vs, u)"
  shows "length u < length s"
  using assms(3)
  by (auto split: list.splits if_splits option.splits prod.splits
      dest!: assms(1,2) skip_ws_Cons_length)

lemma parse_members_length_step:
  assumes "\<And>d s v u. parse_value f d s = Some (v, u) \<Longrightarrow> length u < length s"
    and "\<And>d s ms u. parse_members f d s = Some (ms, u) \<Longrightarrow> length u < length s"
    and "parse_members (Suc f) d s = Some (ms, u)"
  shows "length u < length s"
  using assms(3)
  by (auto split: list.splits if_splits option.splits prod.splits
      dest!: assms(1,2) skip_ws_Cons_length scan_string_length)

lemma parse_length:
  "(\<forall>d s v u. parse_value f d s = Some (v, u) \<longrightarrow> length u < length s) \<and>
   (\<forall>d s vs u. parse_elems f d s = Some (vs, u) \<longrightarrow> length u < length s) \<and>
   (\<forall>d s ms u. parse_members f d s = Some (ms, u) \<longrightarrow> length u < length s)"
proof (induction f)
  case (Suc f)
  then have v: "\<And>d s v u. parse_value f d s = Some (v, u) \<Longrightarrow> length u < length s"
    and e: "\<And>d s vs u. parse_elems f d s = Some (vs, u) \<Longrightarrow> length u < length s"
    and m: "\<And>d s ms u. parse_members f d s = Some (ms, u) \<Longrightarrow> length u < length s"
    by blast+
  show ?case
  proof (intro conjI allI impI)
    fix d s v u
    assume "parse_value (Suc f) d s = Some (v, u)"
    then show "length u < length s"
      by (rule parse_value_length_step [rotated 2]) (erule e, erule m)
  next
    fix d s vs u
    assume "parse_elems (Suc f) d s = Some (vs, u)"
    then show "length u < length s"
      by (rule parse_elems_length_step [rotated 2]) (erule v, erule e)
  next
    fix d s ms u
    assume "parse_members (Suc f) d s = Some (ms, u)"
    then show "length u < length s"
      by (rule parse_members_length_step [rotated 2]) (erule v, erule m)
  qed
qed simp

lemma parse_value_length: "parse_value f d s = Some (v, u) \<Longrightarrow> length u < length s"
  using parse_length by blast

lemma parse_value_fuel_step:
  assumes e: "\<And>d t. length t < length s \<Longrightarrow> parse_elems f d t = parse_elems g d t"
    and m: "\<And>d t. length t < length s \<Longrightarrow> parse_members f d t = parse_members g d t"
  shows "parse_value (Suc f) d s = parse_value (Suc g) d s"
proof (cases "skip_ws s")
  case (Cons c t)
  then have "length t < length s" by (rule skip_ws_Cons_length)
  with Cons show ?thesis by (auto simp: e m split: list.splits nat.splits)
qed simp

lemma parse_elems_fuel_step:
  assumes v: "parse_value f d s = parse_value g d s"
    and e: "\<And>t. length t < length s \<Longrightarrow> parse_elems f d t = parse_elems g d t"
  shows "parse_elems (Suc f) d s = parse_elems (Suc g) d s"
proof (cases "parse_value g d s")
  case (Some r)
  obtain x u where r: "r = (x, u)" by force
  have u: "length u < length s" using parse_value_length [OF Some [unfolded r]] .
  then have "\<And>c t. skip_ws u = c # t \<Longrightarrow> parse_elems f d t = parse_elems g d t"
    by (intro e) (fastforce dest: skip_ws_Cons_length)
  then show ?thesis using v Some r by (simp split: list.splits)
qed (simp add: v)

lemma parse_members_fuel_step:
  assumes v: "\<And>t. length t < length s \<Longrightarrow> parse_value f d t = parse_value g d t"
    and m: "\<And>t. length t < length s \<Longrightarrow> parse_members f d t = parse_members g d t"
  shows "parse_members (Suc f) d s = parse_members (Suc g) d s"
proof (cases "skip_ws s")
  case (Cons q t)
  then have t: "length t < length s" by (rule skip_ws_Cons_length)
  show ?thesis
  proof (cases "scan_string t")
    case (Some r)
    obtain k u where r: "r = (k, u)" by force
    show ?thesis
    proof (cases "skip_ws u")
      case (Cons c u')
      have u': "length u' < length s"
        using t scan_string_length [OF Some [unfolded r]] skip_ws_Cons_length [OF Cons] by simp
      from v [OF u'] show ?thesis
      proof (cases "parse_value g d u'")
        case (Some vw)
        obtain x w where vw: "vw = (x, w)" by force
        have "length w < length s" using parse_value_length [OF Some [unfolded vw]] u' by simp
        then have "\<And>e w'. skip_ws w = e # w' \<Longrightarrow> length w' < length s"
          using skip_ws_Cons_length by fastforce
        then show ?thesis
          using v [OF u'] Some vw \<open>skip_ws s = q # t\<close> \<open>scan_string t = Some r\<close> r Cons
          by (auto simp: m split: list.splits)
      qed (use v [OF u'] \<open>skip_ws s = q # t\<close> \<open>scan_string t = Some r\<close> r Cons in simp)
    qed (use \<open>skip_ws s = q # t\<close> Some r in simp)
  qed (use Cons in simp)
qed simp

lemma parse_fuel:
  "(\<forall>g d s. 2 * length s < f \<and> 2 * length s < g \<longrightarrow> parse_value f d s = parse_value g d s) \<and>
   (\<forall>g d s. 2 * length s + 1 < f \<and> 2 * length s + 1 < g \<longrightarrow> parse_elems f d s = parse_elems g d s) \<and>
   (\<forall>g d s. 2 * length s + 1 < f \<and> 2 * length s + 1 < g \<longrightarrow> parse_members f d s = parse_members g d s)"
proof (induction f)
  case (Suc f)
  then have v: "\<And>g d s. 2 * length s < f \<Longrightarrow> 2 * length s < g \<Longrightarrow> parse_value f d s = parse_value g d s"
    and e: "\<And>g d s. 2 * length s + 1 < f \<Longrightarrow> 2 * length s + 1 < g \<Longrightarrow> parse_elems f d s = parse_elems g d s"
    and m: "\<And>g d s. 2 * length s + 1 < f \<Longrightarrow> 2 * length s + 1 < g \<Longrightarrow> parse_members f d s = parse_members g d s"
    by blast+
  show ?case
  proof (intro conjI allI impI)
    fix g d and s :: string
    assume fg: "2 * length s < Suc f \<and> 2 * length s < g"
    then obtain g' where g: "g = Suc g'" by (cases g) auto
    show "parse_value (Suc f) d s = parse_value g d s"
      unfolding g by (rule parse_value_fuel_step; rule e m) (use fg g in simp_all)
  next
    fix g d and s :: string
    assume fg: "2 * length s + 1 < Suc f \<and> 2 * length s + 1 < g"
    then obtain g' where g: "g = Suc g'" by (cases g) auto
    show "parse_elems (Suc f) d s = parse_elems g d s"
      unfolding g by (rule parse_elems_fuel_step; rule e v) (use fg g in simp_all)
  next
    fix g d and s :: string
    assume fg: "2 * length s + 1 < Suc f \<and> 2 * length s + 1 < g"
    then obtain g' where g: "g = Suc g'" by (cases g) auto
    show "parse_members (Suc f) d s = parse_members g d s"
      unfolding g by (rule parse_members_fuel_step; rule m v) (use fg g in simp_all)
  qed
qed simp

text \<open>More fuel than \<open>2 * length s\<close> never changes what the parser says about \<open>s\<close>.\<close>

lemma parse_value_fuel:
  "2 * length s < f \<Longrightarrow> parse_value f d s = parse_value (2 * length s + 1) d s"
  by (rule parse_fuel [THEN conjunct1, rule_format]) simp

end
