(* ===== verification/JsonCodec.thy ===== *)
theory JsonCodec
  imports Json
begin

text \<open>
  Decoding into Go values and encoding of Go values, on top of the grammar of theory \<open>Json\<close>.
  A struct type is given by its list of fields, each with the operation that decodes into it.
\<close>

section \<open>Decoding\<close>

text \<open>A decoder gets the destination's present value, the exact bytes of the JSON value and the value.\<close>

type_synonym 'a decoder = "'a \<Rightarrow> string \<Rightarrow> json \<Rightarrow> 'a result"
type_synonym 'r fields = "(string \<times> 'r decoder) list"

text \<open>Field names match exactly, or else after folding case (K and s also have a non-ASCII form).\<close>

fun fold_name :: "string \<Rightarrow> string" where
  "fold_name [] = []"
| "fold_name (a # s) =
     (if in_range 97 122 a then char_of (ord_of a - 32) # fold_name s
      else (case s of
        b # t \<Rightarrow>
          (if ord_of a = 0xC5 \<and> ord_of b = 0xBF then CHR ''S'' # fold_name t
           else (case t of
             c # u \<Rightarrow>
               (if ord_of a = 0xE2 \<and> ord_of b = 0x84 \<and> ord_of c = 0xAA then CHR ''K'' # fold_name u
                else a # fold_name s)
           | [] \<Rightarrow> a # fold_name s))
      | [] \<Rightarrow> a # fold_name s))"

definition find_field :: "'r fields \<Rightarrow> string \<Rightarrow> 'r decoder option" where
  "find_field fs k = (case map_of fs k of
     Some f \<Rightarrow> Some f
   | None \<Rightarrow> map_option snd (find (\<lambda>(n, _). fold_name n = fold_name k) fs))"

fun decode_members :: "bool \<Rightarrow> 'r fields \<Rightarrow> (string \<times> string \<times> json) list \<Rightarrow> 'r \<Rightarrow> 'r result" where
  "decode_members strict fs [] r = Inr r"
| "decode_members strict fs ((k, raw, v) # ms) r = (case find_field fs k of
     None \<Rightarrow> (if strict then Inl json_error else decode_members strict fs ms r)
   | Some f \<Rightarrow> (case f r raw v of Inl e \<Rightarrow> Inl e | Inr r' \<Rightarrow> decode_members strict fs ms r'))"

definition decode_struct :: "bool \<Rightarrow> 'r fields \<Rightarrow> 'r decoder" where
  "decode_struct strict fs r raw v = (case v of
     JNull \<Rightarrow> Inr r
   | JObj ms \<Rightarrow> decode_members strict fs ms r
   | _ \<Rightarrow> Inl json_error)"

definition decode_string :: "string decoder" where
  "decode_string old raw v = (case v of JNull \<Rightarrow> Inr old | JStr s \<Rightarrow> Inr s | _ \<Rightarrow> Inl json_error)"

definition decode_bool :: "bool decoder" where
  "decode_bool old raw v = (case v of JNull \<Rightarrow> Inr old | JBool b \<Rightarrow> Inr b | _ \<Rightarrow> Inl json_error)"

definition digits_val :: "string \<Rightarrow> int" where
  "digits_val s = foldl (\<lambda>n c. 10 * n + (int (ord_of c) - 48)) 0 s"

text \<open>\<open>strconv.ParseInt(lit, 10, 64)\<close> of a number literal.\<close>

definition parse_int64 :: "string \<Rightarrow> int result" where
  "parse_int64 s =
     (let (neg, ds) = (case s of c # t \<Rightarrow> (if c = CHR ''-'' then (True, t) else (False, s)) | [] \<Rightarrow> (False, []));
          n = (if neg then - digits_val ds else digits_val ds)
      in if ds \<noteq> [] \<and> list_all is_digit ds \<and> in_int64 n then Inr n else Inl json_error)"

definition decode_int :: "int decoder" where
  "decode_int old raw v = (case v of
     JNull \<Rightarrow> Inr old | JNum s \<Rightarrow> parse_int64 s | _ \<Rightarrow> Inl json_error)"

text \<open>\<open>json.RawMessage\<close> keeps the bytes, also those of \<open>null\<close>.\<close>

definition decode_raw :: "bytes decoder" where
  "decode_raw old raw v = Inr raw"

definition decode_bytes :: "bytes decoder" where
  "decode_bytes old raw v = (case v of
     JNull \<Rightarrow> Inr [] | JStr s \<Rightarrow> b64_std_decode False s | _ \<Rightarrow> Inl json_error)"

text \<open>A slice decodes element by element over the elements it already has, then is cut to length.\<close>

fun decode_elems :: "'a decoder \<Rightarrow> 'a \<Rightarrow> 'a list \<Rightarrow> (string \<times> json) list \<Rightarrow> 'a list result" where
  "decode_elems f zero old [] = Inr []"
| "decode_elems f zero old ((raw, v) # vs) =
     (case f (case old of [] \<Rightarrow> zero | o1 # _ \<Rightarrow> o1) raw v of
        Inl e \<Rightarrow> Inl e
      | Inr x \<Rightarrow> (case decode_elems f zero (tl old) vs of Inl e \<Rightarrow> Inl e | Inr xs \<Rightarrow> Inr (x # xs)))"

definition decode_slice :: "'a decoder \<Rightarrow> 'a \<Rightarrow> 'a list decoder" where
  "decode_slice f zero old raw v = (case v of
     JNull \<Rightarrow> Inr [] | JArr vs \<Rightarrow> decode_elems f zero old vs | _ \<Rightarrow> Inl json_error)"

text \<open>A decoder lifted to one field of a record, given how to read and write the field.\<close>

definition field :: "('r \<Rightarrow> 'a) \<Rightarrow> ('a \<Rightarrow> 'r \<Rightarrow> 'r) \<Rightarrow> 'a decoder \<Rightarrow> 'r decoder" where
  "field get put dec r raw v = (case dec (get r) raw v of Inl e \<Rightarrow> Inl e | Inr x \<Rightarrow> Inr (put x r))"

text \<open>\<open>json.Unmarshal(data, &r)\<close>.\<close>

definition json_unmarshal :: "'r decoder \<Rightarrow> 'r \<Rightarrow> bytes \<Rightarrow> 'r result" where
  "json_unmarshal dec r data = (case json_parse data of None \<Rightarrow> Inl json_error | Some v \<Rightarrow> dec r data v)"

section \<open>Encoding\<close>

definition plain_char :: "char \<Rightarrow> bool" where
  "plain_char c \<longleftrightarrow> 32 \<le> ord_of c \<and> ord_of c < 128 \<and> c \<notin> set [dquote, bslash, CHR ''<'', CHR ''>'', CHR ''&'']"

definition u00 :: "char \<Rightarrow> string" where
  "u00 c = [bslash, CHR ''u'', CHR ''0'', CHR ''0''] @ hex_encode [c]"

definition escape_ascii :: "char \<Rightarrow> string" where
  "escape_ascii c =
     (if c = dquote \<or> c = bslash then [bslash, c]
      else if c = CHR 0x08 then [bslash, CHR ''b''] else if c = CHR 0x0C then [bslash, CHR ''f'']
      else if c = CHR 0x0A then [bslash, CHR ''n''] else if c = CHR 0x0D then [bslash, CHR ''r'']
      else if c = CHR 0x09 then [bslash, CHR ''t''] else u00 c)"

function escape_string :: "string \<Rightarrow> string" where
  "escape_string [] = []"
| "escape_string (c # s) =
     (if plain_char c then c # escape_string s
      else if ord_of c < 128 then escape_ascii c @ escape_string s
      else (let n = utf8_multi (c # s) in
        if n = 0 then [bslash] @ ''ufffd'' @ escape_string s
        else if take n (c # s) = [CHR 0xE2, CHR 0x80, CHR 0xA8]
             then [bslash] @ ''u2028'' @ escape_string (drop n (c # s))
        else if take n (c # s) = [CHR 0xE2, CHR 0x80, CHR 0xA9]
             then [bslash] @ ''u2029'' @ escape_string (drop n (c # s))
        else take n (c # s) @ escape_string (drop n (c # s))))"
  by pat_completeness auto
termination
  by (relation "measure length") auto

definition enc_string :: "string \<Rightarrow> string" where
  "enc_string s = [dquote] @ escape_string s @ [dquote]"

definition enc_bool :: "bool \<Rightarrow> string" where
  "enc_bool b = (if b then ''true'' else ''false'')"

definition enc_bytes :: "bytes \<Rightarrow> string" where
  "enc_bytes b = [dquote] @ b64_std_encode b @ [dquote]"

fun enc_commas :: "string list \<Rightarrow> string" where
  "enc_commas [] = []"
| "enc_commas [x] = x"
| "enc_commas (x # y # xs) = x @ '','' @ enc_commas (y # xs)"

definition enc_array :: "string list \<Rightarrow> string" where
  "enc_array xs = ''['' @ enc_commas xs @ '']''"

definition enc_object :: "(string \<times> string) list \<Rightarrow> string" where
  "enc_object ms = ''{'' @ enc_commas (map (\<lambda>(k, v). enc_string k @ '':'' @ v) ms) @ ''}''"

text \<open>
  \<open>json.Marshal\<close> of a \<open>RawMessage\<close>: invalid JSON is an error, white space outside strings goes
  away, and \<open><\<close>, \<open>>\<close>, \<open>&\<close>, U+2028 and U+2029 are escaped.
\<close>

fun compact :: "bool \<Rightarrow> bool \<Rightarrow> string \<Rightarrow> string" where
  "compact in_str esc [] = []"
| "compact in_str esc (c # s) =
     (if c = CHR ''<'' \<or> c = CHR ''>'' \<or> c = CHR ''&'' then u00 c @ compact in_str False s
      else (case s of
        CHR 0x80 # d # t \<Rightarrow>
          (if c = CHR 0xE2 \<and> (d = CHR 0xA8 \<or> d = CHR 0xA9)
           then [bslash] @ ''u202'' @ [hex_char (ord_of d mod 16)] @ compact in_str False t
           else if in_str then c # compact (esc \<or> c \<noteq> dquote) (\<not> esc \<and> c = bslash) s
           else if is_ws c then compact False False s
           else c # compact (c = dquote) False s)
      | _ \<Rightarrow>
          (if in_str then c # compact (esc \<or> c \<noteq> dquote) (\<not> esc \<and> c = bslash) s
           else if is_ws c then compact False False s
           else c # compact (c = dquote) False s)))"

definition json_compact :: "bytes \<Rightarrow> bytes result" where
  "json_compact s = (if json_valid s then Inr (compact False False s) else Inl json_error)"

end
