(* ===== verification/JsonRoundtrip.thy ===== *)
theory JsonRoundtrip
  imports JsonCodec
begin

text \<open>
  Encoding followed by parsing: a string literal (any valid UTF-8), a number, a literal, an array
  and an object, in any context. \<open>parses_to k tx v\<close> says that the text parses to the value
  wherever a value can stand, when \<open>k\<close> levels of nesting are left.
\<close>

section \<open>Strings\<close>

lemma utf8_high:
  "utf8_2 a b \<Longrightarrow> 128 \<le> ord_of a \<and> 128 \<le> ord_of b"
  "utf8_3 a b c \<Longrightarrow> 128 \<le> ord_of a \<and> 128 \<le> ord_of b \<and> 128 \<le> ord_of c"
  "utf8_4 a b c d \<Longrightarrow> 128 \<le> ord_of a \<and> 128 \<le> ord_of b \<and> 128 \<le> ord_of c \<and> 128 \<le> ord_of d"
  by (auto simp: utf8_2_def utf8_3_def utf8_4_def in_range_def)

lemma utf8_multi_2 [simp]: "utf8_2 a b \<Longrightarrow> utf8_multi (a # b # s) = 2"
  by (cases "a # b # s" rule: utf8_multi.cases) auto

lemma utf8_multi_3 [simp]: "\<not> utf8_2 a b \<Longrightarrow> utf8_3 a b c \<Longrightarrow> utf8_multi (a # b # c # s) = 3"
  by (cases "a # b # c # s" rule: utf8_multi.cases) auto

lemma utf8_multi_prefix:
  assumes "utf8_multi s = n" "n \<noteq> 0"
  shows "n \<le> length s \<and> list_all (\<lambda>c. 128 \<le> ord_of c) (take n s) \<and> utf8_multi (take n s @ t) = n"
  using assms
  by (cases s rule: utf8_multi.cases)
     (auto simp: utf8_high numeral_eq_Suc split: if_splits dest: utf8_high)

function utf8_valid :: "string \<Rightarrow> bool" where
  "utf8_valid [] = True"
| "utf8_valid (c # s) =
     (if ord_of c < 128 then utf8_valid s
      else if utf8_multi (c # s) = 0 then False
      else utf8_valid (drop (utf8_multi (c # s)) (c # s)))"
  by pat_completeness auto
termination
  by (relation "measure length") auto

declare utf8_valid.simps(2) [simp del] escape_string.simps(2) [simp del] unquote.simps(2) [simp del]

lemma plain_charD:
  "plain_char c \<Longrightarrow> 32 \<le> ord_of c \<and> ord_of c < 128 \<and> c \<noteq> dquote \<and> c \<noteq> bslash"
  by (simp add: plain_char_def)

lemma escape_plain: "list_all plain_char s \<Longrightarrow> escape_string s = s"
  by (induction s) (simp_all add: escape_string.simps(2))

lemma utf8_valid_plain: "list_all plain_char s \<Longrightarrow> utf8_valid s"
  by (induction s) (simp_all add: utf8_valid.simps(2) plain_char_def)

lemma scan_high:
  "list_all (\<lambda>c. 128 \<le> ord_of c) xs \<Longrightarrow>
   scan_string (xs @ s) = map_option (\<lambda>(r, u). (xs @ r, u)) (scan_string s)"
proof (induction xs)
  case (Cons c xs)
  then have "c \<noteq> dquote" "c \<noteq> bslash" "\<not> ord_of c < 32" by auto
  with Cons show ?case by (cases "scan_string s") auto
qed (cases "scan_string s"; auto)

lemma hex_char_is_hex [simp]: "n < 16 \<Longrightarrow> is_hex (hex_char n)"
  by (simp add: is_hex_def)

lemma is_hex_literals [simp]:
  "is_hex CHR ''0''" "is_hex CHR ''2''" "is_hex CHR ''8''" "is_hex CHR ''9''" "is_hex CHR ''f''" "is_hex CHR ''d''"
  by (simp_all add: is_hex_def hex_val_def)

lemma scan_escape_ascii:
  "scan_string (escape_ascii c @ s) = map_option (\<lambda>(r, u). (escape_ascii c @ r, u)) (scan_string s)"
proof -
  have "ord_of c div 16 < 16" by (simp add: less_mult_imp_div_less)
  then show ?thesis by (auto simp: escape_ascii_def u00_def)
qed

lemma escape_string_cases:
  fixes c :: char and s :: string
  defines "n \<equiv> utf8_multi (c # s)"
  obtains
    (plain) "plain_char c" "escape_string (c # s) = c # escape_string s"
  | (ascii) "ord_of c < 128" "escape_string (c # s) = escape_ascii c @ escape_string s"
  | (invalid) "128 \<le> ord_of c" "n = 0" "escape_string (c # s) = [bslash] @ ''ufffd'' @ escape_string s"
  | (u2028) "128 \<le> ord_of c" "n \<noteq> 0" "take n (c # s) = [CHR 0xE2, CHR 0x80, CHR 0xA8]"
      "escape_string (c # s) = [bslash] @ ''u2028'' @ escape_string (drop n (c # s))"
  | (u2029) "128 \<le> ord_of c" "n \<noteq> 0" "take n (c # s) = [CHR 0xE2, CHR 0x80, CHR 0xA9]"
      "escape_string (c # s) = [bslash] @ ''u2029'' @ escape_string (drop n (c # s))"
  | (copy) "128 \<le> ord_of c" "n \<noteq> 0"
      "escape_string (c # s) = take n (c # s) @ escape_string (drop n (c # s))"
  unfolding n_def
  by (cases "plain_char c"; cases "ord_of c < 128"; cases "utf8_multi (c # s) = 0";
      cases "take (utf8_multi (c # s)) (c # s) = [CHR 0xE2, CHR 0x80, CHR 0xA8]";
      cases "take (utf8_multi (c # s)) (c # s) = [CHR 0xE2, CHR 0x80, CHR 0xA9]")
     (auto simp: escape_string.simps(2) [of c s] Let_def simp del: take_Cons' drop_Cons' split: if_splits)

lemma scan_escape:
  "scan_string (escape_string s @ dquote # t) = Some (escape_string s, t)"
proof (induction s rule: measure_induct_rule [where f = length])
  case (less s)
  show ?case
  proof (cases s)
    case (Cons c s')
    let ?n = "utf8_multi s" and ?rest = "drop (utf8_multi s) s"
    have sh: "?n \<noteq> 0 \<Longrightarrow> length ?rest < length s" using Cons by simp
    have IH: "scan_string (escape_string s' @ dquote # t) = Some (escape_string s', t)"
      using less Cons by simp
    have IHn: "?n \<noteq> 0 \<Longrightarrow> scan_string (escape_string ?rest @ dquote # t) = Some (escape_string ?rest, t)"
      using less sh by blast
    from escape_string_cases [of c s'] show ?thesis
    proof cases
      case plain
      with IH Cons plain_charD [OF plain(1)] show ?thesis by simp
    next
      case ascii
      with IH Cons show ?thesis by (simp add: scan_escape_ascii)
    next
      case invalid
      with IH Cons show ?thesis by simp
    next
      case u2028
      with IHn Cons show ?thesis by simp
    next
      case u2029
      with IHn Cons show ?thesis by simp
    next
      case copy
      then have "list_all (\<lambda>c. 128 \<le> ord_of c) (take ?n s)"
        using utf8_multi_prefix [of s ?n] Cons by simp
      with copy IHn Cons show ?thesis by (simp add: scan_high del: take_Cons' drop_Cons')
    qed
  qed simp
qed

lemma unquote_plain_step: "ord_of c < 128 \<Longrightarrow> c \<noteq> bslash \<Longrightarrow> unquote (c # s) = c # unquote s"
  by (simp add: unquote.simps(2))

lemma hex4_u00: "hex4 CHR ''0'' CHR ''0'' (hex_char (ord_of c div 16)) (hex_char (ord_of c mod 16)) = ord_of c"
proof -
  have "ord_of c div 16 < 16" by (simp add: less_mult_imp_div_less)
  moreover have "hex_val CHR ''0'' = Some 0" by (simp add: hex_val_def)
  ultimately show ?thesis by (simp add: hex4_def)
qed

lemma utf8_encode_ascii: "ord_of c < 128 \<Longrightarrow> utf8_encode (ord_of c) = [c]"
  by (simp add: utf8_encode_def)

lemma unquote_escape_ascii:
  "ord_of c < 128 \<Longrightarrow> unquote (escape_ascii c @ s) = c # unquote s"
  by (auto simp: escape_ascii_def u00_def unquote.simps(2) unescape_char_def hex4_u00 utf8_encode_ascii Let_def)

lemma unquote_copy:
  assumes "utf8_multi s = n" "n \<noteq> 0"
  shows "unquote (take n s @ t) = take n s @ unquote t"
proof -
  obtain c s' where cs: "take n s = c # s'"
    using assms utf8_multi_prefix [OF assms] by (cases "take n s") auto
  have "length (take n s) = n" using utf8_multi_prefix [OF assms] by simp
  with cs have n: "length (c # s') = n" "128 \<le> ord_of c" "utf8_multi (c # s' @ t) = n"
    using utf8_multi_prefix [OF assms, of t] by simp_all
  from n(2) have "c \<noteq> bslash" by auto
  moreover have "take n (c # s' @ t) = c # s'" "drop n (c # s' @ t) = t"
    using n(1) by (simp_all flip: n(1))
  ultimately show ?thesis
    using n assms(2) unfolding cs by (simp add: unquote.simps(2) [of c] Let_def del: take_Cons' drop_Cons')
qed

lemma hex4_line_separators:
  "hex4 CHR ''2'' CHR ''0'' CHR ''2'' CHR ''8'' = 0x2028"
  "hex4 CHR ''2'' CHR ''0'' CHR ''2'' CHR ''9'' = 0x2029"
  by (simp_all add: hex4_def hex_val_def)

lemma utf8_encode_line_separators:
  "utf8_encode 0x2028 = [CHR 0xE2, CHR 0x80, CHR 0xA8]"
  "utf8_encode 0x2029 = [CHR 0xE2, CHR 0x80, CHR 0xA9]"
  by (simp_all add: utf8_encode_def char_of_eq_iff)

lemma unquote_u202:
  "unquote (bslash # CHR ''u'' # CHR ''2'' # CHR ''0'' # CHR ''2'' # CHR ''8'' # t)
     = [CHR 0xE2, CHR 0x80, CHR 0xA8] @ unquote t"
  "unquote (bslash # CHR ''u'' # CHR ''2'' # CHR ''0'' # CHR ''2'' # CHR ''9'' # t)
     = [CHR 0xE2, CHR 0x80, CHR 0xA9] @ unquote t"
  by (simp_all add: unquote.simps(2) [of bslash] hex4_line_separators utf8_encode_line_separators Let_def)

lemma unquote_escape: "utf8_valid s \<Longrightarrow> unquote (escape_string s) = s"
proof (induction s rule: measure_induct_rule [where f = length])
  case (less s)
  show ?case
  proof (cases s)
    case (Cons c s')
    let ?n = "utf8_multi s" and ?rest = "drop (utf8_multi s) s"
    have low: "ord_of c < 128 \<Longrightarrow> unquote (escape_string s') = s'"
      using less Cons by (simp add: utf8_valid.simps(2))
    have high: "128 \<le> ord_of c \<Longrightarrow> ?n \<noteq> 0 \<and> unquote (escape_string ?rest) = ?rest"
      using less(1) [of ?rest] less(2) Cons by (auto simp: utf8_valid.simps(2) [of c s'] split: if_splits)
    have split: "take ?n s @ ?rest = s" by simp
    from escape_string_cases [of c s'] show ?thesis
    proof cases
      case plain
      with low Cons plain_charD [OF plain(1)] show ?thesis by (simp add: unquote_plain_step)
    next
      case ascii
      with low Cons show ?thesis by (simp add: unquote_escape_ascii)
    next
      case invalid
      with high Cons show ?thesis by simp
    next
      case u2028
      with high Cons split show ?thesis by (simp add: unquote_u202 del: take_Cons' drop_Cons')
    next
      case u2029
      with high Cons split show ?thesis by (simp add: unquote_u202 del: take_Cons' drop_Cons')
    next
      case copy
      with high Cons show ?thesis
        using unquote_copy [of s ?n "escape_string ?rest"] split by simp
    qed
  qed simp
qed

section \<open>Values\<close>

definition delim :: "string \<Rightarrow> bool" where
  "delim t \<longleftrightarrow> t = [] \<or> hd t \<in> set [CHR '','', CHR '']'', CHR ''}'']"

definition parses_to :: "nat \<Rightarrow> string \<Rightarrow> json \<Rightarrow> bool" where
  "parses_to k tx v \<longleftrightarrow>
     tx \<noteq> [] \<and> \<not> is_ws (hd tx) \<and> hd tx \<notin> set [CHR '']'', CHR ''}''] \<and>
     (\<forall>f d t. 2 * length tx < f \<and> k \<le> d \<and> delim t \<longrightarrow> parse_value f d (tx @ t) = Some (v, t))"

lemma parses_toD:
  "parses_to k tx v \<Longrightarrow> 2 * length tx < f \<Longrightarrow> k \<le> d \<Longrightarrow> delim t \<Longrightarrow> parse_value f d (tx @ t) = Some (v, t)"
  by (simp add: parses_to_def)

lemma parses_to_mono: "parses_to k tx v \<Longrightarrow> k \<le> l \<Longrightarrow> parses_to l tx v"
  by (auto simp: parses_to_def)

lemma delim_simps [simp]: "delim []" "delim (CHR '','' # t)" "delim (CHR '']'' # t)" "delim (CHR ''}'' # t)"
  by (simp_all add: delim_def)

lemma skip_ws_append: "tx \<noteq> [] \<Longrightarrow> \<not> is_ws (hd tx) \<Longrightarrow> skip_ws (tx @ t) = tx @ t"
  by (cases tx) auto

lemma parses_to_skip: "parses_to k tx v \<Longrightarrow> skip_ws (tx @ t) = tx @ t"
  by (simp add: parses_to_def skip_ws_append)

lemma parses_to_consumed: "parses_to k tx v \<Longrightarrow> consumed (tx @ t) t = tx"
  by (simp add: consumed_def parses_to_skip)

lemma not_ws_literals [simp]:
  "\<not> is_ws dquote" "\<not> is_ws CHR ''{''" "\<not> is_ws CHR ''}''" "\<not> is_ws CHR ''[''" "\<not> is_ws CHR '']''"
  "\<not> is_ws CHR '':''" "\<not> is_ws CHR '',''" "\<not> is_ws CHR ''t''" "\<not> is_ws CHR ''f''" "\<not> is_ws CHR ''n''"
  by (simp_all add: is_ws_def)

lemma parse_value_Suc: "2 * n < f \<Longrightarrow> \<exists>g. f = Suc g \<and> 2 * n \<le> g"
  by (cases f) auto

lemma parses_to_string: "utf8_valid s \<Longrightarrow> parses_to k (enc_string s) (JStr s)"
  unfolding parses_to_def
proof (intro conjI allI impI)
  fix f d :: nat and t
  assume s: "utf8_valid s" and "2 * length (enc_string s) < f \<and> k \<le> d \<and> delim t"
  then obtain g where "f = Suc g" by (cases f) auto
  with s show "parse_value f d (enc_string s @ t) = Some (JStr s, t)"
    by (simp add: enc_string_def scan_escape unquote_escape)
qed (simp_all add: enc_string_def)

lemma parses_to_bool: "parses_to k (enc_bool b) (JBool b)"
  unfolding parses_to_def
proof (intro conjI allI impI)
  fix f d :: nat and t
  assume "2 * length (enc_bool b) < f \<and> k \<le> d \<and> delim t"
  then obtain g where "f = Suc g" by (cases f) auto
  then show "parse_value f d (enc_bool b @ t) = Some (JBool b, t)"
    by (simp add: enc_bool_def)
qed (simp_all add: enc_bool_def)

subsection \<open>Numbers\<close>

lemma is_digit_char [simp]: "(n::nat) < 10 \<Longrightarrow> is_digit (char_of (48 + n))"
  by (simp add: is_digit_def in_range_def)

lemma dec_nat_digits: "list_all is_digit (dec_nat n)"
proof (induction n rule: dec_nat.induct)
  case (1 n)
  then show ?case by (cases "n < 10") (simp_all add: dec_nat.simps [of n])
qed

lemma dec_nat_nonempty [simp]: "dec_nat n \<noteq> []"
  by (simp add: dec_nat.simps [of n])

lemma digits_val_snoc: "digits_val (s @ [c]) = 10 * digits_val s + (int (ord_of c) - 48)"
  by (simp add: digits_val_def)

lemma digits_val_dec_nat: "digits_val (dec_nat n) = int n"
proof (induction n rule: dec_nat.induct)
  case (1 n)
  show ?case
  proof (cases "n < 10")
    case True
    then show ?thesis by (simp add: dec_nat.simps [of n] digits_val_def)
  next
    case False
    have "int n = 10 * int (n div 10) + int (n mod 10)" by presburger
    with 1 False show ?thesis by (simp add: dec_nat.simps [of n] digits_val_snoc)
  qed
qed

lemma dec_nat_hd_zero: "hd (dec_nat n) = CHR ''0'' \<Longrightarrow> n = 0"
proof (induction n rule: dec_nat.induct)
  case (1 n)
  show ?case
  proof (cases "n < 10")
    case True
    with 1(2) have "char_of (48 + n) = CHR ''0''" by (simp add: dec_nat.simps [of n])
    then have "ord_of (char_of (48 + n)) = ord_of CHR ''0''" by (simp only:)
    with True show ?thesis by simp
  next
    case False
    with 1 have "n div 10 = 0" by (simp add: dec_nat.simps [of n])
    with False show ?thesis by simp
  qed
qed

lemma not_digit_delim: "delim t \<Longrightarrow> t = [] \<or> (\<not> is_digit (hd t) \<and> hd t \<noteq> CHR ''.'' \<and> hd t \<noteq> CHR ''e'' \<and> hd t \<noteq> CHR ''E'')"
  by (auto simp: delim_def is_digit_def in_range_def)

lemma span_digits_append: "list_all is_digit ds \<Longrightarrow> t = [] \<or> \<not> is_digit (hd t) \<Longrightarrow> span_digits (ds @ t) = (ds, t)"
proof (induction ds)
  case Nil
  then show ?case by (cases t) auto
qed simp

lemma scan_int_dec_nat:
  assumes "delim t"
  shows "scan_int (dec_nat n @ t) = Some (dec_nat n, t)"
proof (cases "hd (dec_nat n) = CHR ''0''")
  case True
  then have "n = 0" by (rule dec_nat_hd_zero)
  then show ?thesis by (simp add: dec_nat.simps scan_int_def char_of_eq_iff)
next
  case False
  obtain c ds where cd: "dec_nat n = c # ds" by (cases "dec_nat n") auto
  with dec_nat_digits [of n] have "is_digit c" by simp
  moreover have "span_digits (dec_nat n @ t) = (dec_nat n, t)"
    using dec_nat_digits not_digit_delim [OF assms] by (intro span_digits_append) auto
  ultimately show ?thesis using False cd by (simp add: scan_int_def)
qed

lemma scan_number_dec_int:
  assumes "delim t"
  shows "scan_number (dec_int i @ t) = Some (dec_int i, t)"
proof -
  have fr: "scan_frac t = Some ([], t)" "scan_exp t = Some ([], t)"
    using not_digit_delim [OF assms] by (auto simp: scan_frac_def scan_exp_def split: list.splits)
  have "(case dec_nat n @ t of c # u \<Rightarrow> (if c = CHR ''-'' then ([c], u) else ([], dec_nat n @ t))
          | [] \<Rightarrow> ([], dec_nat n @ t)) = ([], dec_nat n @ t)" for n
  proof (cases "dec_nat n")
    case (Cons c s)
    then have "is_digit c" using dec_nat_digits [of n] by simp
    then have "c \<noteq> CHR ''-''" by (auto simp: is_digit_def in_range_def)
    with Cons show ?thesis by simp
  qed simp
  then show ?thesis
    by (simp add: scan_number_def dec_int_def scan_int_dec_nat [OF assms] fr)
qed

lemma dec_int_hd: "is_digit (hd (dec_int i)) \<or> hd (dec_int i) = CHR ''-''"
proof -
  have "is_digit (hd (dec_nat n))" for n using dec_nat_digits [of n] by (cases "dec_nat n") auto
  then show ?thesis by (simp add: dec_int_def)
qed

lemma parses_to_int: "parses_to k (dec_int i) (JNum (dec_int i))"
proof -
  obtain c s where cs: "dec_int i = c # s" by (cases "dec_int i") (auto simp: dec_int_def split: if_splits)
  have c: "\<not> is_ws c" "c \<notin> set [CHR ''{'', CHR ''['', CHR '']'', CHR ''}'', dquote, CHR ''t'', CHR ''f'', CHR ''n'']"
    using dec_int_hd [of i] cs by (auto simp: is_digit_def in_range_def is_ws_def)
  show ?thesis
    unfolding parses_to_def
  proof (intro conjI allI impI)
    fix f d :: nat and t
    assume a: "2 * length (dec_int i) < f \<and> k \<le> d \<and> delim t"
    then obtain g where "f = Suc g" by (cases f) auto
    with a c scan_number_dec_int [of t i] show "parse_value f d (dec_int i @ t) = Some (JNum (dec_int i), t)"
      by (simp add: cs)
  qed (use cs c in auto)
qed

lemma parse_int64_dec_int:
  assumes "in_int64 i"
  shows "parse_int64 (dec_int i) = Inr i"
proof -
  have d: "is_digit (hd (dec_nat n))" for n using dec_nat_digits [of n] by (cases "dec_nat n") auto
  have "(case dec_nat n of c # u \<Rightarrow> (if c = CHR ''-'' then (True, u) else (False, dec_nat n)) | [] \<Rightarrow> (False, [])) = (False, dec_nat n)" for n
    using d [of n] by (cases "dec_nat n") (auto simp: is_digit_def in_range_def)
  then show ?thesis
    using assms by (simp add: parse_int64_def dec_int_def dec_nat_digits digits_val_dec_nat)
qed

subsection \<open>Arrays and objects\<close>

lemma parse_elems_enc:
  assumes "list_all2 (parses_to k) ts vs" "ts \<noteq> []" "2 * length (enc_commas ts) + 1 < f" "k \<le> d"
  shows "parse_elems f d (enc_commas ts @ CHR '']'' # t) = Some (zip ts vs, t)"
  using assms
proof (induction ts vs arbitrary: f rule: list_all2_induct)
  case (Cons x ts v vs)
  then obtain g where f: "f = Suc g" by (cases f) auto
  note x = parses_toD [OF Cons(1) _ Cons.prems(3)] parses_to_consumed [OF Cons(1)]
  show ?case
  proof (cases ts)
    case Nil
    with Cons.hyps have "vs = []" by simp
    with Nil Cons.prems f show ?thesis by (simp add: x)
  next
    case (Cons y ys)
    have len: "2 * length x < g" "2 * length (enc_commas ts) + 1 < g"
      using Cons.prems(2) f Cons by auto
    have "parse_elems g d (enc_commas ts @ CHR '']'' # t) = Some (zip ts vs, t)"
      using Cons.IH Cons len Cons.prems(3) by simp
    with len f Cons show ?thesis by (simp add: x)
  qed
qed simp

lemma parses_to_array:
  assumes "list_all2 (parses_to k) ts vs"
  shows "parses_to (Suc k) (enc_array ts) (JArr (zip ts vs))"
  unfolding parses_to_def
proof (intro conjI allI impI)
  fix f d t
  assume a: "2 * length (enc_array ts) < f \<and> Suc k \<le> d \<and> delim t"
  then obtain g e where fd: "f = Suc g" "d = Suc e" by (cases f; cases d) auto
  show "parse_value f d (enc_array ts @ t) = Some (JArr (zip ts vs), t)"
  proof (cases ts)
    case Nil
    then show ?thesis using fd assms by (simp add: enc_array_def)
  next
    case (Cons x xs)
    then obtain v where "parses_to k x v" using assms by (auto simp: list_all2_Cons1)
    then have hd: "x \<noteq> []" "\<not> is_ws (hd x)" "hd x \<noteq> CHR '']''" by (simp_all add: parses_to_def)
    have "enc_commas ts \<noteq> []" "hd (enc_commas ts) = hd x" using Cons hd by (cases xs; simp)+
    then obtain c s where cs: "enc_commas ts = c # s" "c = hd x" by (cases "enc_commas ts") auto
    have "parse_elems g e (enc_commas ts @ CHR '']'' # t) = Some (zip ts vs, t)"
      using assms Cons a fd by (intro parse_elems_enc) (auto simp: enc_array_def)
    with cs hd fd show ?thesis by (simp add: enc_array_def)
  qed
qed (simp_all add: enc_array_def)

type_synonym member_text = "string \<times> string"

abbreviation member_string :: "string \<times> string \<Rightarrow> string" where
  "member_string \<equiv> \<lambda>(k, v). enc_string k @ '':'' @ v"

definition member_parses :: "nat \<Rightarrow> string \<times> string \<Rightarrow> string \<times> string \<times> json \<Rightarrow> bool" where
  "member_parses k m j = (case (m, j) of ((n, tx), (n', tx', v)) \<Rightarrow>
     n' = n \<and> tx' = tx \<and> utf8_valid n \<and> parses_to k tx v)"

lemma parse_members_enc:
  assumes "list_all2 (member_parses k) ms js" "ms \<noteq> []"
    "2 * length (enc_commas (map member_string ms)) + 1 < f" "k \<le> d"
  shows "parse_members f d (enc_commas (map member_string ms) @ CHR ''}'' # t) = Some (js, t)"
  using assms
proof (induction ms js arbitrary: f rule: list_all2_induct)
  case (Cons m ms j js)
  then obtain g where f: "f = Suc g" by (cases f) auto
  obtain n tx v where mj: "m = (n, tx)" "j = (n, tx, v)" "utf8_valid n" and p: "parses_to k tx v"
    using Cons(1) by (auto simp: member_parses_def split: prod.splits)
  note x = parses_toD [OF p _ Cons.prems(3)] parses_to_consumed [OF p] scan_escape
  show ?case
  proof (cases ms)
    case Nil
    with Cons.hyps have "js = []" by simp
    with Nil Cons.prems f mj show ?thesis by (simp add: x enc_string_def unquote_escape)
  next
    case (Cons y ys)
    have len: "2 * length tx < g" "2 * length (enc_commas (map member_string ms)) + 1 < g"
      using Cons.prems(2) f Cons mj by (auto simp: enc_string_def)
    have "parse_members g d (enc_commas (map member_string ms) @ CHR ''}'' # t) = Some (js, t)"
      using Cons.IH Cons len Cons.prems(3) by simp
    with len f Cons mj show ?thesis by (simp add: x enc_string_def unquote_escape)
  qed
qed simp

lemma parses_to_object:
  assumes "list_all2 (member_parses k) ms js"
  shows "parses_to (Suc k) (enc_object ms) (JObj js)"
  unfolding parses_to_def
proof (intro conjI allI impI)
  fix f d t
  assume a: "2 * length (enc_object ms) < f \<and> Suc k \<le> d \<and> delim t"
  then obtain g e where fd: "f = Suc g" "d = Suc e" by (cases f; cases d) auto
  show "parse_value f d (enc_object ms @ t) = Some (JObj js, t)"
  proof (cases ms)
    case Nil
    then show ?thesis using fd assms by (simp add: enc_object_def)
  next
    case (Cons x xs)
    let ?e = "enc_commas (map member_string ms)"
    have "?e \<noteq> [] \<and> hd ?e = dquote"
      using Cons by (cases xs; cases x) (auto simp: enc_string_def)
    then obtain s where cs: "?e = dquote # s" by (cases ?e) auto
    have "parse_members g e (?e @ CHR ''}'' # t) = Some (js, t)"
      using assms Cons a fd by (intro parse_members_enc) (auto simp: enc_object_def)
    with cs fd show ?thesis by (simp add: enc_object_def)
  qed
qed (simp_all add: enc_object_def)

lemma json_parse_enc:
  assumes "parses_to k tx v" "k \<le> max_nesting"
  shows "json_parse tx = Some v"
  using parses_toD [OF assms(1) _ assms(2), of "2 * length tx + 1" "[]"] by (simp add: json_parse_def)

declare parse_value.simps [simp del] parse_elems.simps [simp del] parse_members.simps [simp del]

end
