(* ===== verification/JsonUtil.thy ===== *)
theory JsonUtil
  imports GoIO GoText JsonRoundtrip
begin

text \<open>Package \<open>jsonutil\<close> (internal/jsonutil/json.go).\<close>

text \<open>
  One \<open>Decode\<close> of a \<open>json.Decoder\<close>: \<open>EOF\<close> when only white space is left, else the next
  value and what follows it.
\<close>

definition decoder_next :: "bytes \<Rightarrow> (bytes \<times> json \<times> bytes) result" where
  "decoder_next s =
     (if skip_ws s = [] then Inl (Sent EOF)
      else (case parse_value (2 * length s + 1) max_nesting s of
        None \<Rightarrow> Inl json_error
      | Some (v, rest) \<Rightarrow> Inr (consumed s rest, v, rest)))"

definition DecodeStrict :: "'r decoder \<Rightarrow> 'r \<Rightarrow> bytes \<Rightarrow> 'r result" where
  "DecodeStrict dec r data = (case decoder_next data of
     Inl e \<Rightarrow> Inl e
   | Inr (raw, v, rest) \<Rightarrow> (case dec r raw v of
       Inl e \<Rightarrow> Inl e
     | Inr r' \<Rightarrow> (case decoder_next rest of
         Inl e \<Rightarrow> (if error_is e EOF then Inr r' else Inl e)
       | Inr _ \<Rightarrow> Inl (Msg ''multiple JSON values''))))"

definition ReadAllLimited :: "reader \<Rightarrow> int \<Rightarrow> bytes result" where
  "ReadAllLimited rd limit =
     (if limit < 0 then Inl (Msg ''negative read limit'')
      else (case read_all (nat (int64 (limit + 1))) rd of (data, err) \<Rightarrow>
        (case err of
           Some e \<Rightarrow> Inl e
         | None \<Rightarrow>
             (if int (length data) > limit
              then Inl (Msg (''input exceeds '' @ dec_int limit @ '' bytes''))
              else Inr data))))"

definition IsJSONObject :: "bytes \<Rightarrow> bool" where
  "IsJSONObject data \<longleftrightarrow>
     2 \<le> length data \<and> hd data = CHR ''{'' \<and> last data = CHR ''}'' \<and> json_valid data"

lemma decoder_next_end: "skip_ws s = [] \<Longrightarrow> decoder_next s = Inl (Sent EOF)"
  by (simp add: decoder_next_def)

lemma json_error_not_EOF [simp]: "\<not> error_is json_error s"
  by (simp add: json_error_def)

lemma ReadAllLimited_iff:
  assumes "0 \<le> limit" "limit < 2 ^ 63 - 1"
  shows "ReadAllLimited rd limit = Inr d \<longleftrightarrow> drain rd = (d, None) \<and> int (length d) \<le> limit"
proof -
  have i: "int64 (limit + 1) = limit + 1" using assms by (intro int64_id) (simp add: in_int64_def)
  obtain b e where be: "drain rd = (b, e)" by force
  show ?thesis
  proof (cases "int (length b) \<le> limit")
    case True
    then have "read_all (nat (limit + 1)) rd = (b, e)" by (intro read_all_drain [OF be]) simp
    with True assms(1) be i show ?thesis
      by (auto simp: ReadAllLimited_def split: option.splits)
  next
    case False
    then have "int (length (fst (read_all (nat (limit + 1)) rd))) = limit + 1"
      using be assms(1) by (simp add: read_all_prefix)
    with False assms(1) be i show ?thesis
      by (auto simp: ReadAllLimited_def split: option.splits prod.splits)
  qed
qed

lemma ReadAllLimited_length: "ReadAllLimited rd limit = Inr d \<Longrightarrow> int (length d) \<le> limit"
  by (auto simp: ReadAllLimited_def split: if_splits option.splits prod.splits)

lemma DecodeStrict_Inr:
  assumes "DecodeStrict dec r data = Inr r'"
  shows "\<exists>v raw. json_parse data = Some v \<and> dec r raw v = Inr r'"
proof -
  obtain raw v rest where n: "decoder_next data = Inr (raw, v, rest)" and d: "dec r raw v = Inr r'"
    and e: "\<exists>e. decoder_next rest = Inl e \<and> error_is e EOF"
    using assms by (auto simp: DecodeStrict_def split: sum.splits prod.splits if_splits)
  from e have "skip_ws rest = []"
    by (auto simp: decoder_next_def split: if_splits option.splits)
  moreover from n have "parse_value (2 * length data + 1) max_nesting data = Some (v, rest)"
    by (auto simp: decoder_next_def split: if_splits option.splits)
  ultimately show ?thesis using d by (auto simp: json_parse_def)
qed

lemma DecodeStrict_enc:
  assumes "parses_to k tx v" "k \<le> max_nesting"
  shows "DecodeStrict dec r tx = dec r tx v"
proof -
  have p: "parse_value (2 * length tx + 1) max_nesting tx = Some (v, [])"
    using parses_toD [OF assms(1) _ assms(2), of "2 * length tx + 1" "[]"] by simp
  have "skip_ws tx = tx" "tx \<noteq> []"
    using parses_to_skip [OF assms(1), of "[]"] assms(1) by (simp_all add: parses_to_def)
  moreover have "consumed tx [] = tx" using parses_to_consumed [OF assms(1), of "[]"] by simp
  ultimately have "decoder_next tx = Inr (tx, v, [])" using p by (simp add: decoder_next_def)
  then show ?thesis by (simp add: DecodeStrict_def decoder_next_end split: sum.splits)
qed

lemma IsJSONObject_parse:
  assumes "IsJSONObject d"
  shows "\<exists>ms. json_parse d = Some (JObj ms)"
proof -
  obtain v where v: "json_parse d = Some v" using assms by (auto simp: IsJSONObject_def json_valid_def)
  then obtain rest where p: "parse_value (Suc (2 * length d)) max_nesting d = Some (v, rest)"
    by (auto simp: json_parse_def split: option.splits prod.splits if_splits)
  obtain c s where "d = c # s" "c = CHR ''{''" using assms by (cases d) (auto simp: IsJSONObject_def)
  with p obtain ms where "v = JObj ms"
    by (auto simp: parse_value.simps(2) max_nesting_def split: nat.splits list.splits if_splits)
  with v show ?thesis by blast
qed

section \<open>Properties\<close>

text \<open>A bounded read succeeds exactly when the source ends cleanly within the limit, and gives all its bytes.\<close>

theorem read_limited_iff:
  assumes "0 \<le> limit" "limit < 2 ^ 63 - 1"
  shows "ReadAllLimited rd limit = Inr d \<longleftrightarrow> drain rd = (d, None) \<and> int (length d) \<le> limit"
  using assms by (rule ReadAllLimited_iff)

theorem read_limited_iff_witness:
  "ReadAllLimited [(''ab'', None), (''c'', None)] 3 = Inr ''abc'' \<and> ReadAllLimited [(''ab'', None), (''c'', None)] 2 \<noteq> Inr ''abc''"
  using read_limited_iff [of 3 "[(''ab'', None), (''c'', None)]" "''abc''"]
    read_limited_iff [of 2 "[(''ab'', None), (''c'', None)]" "''abc''"] by simp

end
