(* ===== verification/Policy.thy ===== *)
theory Policy
  imports JsonUtil
begin

unbundle bit_operations_syntax

text \<open>
  The trust policy of package \<open>attestation\<close> (internal/attestation/policy.go): its data, its strict
  decoding, its validation and the lookup of a pinned release.
  \<open>validate\<close> has a pointer receiver and fills in the decoded measurements of every release; here
  it returns the filled policy.
\<close>

section \<open>Constants and data\<close>

definition PolicySchemaVersion :: int where "PolicySchemaVersion = 2"
definition ManifestSchemaVersion :: int where "ManifestSchemaVersion = 4"
definition GatewayWorkload :: string where "GatewayWorkload = ''dappnode-nexus-gateway''"
definition GatewayProfile :: string where "GatewayProfile = ''nexus-gateway-v2''"
definition ConfidentialEndpoint :: string where "ConfidentialEndpoint = ''/v1/confidential/chat/completions''"
definition EHBPProtocol :: string where "EHBPProtocol = ''ehbp-v1''"
definition EHBPSuite :: string where "EHBPSuite = ''DHKEM-X25519-HKDF-SHA256/HKDF-SHA256/AES-256-GCM''"
definition maxPolicyBytes :: int where "maxPolicyBytes = 65536"
definition pcrBytes :: nat where "pcrBytes = 48"
definition MaxPolicyReleases :: nat where "MaxPolicyReleases = 4"

lemmas policy_consts = PolicySchemaVersion_def ManifestSchemaVersion_def GatewayWorkload_def
  GatewayProfile_def ConfidentialEndpoint_def EHBPProtocol_def EHBPSuite_def

record e2ee_policy =
  e2ee_protocol :: string
  e2ee_suite :: string
  e2ee_endpoint :: string
  e2ee_request_encrypted :: bool
  e2ee_response_encrypted :: bool

record release =
  rel_source_revision :: string
  rel_pcr0 :: string
  rel_pcr1 :: string
  rel_pcr2 :: string
  rel_pcrs :: "nat \<Rightarrow> bytes option"

record policy =
  pol_schema_version :: int
  pol_manifest_schema_version :: int
  pol_workload :: string
  pol_profile :: string
  pol_e2ee :: e2ee_policy
  pol_releases :: "release list"

definition zero_e2ee :: e2ee_policy where
  "zero_e2ee = \<lparr>e2ee_protocol = [], e2ee_suite = [], e2ee_endpoint = [],
     e2ee_request_encrypted = False, e2ee_response_encrypted = False\<rparr>"

definition zero_release :: release where
  "zero_release = \<lparr>rel_source_revision = [], rel_pcr0 = [], rel_pcr1 = [], rel_pcr2 = [], rel_pcrs = Map.empty\<rparr>"

definition zero_policy :: policy where
  "zero_policy = \<lparr>pol_schema_version = 0, pol_manifest_schema_version = 0, pol_workload = [],
     pol_profile = [], pol_e2ee = zero_e2ee, pol_releases = []\<rparr>"

text \<open>The body-encryption contract compiled into the client.\<close>

definition required_e2ee :: e2ee_policy where
  "required_e2ee = \<lparr>e2ee_protocol = EHBPProtocol, e2ee_suite = EHBPSuite,
     e2ee_endpoint = ConfidentialEndpoint, e2ee_request_encrypted = True, e2ee_response_encrypted = True\<rparr>"

section \<open>Field tables of the JSON decoder\<close>

definition e2ee_fields :: "e2ee_policy fields" where
  "e2ee_fields =
    [(''protocol'', field e2ee_protocol (\<lambda>x. e2ee_protocol_update (\<lambda>_. x)) decode_string),
     (''suite'', field e2ee_suite (\<lambda>x. e2ee_suite_update (\<lambda>_. x)) decode_string),
     (''endpoint'', field e2ee_endpoint (\<lambda>x. e2ee_endpoint_update (\<lambda>_. x)) decode_string),
     (''request_encrypted'', field e2ee_request_encrypted (\<lambda>x. e2ee_request_encrypted_update (\<lambda>_. x)) decode_bool),
     (''response_encrypted'', field e2ee_response_encrypted (\<lambda>x. e2ee_response_encrypted_update (\<lambda>_. x)) decode_bool)]"

definition release_fields :: "release fields" where
  "release_fields =
    [(''source_revision'', field rel_source_revision (\<lambda>x. rel_source_revision_update (\<lambda>_. x)) decode_string),
     (''pcr0'', field rel_pcr0 (\<lambda>x. rel_pcr0_update (\<lambda>_. x)) decode_string),
     (''pcr1'', field rel_pcr1 (\<lambda>x. rel_pcr1_update (\<lambda>_. x)) decode_string),
     (''pcr2'', field rel_pcr2 (\<lambda>x. rel_pcr2_update (\<lambda>_. x)) decode_string)]"

definition policy_fields :: "policy fields" where
  "policy_fields =
    [(''schema_version'', field pol_schema_version (\<lambda>x. pol_schema_version_update (\<lambda>_. x)) decode_int),
     (''manifest_schema_version'',
        field pol_manifest_schema_version (\<lambda>x. pol_manifest_schema_version_update (\<lambda>_. x)) decode_int),
     (''workload'', field pol_workload (\<lambda>x. pol_workload_update (\<lambda>_. x)) decode_string),
     (''profile'', field pol_profile (\<lambda>x. pol_profile_update (\<lambda>_. x)) decode_string),
     (''e2ee'', field pol_e2ee (\<lambda>x. pol_e2ee_update (\<lambda>_. x)) (decode_struct True e2ee_fields)),
     (''releases'', field pol_releases (\<lambda>x. pol_releases_update (\<lambda>_. x))
        (decode_slice (decode_struct True release_fields) zero_release))]"

section \<open>Validation\<close>

definition quoted :: "string \<Rightarrow> string" where
  "quoted s = [CHR 0x22] @ s @ [CHR 0x22]"

text \<open>\<open>regexp.MustCompile("^[0-9a-f]\{40\}$")\<close>; \<open>$\<close> is the end of the text.\<close>

definition sourceRevisionPattern :: "string \<Rightarrow> bool" where
  "sourceRevisionPattern s \<longleftrightarrow> length s = 40 \<and> list_all is_lower_hex s"

fun or_bytes :: "8 word \<Rightarrow> bytes \<Rightarrow> 8 word" where
  "or_bytes combined [] = combined"
| "or_bytes combined (item # value) = or_bytes (combined OR of_char item) value"

definition allZero :: "bytes \<Rightarrow> bool" where
  "allZero value \<longleftrightarrow> or_bytes 0 value = 0"

definition decodePCR :: "nat \<Rightarrow> string \<Rightarrow> bytes result" where
  "decodePCR index encoded =
     (if length encoded \<noteq> pcrBytes * 2
      then Inl (Msg (''pcr'' @ dec_nat index @ '' must contain exactly '' @ dec_nat (pcrBytes * 2) @ '' hexadecimal characters''))
      else (case hex_decode encoded of
        Inl _ \<Rightarrow> Inl (Msg (''pcr'' @ dec_nat index @ '' must be canonical lowercase hexadecimal''))
      | Inr decoded \<Rightarrow>
          (if hex_encode decoded \<noteq> encoded
           then Inl (Msg (''pcr'' @ dec_nat index @ '' must be canonical lowercase hexadecimal''))
           else if allZero decoded
           then Inl (Msg (''pcr'' @ dec_nat index @ '' is all zero (unsafe debug measurement)''))
           else Inr decoded)))"

fun decode_pcr_items :: "(nat \<times> string) list \<Rightarrow> (nat \<Rightarrow> bytes option) \<Rightarrow> (nat \<Rightarrow> bytes option) result" where
  "decode_pcr_items [] m = Inr m"
| "decode_pcr_items ((index, value) # items) m = (case decodePCR index value of
     Inl e \<Rightarrow> Inl e
   | Inr decoded \<Rightarrow> decode_pcr_items items (m(index \<mapsto> decoded)))"

definition release_validate :: "release \<Rightarrow> release result" where
  "release_validate r =
     (if \<not> sourceRevisionPattern (rel_source_revision r)
      then Inl (Msg ''source_revision must be a full lowercase 40-character Git revision'')
      else (case decode_pcr_items [(0, rel_pcr0 r), (1, rel_pcr1 r), (2, rel_pcr2 r)] Map.empty of
        Inl e \<Rightarrow> Inl e
      | Inr m \<Rightarrow> Inr (r\<lparr>rel_pcrs := m\<rparr>)))"

text \<open>The loop over the releases, with the revisions seen so far.\<close>

fun validate_releases :: "nat \<Rightarrow> string list \<Rightarrow> release list \<Rightarrow> release list result" where
  "validate_releases index seen [] = Inr []"
| "validate_releases index seen (r # rs) = (case release_validate r of
     Inl e \<Rightarrow> Inl (Wrapf (''trust policy release '' @ dec_nat index @ '': '') e [])
   | Inr r' \<Rightarrow>
       (if rel_source_revision r' \<in> set seen
        then Inl (Msg (''trust policy lists source_revision '' @ rel_source_revision r' @ '' more than once''))
        else (case validate_releases (Suc index) (rel_source_revision r' # seen) rs of
          Inl e \<Rightarrow> Inl e
        | Inr rs' \<Rightarrow> Inr (r' # rs'))))"

definition policy_validate :: "policy \<Rightarrow> policy result" where
  "policy_validate p =
     (if pol_schema_version p \<noteq> PolicySchemaVersion
      then Inl (Msg (''trust policy schema_version must be '' @ dec_int PolicySchemaVersion))
      else if pol_manifest_schema_version p \<noteq> ManifestSchemaVersion
      then Inl (Msg (''trust policy manifest_schema_version must be '' @ dec_int ManifestSchemaVersion))
      else if pol_workload p \<noteq> GatewayWorkload
      then Inl (Msg (''trust policy workload must be '' @ quoted GatewayWorkload))
      else if pol_profile p \<noteq> GatewayProfile
      then Inl (Msg (''trust policy profile must be '' @ quoted GatewayProfile))
      else if pol_e2ee p \<noteq> required_e2ee
      then Inl (Msg ''trust policy e2ee contract is unsupported'')
      else if pol_releases p = []
      then Inl (Msg ''trust policy must pin at least one Gateway release'')
      else if length (pol_releases p) > MaxPolicyReleases
      then Inl (Msg (''trust policy must not pin more than '' @ dec_nat MaxPolicyReleases @ '' Gateway releases''))
      else (case validate_releases 0 [] (pol_releases p) of
        Inl e \<Rightarrow> Inl e
      | Inr rs \<Rightarrow> Inr (p\<lparr>pol_releases := rs\<rparr>)))"

definition ParsePolicy :: "bytes \<Rightarrow> policy result" where
  "ParsePolicy data =
     (if data = [] then Inl (Msg ''trust policy JSON is required'')
      else if int (length data) > maxPolicyBytes
      then Inl (Msg (''trust policy exceeds '' @ dec_int maxPolicyBytes @ '' bytes''))
      else (case DecodeStrict (decode_struct True policy_fields) zero_policy data of
        Inl e \<Rightarrow> Inl (Wrapf ''decode trust policy: '' e [])
      | Inr p \<Rightarrow> policy_validate p))"

text \<open>\<open>os.Open\<close> is the first argument: the file system as the reader a path opens to, or an error.\<close>

definition LoadPolicy :: "(string \<Rightarrow> reader result) \<Rightarrow> string \<Rightarrow> policy result" where
  "LoadPolicy open_file path =
     (if path = [] then Inl (Msg ''trust policy path is required'')
      else (case open_file path of
        Inl e \<Rightarrow> Inl (Wrapf ''open trust policy: '' e [])
      | Inr file \<Rightarrow> (case ReadAllLimited file maxPolicyBytes of
          Inl e \<Rightarrow> Inl (Wrapf ''read trust policy: '' e [])
        | Inr data \<Rightarrow> ParsePolicy data)))"

section \<open>Lookup\<close>

fun release_for :: "release list \<Rightarrow> string \<Rightarrow> release option" where
  "release_for [] revision = None"
| "release_for (r # rs) revision =
     (if rel_source_revision r = revision then Some r else release_for rs revision)"

definition releaseFor :: "policy \<Rightarrow> string \<Rightarrow> release option" where
  "releaseFor p sourceRevision = release_for (pol_releases p) sourceRevision"

definition expectedPCRs :: "release \<Rightarrow> nat \<Rightarrow> bytes option" where
  "expectedPCRs r = rel_pcrs r"

section \<open>Measurements\<close>

lemma word8_of_char: "unat (of_char c :: 8 word) = ord_of c"
proof -
  have "(of_char c :: 8 word) = of_nat (ord_of c)" by (cases c) simp
  then show ?thesis using nat_of_char_less_256 [of c] by (simp only: unat_of_nat) simp
qed

lemma word8_zero_iff: "(of_char c :: 8 word) = 0 \<longleftrightarrow> c = CHR 0x00"
proof
  assume "(of_char c :: 8 word) = 0"
  then have "ord_of c = ord_of CHR 0x00" using word8_of_char [of c] by simp
  then show "c = CHR 0x00" by (simp only: of_char_eq_iff)
qed simp

lemma or_bytes_zero_iff: "or_bytes w v = 0 \<longleftrightarrow> w = 0 \<and> list_all (\<lambda>c. c = CHR 0x00) v"
  by (induction v arbitrary: w) (auto simp: word8_zero_iff or_eq_0_iff)

lemma allZero_iff: "allZero v \<longleftrightarrow> list_all (\<lambda>c. c = CHR 0x00) v"
  by (simp add: allZero_def or_bytes_zero_iff)

lemma decodePCR_iff:
  "decodePCR i s = Inr d \<longleftrightarrow> hex_encode d = s \<and> length d = pcrBytes \<and> \<not> allZero d"
  by (auto simp: decodePCR_def split: sum.splits dest: hex_decode_length)

text \<open>A pinned release is well formed when its measurements are those its hexadecimal fields spell.\<close>

definition wf_release :: "release \<Rightarrow> bool" where
  "wf_release r \<longleftrightarrow> sourceRevisionPattern (rel_source_revision r) \<and>
     (\<exists>d0 d1 d2. rel_pcrs r = [0 \<mapsto> d0, 1 \<mapsto> d1, 2 \<mapsto> d2] \<and>
        hex_encode d0 = rel_pcr0 r \<and> hex_encode d1 = rel_pcr1 r \<and> hex_encode d2 = rel_pcr2 r \<and>
        (\<forall>d\<in>{d0, d1, d2}. length d = pcrBytes \<and> \<not> allZero d))"

text \<open>The fields of a release as the policy document gives them.\<close>

definition release_claims :: "release \<Rightarrow> string \<times> string \<times> string \<times> string" where
  "release_claims r = (rel_source_revision r, rel_pcr0 r, rel_pcr1 r, rel_pcr2 r)"

definition release_ok :: "release \<Rightarrow> bool" where
  "release_ok r \<longleftrightarrow> sourceRevisionPattern (rel_source_revision r) \<and>
     is_ok (decodePCR 0 (rel_pcr0 r)) \<and> is_ok (decodePCR 1 (rel_pcr1 r)) \<and> is_ok (decodePCR 2 (rel_pcr2 r))"

lemma release_validate_Inr:
  assumes "release_validate r = Inr r'"
  shows "wf_release r'" "release_claims r' = release_claims r" "rel_source_revision r' = rel_source_revision r"
proof -
  obtain d0 d1 d2 where d: "decodePCR 0 (rel_pcr0 r) = Inr d0" "decodePCR 1 (rel_pcr1 r) = Inr d1"
    "decodePCR 2 (rel_pcr2 r) = Inr d2" and p: "sourceRevisionPattern (rel_source_revision r)"
    and r': "r' = r\<lparr>rel_pcrs := [0 \<mapsto> d0, 1 \<mapsto> d1, 2 \<mapsto> d2]\<rparr>"
    using assms by (auto simp: release_validate_def split: if_splits sum.splits)
  then show "wf_release r'" by (auto simp: wf_release_def decodePCR_iff)
  show "release_claims r' = release_claims r" "rel_source_revision r' = rel_source_revision r"
    using r' by (simp_all add: release_claims_def)
qed

lemma release_validate_ok_iff: "is_ok (release_validate r) \<longleftrightarrow> release_ok r"
  by (auto simp: release_validate_def release_ok_def split: sum.splits)

lemma release_validate_wf: "wf_release r \<Longrightarrow> release_validate r = Inr r"
proof -
  assume "wf_release r"
  then obtain d0 d1 d2 where p: "sourceRevisionPattern (rel_source_revision r)"
    and m: "rel_pcrs r = [0 \<mapsto> d0, 1 \<mapsto> d1, 2 \<mapsto> d2]"
    and d: "decodePCR 0 (rel_pcr0 r) = Inr d0" "decodePCR 1 (rel_pcr1 r) = Inr d1" "decodePCR 2 (rel_pcr2 r) = Inr d2"
    by (auto simp: wf_release_def decodePCR_iff)
  have "r\<lparr>rel_pcrs := [0 \<mapsto> d0, 1 \<mapsto> d1, 2 \<mapsto> d2]\<rparr> = r" using m by simp
  with p d show ?thesis by (simp add: release_validate_def)
qed

section \<open>Policies\<close>

lemma validate_releases_Inr:
  assumes "validate_releases i seen rs = Inr rs'"
  shows "list_all wf_release rs' \<and> map release_claims rs' = map release_claims rs \<and>
    distinct (map rel_source_revision rs') \<and> set (map rel_source_revision rs') \<inter> set seen = {}"
  using assms
proof (induction rs arbitrary: i seen rs')
  case (Cons r rs)
  then obtain r' rs'' where r: "release_validate r = Inr r'" "rel_source_revision r' \<notin> set seen"
    "validate_releases (Suc i) (rel_source_revision r' # seen) rs = Inr rs''" "rs' = r' # rs''"
    by (auto split: sum.splits if_splits)
  with Cons.IH [OF r(3)] release_validate_Inr [OF r(1)] show ?case by auto
qed simp

lemma validate_releases_ok_iff:
  "is_ok (validate_releases i seen rs) \<longleftrightarrow> list_all release_ok rs \<and>
     distinct (map rel_source_revision rs) \<and> set (map rel_source_revision rs) \<inter> set seen = {}"
proof (induction rs arbitrary: i seen)
  case (Cons r rs)
  show ?case
  proof (cases "release_validate r")
    case (Inl e)
    then have "\<not> release_ok r" using release_validate_ok_iff [of r] by simp
    with Inl show ?thesis by simp
  next
    case (Inr r')
    then have ok: "release_ok r" using release_validate_ok_iff [of r] by simp
    have "is_ok (validate_releases i seen (r # rs)) \<longleftrightarrow> rel_source_revision r \<notin> set seen \<and>
        is_ok (validate_releases (Suc i) (rel_source_revision r # seen) rs)"
      using Inr release_validate_Inr(3) [OF Inr] by (auto split: sum.splits)
    with ok show ?thesis by (auto simp: Cons.IH)
  qed
qed simp

lemma validate_releases_wf:
  "list_all wf_release rs \<Longrightarrow> distinct (map rel_source_revision rs) \<Longrightarrow>
   set (map rel_source_revision rs) \<inter> set seen = {} \<Longrightarrow> validate_releases i seen rs = Inr rs"
  by (induction rs arbitrary: i seen) (auto simp: release_validate_wf)

definition wf_policy :: "policy \<Rightarrow> bool" where
  "wf_policy p \<longleftrightarrow>
     pol_schema_version p = PolicySchemaVersion \<and> pol_manifest_schema_version p = ManifestSchemaVersion \<and>
     pol_workload p = GatewayWorkload \<and> pol_profile p = GatewayProfile \<and> pol_e2ee p = required_e2ee \<and>
     pol_releases p \<noteq> [] \<and> length (pol_releases p) \<le> MaxPolicyReleases \<and>
     list_all wf_release (pol_releases p) \<and> distinct (map rel_source_revision (pol_releases p))"

lemma policy_validate_Inr:
  assumes "policy_validate p = Inr q"
  shows "wf_policy q \<and> map release_claims (pol_releases q) = map release_claims (pol_releases p)"
proof -
  obtain rs where rs: "validate_releases 0 [] (pol_releases p) = Inr rs" and q: "q = p\<lparr>pol_releases := rs\<rparr>"
    using assms by (auto simp: policy_validate_def split: if_splits sum.splits)
  note v = validate_releases_Inr [OF rs]
  then have "length rs = length (pol_releases p)" by (metis length_map)
  with v q assms show ?thesis
    by (auto simp: policy_validate_def wf_policy_def split: if_splits)
qed

lemma policy_validate_wf: "wf_policy p \<Longrightarrow> policy_validate p = Inr p"
  by (simp add: policy_validate_def wf_policy_def validate_releases_wf)

lemma policy_validate_ok_iff:
  "is_ok (policy_validate p) \<longleftrightarrow>
     pol_schema_version p = PolicySchemaVersion \<and> pol_manifest_schema_version p = ManifestSchemaVersion \<and>
     pol_workload p = GatewayWorkload \<and> pol_profile p = GatewayProfile \<and> pol_e2ee p = required_e2ee \<and>
     pol_releases p \<noteq> [] \<and> length (pol_releases p) \<le> MaxPolicyReleases \<and>
     list_all release_ok (pol_releases p) \<and> distinct (map rel_source_revision (pol_releases p))"
  using validate_releases_ok_iff [of 0 "[]" "pol_releases p"]
  by (auto simp: policy_validate_def split: sum.splits)

lemma ParsePolicy_wf: "ParsePolicy data = Inr p \<Longrightarrow> wf_policy p"
  by (auto simp: ParsePolicy_def split: if_splits sum.splits dest: policy_validate_Inr)

lemma release_for_Some:
  "release_for rs v = Some r \<Longrightarrow> r \<in> set rs \<and> rel_source_revision r = v"
  by (induction rs) (auto split: if_splits)

lemma release_for_None: "release_for rs v = None \<longleftrightarrow> v \<notin> set (map rel_source_revision rs)"
  by (induction rs) auto

lemma release_for_distinct:
  "distinct (map rel_source_revision rs) \<Longrightarrow> r \<in> set rs \<Longrightarrow> release_for rs (rel_source_revision r) = Some r"
  by (induction rs) auto

lemma releaseFor_wf: "wf_policy p \<Longrightarrow> releaseFor p v = Some r \<Longrightarrow> wf_release r"
  by (auto simp: releaseFor_def wf_policy_def list_all_iff dest: release_for_Some)

section \<open>Properties\<close>

text \<open>C16: A policy passes \<open>validate\<close> exactly when its schema versions, workload, profile and
  encryption contract are the compiled-in ones, it pins between one and four releases with distinct
  source revisions, and every release names a full Git revision and three canonical, non-zero SHA-384
  measurements.\<close>

theorem policy_accepted_iff:
  "is_ok (policy_validate p) \<longleftrightarrow>
     pol_schema_version p = PolicySchemaVersion \<and> pol_manifest_schema_version p = ManifestSchemaVersion \<and>
     pol_workload p = GatewayWorkload \<and> pol_profile p = GatewayProfile \<and> pol_e2ee p = required_e2ee \<and>
     pol_releases p \<noteq> [] \<and> length (pol_releases p) \<le> MaxPolicyReleases \<and>
     list_all release_ok (pol_releases p) \<and> distinct (map rel_source_revision (pol_releases p))"
  by (rule policy_validate_ok_iff)

text \<open>A measurement decodes exactly when it is the canonical lower-case hexadecimal text of 48
  bytes that are not all zero, and the result is those bytes.\<close>

lemma decodePCR_canonical:
  "decodePCR i s = Inr d \<longleftrightarrow> s = hex_encode d \<and> length d = pcrBytes \<and> \<not> list_all (\<lambda>c. c = CHR 0x00) d"
  using decodePCR_iff [of i s d] allZero_iff [of d] by auto

text \<open>A sample policy, for the witnesses.\<close>

definition pinned_release :: "string \<Rightarrow> string \<Rightarrow> release" where
  "pinned_release revision pcr = \<lparr>rel_source_revision = revision, rel_pcr0 = pcr, rel_pcr1 = pcr, rel_pcr2 = pcr,
     rel_pcrs = Map.empty\<rparr>"

definition pinned_policy :: "release list \<Rightarrow> policy" where
  "pinned_policy rs = \<lparr>pol_schema_version = PolicySchemaVersion, pol_manifest_schema_version = ManifestSchemaVersion,
     pol_workload = GatewayWorkload, pol_profile = GatewayProfile, pol_e2ee = required_e2ee, pol_releases = rs\<rparr>"

lemma decodePCR_sample: "decodePCR i (replicate 96 CHR ''b'') = Inr (replicate 48 CHR 0xBB)"
proof -
  have "hex_encode (replicate 48 CHR 0xBB) = replicate 96 CHR ''b''" by code_simp
  then show ?thesis by (simp add: decodePCR_iff allZero_iff list_all_iff pcrBytes_def)
qed

lemma sourceRevision_sample: "sourceRevisionPattern (replicate 40 CHR ''a'')"
  by (simp add: sourceRevisionPattern_def list_all_iff is_lower_hex_def)

text \<open>C35: A policy that passes \<open>validate\<close> comes out well-formed (every release carries exactly the decoded
  measurements 0, 1 and 2), with the pins it came in with, and validating it again changes nothing.\<close>

theorem policy_validate_type:
  assumes "policy_validate p = Inr q"
  shows "wf_policy q \<and> map release_claims (pol_releases q) = map release_claims (pol_releases p) \<and>
    policy_validate q = Inr q"
  using policy_validate_Inr [OF assms] policy_validate_wf by blast

theorem policy_validate_type_witness:
  "\<exists>q. policy_validate (pinned_policy [pinned_release (replicate 40 CHR ''a'') (replicate 96 CHR ''b'')]) = Inr q \<and>
     wf_policy q \<and> policy_validate q = Inr q"
proof -
  have "is_ok (policy_validate (pinned_policy [pinned_release (replicate 40 CHR ''a'') (replicate 96 CHR ''b'')]))"
    unfolding policy_validate_ok_iff
    by (simp add: pinned_policy_def pinned_release_def release_ok_def MaxPolicyReleases_def is_ok_def decodePCR_sample
        sourceRevision_sample)
  then obtain q where "policy_validate (pinned_policy [pinned_release (replicate 40 CHR ''a'') (replicate 96 CHR ''b'')]) = Inr q"
    by (auto simp: is_ok_def split: sum.splits)
  then show ?thesis using policy_validate_type by blast
qed

end
