(* ===== verification/Sha2.thy ===== *)
theory Sha2
  imports Prelude
begin

unbundle bit_operations_syntax

text \<open>
  \<open>crypto/sha256.Sum256\<close> and \<open>crypto/sha512.Sum384\<close> (FIPS 180-4) on machine words. The SDK
  relies only on their being functions with a fixed output length; they are defined in full so that
  nothing in the model is left abstract where the code calls the Go library.
\<close>

section \<open>Words and bytes\<close>

definition word_bytes :: "nat \<Rightarrow> 'a::len word \<Rightarrow> bytes" where
  "word_bytes n w = map (\<lambda>i. char_of (unat (drop_bit (8 * (n - 1 - i)) w) mod 256)) [0..<n]"

definition bytes_word :: "bytes \<Rightarrow> 'a::len word" where
  "bytes_word bs = foldl (\<lambda>w c. push_bit 8 w OR of_char c) 0 bs"

fun chunks :: "nat \<Rightarrow> nat \<Rightarrow> bytes \<Rightarrow> bytes list" where
  "chunks n 0 bs = []"
| "chunks n (Suc k) bs = take n bs # chunks n k (drop n bs)"

text \<open>A one bit, zeros, and the length in bits as a number of \<open>len_bytes\<close> bytes.\<close>

definition sha_pad :: "nat \<Rightarrow> nat \<Rightarrow> bytes \<Rightarrow> bytes" where
  "sha_pad block len_bytes m =
     (let n = length m; z = (block - (n + 1 + len_bytes) mod block) mod block
      in m @ [CHR 0x80] @ replicate z CHR 0x00 @
         map (\<lambda>i. char_of (8 * n div 256 ^ (len_bytes - 1 - i) mod 256)) [0..<len_bytes])"

section \<open>The compression function\<close>

text \<open>
  Both sizes share it; they differ in the word size, the rotation amounts
  \<open>(a, b, c)\<close> of the four sigma functions, the constants and the number of rounds.
\<close>

definition ch :: "'a::len word \<Rightarrow> 'a word \<Rightarrow> 'a word \<Rightarrow> 'a word" where
  "ch x y z = (x AND y) XOR (NOT x AND z)"

definition maj :: "'a::len word \<Rightarrow> 'a word \<Rightarrow> 'a word \<Rightarrow> 'a word" where
  "maj x y z = (x AND y) XOR (x AND z) XOR (y AND z)"

definition big_sigma :: "nat \<times> nat \<times> nat \<Rightarrow> 'a::len word \<Rightarrow> 'a word" where
  "big_sigma r x = (case r of (a, b, c) \<Rightarrow> word_rotr a x XOR word_rotr b x XOR word_rotr c x)"

definition small_sigma :: "nat \<times> nat \<times> nat \<Rightarrow> 'a::len word \<Rightarrow> 'a word" where
  "small_sigma r x = (case r of (a, b, c) \<Rightarrow> word_rotr a x XOR word_rotr b x XOR drop_bit c x)"

record sha_params =
  sp_S0 :: "nat \<times> nat \<times> nat"
  sp_S1 :: "nat \<times> nat \<times> nat"
  sp_s0 :: "nat \<times> nat \<times> nat"
  sp_s1 :: "nat \<times> nat \<times> nat"

text \<open>The message schedule; the list is kept with the newest word first.\<close>

fun schedule :: "sha_params \<Rightarrow> nat \<Rightarrow> 'a::len word list \<Rightarrow> 'a word list" where
  "schedule p 0 ws = ws"
| "schedule p (Suc k) ws =
     schedule p k ((small_sigma (sp_s1 p) (ws ! 1) + ws ! 6 + small_sigma (sp_s0 p) (ws ! 14) + ws ! 15) # ws)"

definition sha_round :: "sha_params \<Rightarrow> 'a::len word \<times> 'a word \<Rightarrow> 'a word list \<Rightarrow> 'a word list" where
  "sha_round p kw v = (case kw of (k, w) \<Rightarrow> case v of
     [a, b, c, d, e, f, g, h] \<Rightarrow>
       (let t1 = h + big_sigma (sp_S1 p) e + ch e f g + k + w;
            t2 = big_sigma (sp_S0 p) a + maj a b c
        in [t1 + t2, a, b, c, d + t1, e, f, g])
   | _ \<Rightarrow> v)"

definition compress :: "sha_params \<Rightarrow> 'a::len word list \<Rightarrow> nat \<Rightarrow> bytes \<Rightarrow> 'a word list \<Rightarrow> 'a word list" where
  "compress p ks wb block hs =
     (let ws = rev (schedule p (length ks - 16) (rev (map bytes_word (chunks wb 16 block))))
      in map2 (+) hs (fold (sha_round p) (zip ks ws) hs))"

definition sha_blocks :: "sha_params \<Rightarrow> 'a::len word list \<Rightarrow> 'a word list \<Rightarrow> nat \<Rightarrow> bytes \<Rightarrow> 'a word list" where
  "sha_blocks p ks iv wb padded =
     fold (compress p ks wb) (chunks (16 * wb) (length padded div (16 * wb)) padded) iv"

text \<open>The constants are written as numbers of \<open>k\<close> words each, the first word in the highest bits.\<close>

definition row_words :: "nat \<Rightarrow> nat \<Rightarrow> int \<Rightarrow> 'a::len word list" where
  "row_words k bits n = map (\<lambda>i. word_of_int (n div 2 ^ (bits * (k - 1 - i)))) [0..<k]"

section \<open>SHA-256\<close>

definition sha256_params :: sha_params where
  "sha256_params = \<lparr>sp_S0 = (2, 13, 22), sp_S1 = (6, 11, 25), sp_s0 = (7, 18, 3), sp_s1 = (17, 19, 10)\<rparr>"

definition sha256_k :: "32 word list" where
  "sha256_k = concat (map (row_words 8 32) [
   0x428a2f9871374491b5c0fbcfe9b5dba53956c25b59f111f1923f82a4ab1c5ed5,
   0xd807aa9812835b01243185be550c7dc372be5d7480deb1fe9bdc06a7c19bf174,
   0xe49b69c1efbe47860fc19dc6240ca1cc2de92c6f4a7484aa5cb0a9dc76f988da,
   0x983e5152a831c66db00327c8bf597fc7c6e00bf3d5a7914706ca635114292967,
   0x27b70a852e1b21384d2c6dfc53380d13650a7354766a0abb81c2c92e92722c85,
   0xa2bfe8a1a81a664bc24b8b70c76c51a3d192e819d6990624f40e3585106aa070,
   0x19a4c1161e376c082748774c34b0bcb5391c0cb34ed8aa4a5b9cca4f682e6ff3,
   0x748f82ee78a5636f84c878148cc7020890befffaa4506cebbef9a3f7c67178f2])"

definition sha256_iv :: "32 word list" where
  "sha256_iv = concat (map (row_words 8 32) [
   0x6a09e667bb67ae853c6ef372a54ff53a510e527f9b05688c1f83d9ab5be0cd19])"

definition sha256 :: "bytes \<Rightarrow> bytes" where
  "sha256 m = concat (map (word_bytes 4) (sha_blocks sha256_params sha256_k sha256_iv 4 (sha_pad 64 8 m)))"

section \<open>SHA-384\<close>

definition sha512_params :: sha_params where
  "sha512_params = \<lparr>sp_S0 = (28, 34, 39), sp_S1 = (14, 18, 41), sp_s0 = (1, 8, 7), sp_s1 = (19, 61, 6)\<rparr>"

definition sha512_k :: "64 word list" where
  "sha512_k = concat (map (row_words 4 64) [
   0x428a2f98d728ae227137449123ef65cdb5c0fbcfec4d3b2fe9b5dba58189dbbc,
   0x3956c25bf348b53859f111f1b605d019923f82a4af194f9bab1c5ed5da6d8118,
   0xd807aa98a303024212835b0145706fbe243185be4ee4b28c550c7dc3d5ffb4e2,
   0x72be5d74f27b896f80deb1fe3b1696b19bdc06a725c71235c19bf174cf692694,
   0xe49b69c19ef14ad2efbe4786384f25e30fc19dc68b8cd5b5240ca1cc77ac9c65,
   0x2de92c6f592b02754a7484aa6ea6e4835cb0a9dcbd41fbd476f988da831153b5,
   0x983e5152ee66dfaba831c66d2db43210b00327c898fb213fbf597fc7beef0ee4,
   0xc6e00bf33da88fc2d5a79147930aa72506ca6351e003826f142929670a0e6e70,
   0x27b70a8546d22ffc2e1b21385c26c9264d2c6dfc5ac42aed53380d139d95b3df,
   0x650a73548baf63de766a0abb3c77b2a881c2c92e47edaee692722c851482353b,
   0xa2bfe8a14cf10364a81a664bbc423001c24b8b70d0f89791c76c51a30654be30,
   0xd192e819d6ef5218d69906245565a910f40e35855771202a106aa07032bbd1b8,
   0x19a4c116b8d2d0c81e376c085141ab532748774cdf8eeb9934b0bcb5e19b48a8,
   0x391c0cb3c5c95a634ed8aa4ae3418acb5b9cca4f7763e373682e6ff3d6b2b8a3,
   0x748f82ee5defb2fc78a5636f43172f6084c87814a1f0ab728cc702081a6439ec,
   0x90befffa23631e28a4506cebde82bde9bef9a3f7b2c67915c67178f2e372532b,
   0xca273eceea26619cd186b8c721c0c207eada7dd6cde0eb1ef57d4f7fee6ed178,
   0x06f067aa72176fba0a637dc5a2c898a6113f9804bef90dae1b710b35131c471b,
   0x28db77f523047d8432caab7b40c724933c9ebe0a15c9bebc431d67c49c100d4c,
   0x4cc5d4becb3e42b6597f299cfc657e2a5fcb6fab3ad6faec6c44198c4a475817])"

definition sha384_iv :: "64 word list" where
  "sha384_iv = concat (map (row_words 4 64) [
   0xcbbb9d5dc1059ed8629a292a367cd5079159015a3070dd17152fecd8f70e5939,
   0x67332667ffc00b318eb44a8768581511db0c2e0d64f98fa747b5481dbefa4fa4])"

definition sha384 :: "bytes \<Rightarrow> bytes" where
  "sha384 m = concat (map (word_bytes 8)
     (take 6 (sha_blocks sha512_params sha512_k sha384_iv 8 (sha_pad 128 16 m))))"

section \<open>Output lengths\<close>

lemma length_word_bytes [simp]: "length (word_bytes n w) = n"
  by (simp add: word_bytes_def)

lemma length_sha_round: "length v = 8 \<Longrightarrow> length (sha_round p kw v) = 8"
  by (auto simp: sha_round_def Let_def split: prod.splits list.splits)

lemma length_sha_rounds: "length v = 8 \<Longrightarrow> length (fold (sha_round p) kws v) = 8"
  by (induction kws arbitrary: v) (auto simp: length_sha_round)

lemma length_compress: "length hs = 8 \<Longrightarrow> length (compress p ks wb b hs) = 8"
  by (simp add: compress_def Let_def length_sha_rounds)

lemma length_sha_blocks: "length iv = 8 \<Longrightarrow> length (sha_blocks p ks iv wb m) = 8"
proof -
  have "length hs = 8 \<Longrightarrow> length (fold (compress p ks wb) bs hs) = 8" for bs hs
    by (induction bs arbitrary: hs) (auto simp: length_compress)
  then show "length iv = 8 \<Longrightarrow> length (sha_blocks p ks iv wb m) = 8" by (simp add: sha_blocks_def)
qed

lemma length_concat_word_bytes: "length (concat (map (word_bytes n) ws)) = n * length ws"
  by (induction ws) auto

lemma length_sha256 [simp]: "length (sha256 m) = 32"
proof -
  have "length (sha_blocks sha256_params sha256_k sha256_iv 4 (sha_pad 64 8 m)) = 8"
    by (rule length_sha_blocks) (simp add: sha256_iv_def row_words_def)
  then show ?thesis by (simp add: sha256_def length_concat_word_bytes)
qed

lemma length_sha384 [simp]: "length (sha384 m) = 48"
proof -
  have "length (sha_blocks sha512_params sha512_k sha384_iv 8 (sha_pad 128 16 m)) = 8"
    by (rule length_sha_blocks) (simp add: sha384_iv_def row_words_def)
  then show ?thesis by (simp add: sha384_def length_concat_word_bytes)
qed

end
