(* ===== verification/GoNet.thy ===== *)
theory GoNet
  imports GoText Json
begin

text \<open>
  What the SDK uses of \<open>net/url\<close>, \<open>net/netip\<close> and \<open>net\<close>: \<open>url.ParseRequestURI\<close>,
  \<open>URL.String\<close> of a scheme and a host, \<open>URL.Hostname\<close>, \<open>net.ParseIP\<close> and
  \<open>net.SplitHostPort\<close>. \<open>ParseRequestURI\<close> never splits off a fragment, so a parsed URL has
  none.
\<close>

section \<open>IP addresses\<close>

text \<open>An address is its 16 bytes; an IPv4 address is mapped, as in \<open>net.IP\<close>.\<close>

type_synonym ip = "nat list"

fun split_on :: "char \<Rightarrow> string \<Rightarrow> string list" where
  "split_on sep [] = [[]]"
| "split_on sep (c # s) =
     (if c = sep then [] # split_on sep s
      else (case split_on sep s of [] \<Rightarrow> [[c]] | f # fs \<Rightarrow> (c # f) # fs))"

definition octet :: "string \<Rightarrow> nat option" where
  "octet f =
     (if f \<noteq> [] \<and> list_all is_digit f \<and> (hd f = CHR ''0'' \<longrightarrow> length f = 1)
         \<and> foldl (\<lambda>n c. 10 * n + (ord_of c - 48)) 0 f \<le> 255
      then Some (foldl (\<lambda>n c. 10 * n + (ord_of c - 48)) 0 f) else None)"

definition parse_ipv4 :: "string \<Rightarrow> nat list option" where
  "parse_ipv4 s = (case map octet (split_on CHR ''.'' s) of
     [Some a, Some b, Some c, Some d] \<Rightarrow> Some [a, b, c, d] | _ \<Rightarrow> None)"

fun span_hex :: "string \<Rightarrow> string \<times> string" where
  "span_hex [] = ([], [])"
| "span_hex (c # s) = (if is_hex c then (case span_hex s of (a, b) \<Rightarrow> (c # a, b)) else ([], c # s))"

definition hex_num :: "string \<Rightarrow> nat" where
  "hex_num s = foldl (\<lambda>n c. 16 * n + (case hex_val c of None \<Rightarrow> 0 | Some v \<Rightarrow> v)) 0 s"

text \<open>
  The groups of an IPv6 address: the bytes so far, where the ellipsis stood, and the rest of the
  text. At most eight groups fit, so the first argument counts the groups that are left.
\<close>

fun ipv6_groups :: "nat \<Rightarrow> nat list \<Rightarrow> nat option \<Rightarrow> string \<Rightarrow> (nat list \<times> nat option \<times> string) option" where
  "ipv6_groups 0 ip ell s = Some (ip, ell, s)"
| "ipv6_groups (Suc k) ip ell s = (case span_hex s of (h, r) \<Rightarrow>
     (if h = [] \<or> length h > 4 then None
      else if r \<noteq> [] \<and> hd r = CHR ''.'' then
        (if ell = None \<and> length ip \<noteq> 12 \<or> length ip + 4 > 16 then None
         else (case parse_ipv4 s of None \<Rightarrow> None | Some q \<Rightarrow> Some (ip @ q, ell, [])))
      else (let ip' = ip @ [hex_num h div 256, hex_num h mod 256] in
        case r of [] \<Rightarrow> Some (ip', ell, [])
        | c # r1 \<Rightarrow>
           (if c \<noteq> CHR '':'' then None
            else (case r1 of [] \<Rightarrow> None
              | d # r2 \<Rightarrow>
                 (if d = CHR '':'' then
                    (if ell \<noteq> None then None
                     else if r2 = [] then Some (ip', Some (length ip'), [])
                     else ipv6_groups k ip' (Some (length ip')) r2)
                  else ipv6_groups k ip' ell r1))))))"

definition ipv6_finish :: "nat list \<times> nat option \<times> string \<Rightarrow> nat list option" where
  "ipv6_finish g = (case g of (ip, ell, s) \<Rightarrow>
     (if s \<noteq> [] then None
      else if length ip < 16 then
        (case ell of None \<Rightarrow> None
         | Some e \<Rightarrow> Some (take e ip @ replicate (16 - length ip) 0 @ drop e ip))
      else if ell \<noteq> None then None else Some ip))"

text \<open>The address and its zone.\<close>

definition parse_ipv6 :: "string \<Rightarrow> (nat list \<times> string) option" where
  "parse_ipv6 inp = (case cut_byte CHR ''%'' inp of (s, zone, found) \<Rightarrow>
     (if found \<and> zone = [] then None
      else map_option (\<lambda>a. (a, zone))
        (case s of
           a # b # r \<Rightarrow>
             (if a = CHR '':'' \<and> b = CHR '':'' then
                (if r = [] then Some (replicate 16 0)
                 else Option.bind (ipv6_groups 8 [] (Some 0) r) ipv6_finish)
              else Option.bind (ipv6_groups 8 [] None s) ipv6_finish)
         | _ \<Rightarrow> Option.bind (ipv6_groups 8 [] None s) ipv6_finish)))"

fun first_of :: "char set \<Rightarrow> string \<Rightarrow> char option" where
  "first_of cs [] = None"
| "first_of cs (c # s) = (if c \<in> cs then Some c else first_of cs s)"

definition map_v4 :: "nat list \<Rightarrow> ip" where
  "map_v4 q = replicate 10 0 @ [255, 255] @ q"

definition parse_addr :: "string \<Rightarrow> (ip \<times> string) option" where
  "parse_addr s = (case first_of {CHR ''.'', CHR '':'', CHR ''%''} s of
     None \<Rightarrow> None
   | Some c \<Rightarrow>
      (if c = CHR ''.'' then map_option (\<lambda>q. (map_v4 q, [])) (parse_ipv4 s)
       else if c = CHR '':'' then parse_ipv6 s else None))"

definition ParseIP :: "string \<Rightarrow> ip option" where
  "ParseIP s = (case parse_addr s of Some (a, zone) \<Rightarrow> (if zone = [] then Some a else None) | None \<Rightarrow> None)"

definition is_v4 :: "ip \<Rightarrow> bool" where
  "is_v4 a \<longleftrightarrow> take 12 a = replicate 10 0 @ [255, 255]"

definition IsLoopback :: "ip \<Rightarrow> bool" where
  "IsLoopback a = (if is_v4 a then a ! 12 = 127 else a = replicate 15 0 @ [1])"

definition IsUnspecified :: "ip \<Rightarrow> bool" where
  "IsUnspecified a \<longleftrightarrow> a = map_v4 [0, 0, 0, 0] \<or> a = replicate 16 0"

section \<open>Host and port\<close>

fun last_index :: "char \<Rightarrow> string \<Rightarrow> nat option" where
  "last_index c [] = None"
| "last_index c (x # s) = (case last_index c s of Some i \<Rightarrow> Some (Suc i) | None \<Rightarrow> (if x = c then Some 0 else None))"

fun first_index :: "char \<Rightarrow> string \<Rightarrow> nat option" where
  "first_index c [] = None"
| "first_index c (x # s) = (if x = c then Some 0 else map_option Suc (first_index c s))"

text \<open>\<open>net.SplitHostPort\<close>.\<close>

definition SplitHostPort :: "string \<Rightarrow> (string \<times> string) result" where
  "SplitHostPort hostport = (case last_index CHR '':'' hostport of
     None \<Rightarrow> Inl (Msg ''missing port in address'')
   | Some i \<Rightarrow>
      (if hostport \<noteq> [] \<and> hd hostport = CHR ''['' then
         (case first_index CHR '']'' hostport of
            None \<Rightarrow> Inl (Msg ''missing ']' in address'')
          | Some en \<Rightarrow>
             (if Suc en = length hostport then Inl (Msg ''missing port in address'')
              else if Suc en = i then
                (let host = take (en - 1) (drop 1 hostport); port = drop (Suc i) hostport in
                 if CHR ''['' \<in> set (drop 1 hostport) then Inl (Msg ''unexpected '[' in address'')
                 else if CHR '']'' \<in> set (drop (Suc en) hostport) then Inl (Msg ''unexpected ']' in address'')
                 else Inr (host, port))
              else (if hostport ! (Suc en) = CHR '':'' then Inl (Msg ''too many colons in address'')
                    else Inl (Msg ''missing port in address''))))
       else
         (let host = take i hostport; port = drop (Suc i) hostport in
          if CHR '':'' \<in> set host then Inl (Msg ''too many colons in address'')
          else if CHR ''['' \<in> set hostport then Inl (Msg ''unexpected '[' in address'')
          else if CHR '']'' \<in> set hostport then Inl (Msg ''unexpected ']' in address'')
          else Inr (host, port))))"

section \<open>URLs\<close>

record url =
  url_scheme :: string
  url_opaque :: string
  url_user :: bool
  url_host :: string
  url_path :: string
  url_raw_path :: string
  url_force_query :: bool
  url_raw_query :: string
  url_fragment :: string

definition zero_url :: url where
  "zero_url = \<lparr>url_scheme = [], url_opaque = [], url_user = False, url_host = [], url_path = [],
     url_raw_path = [], url_force_query = False, url_raw_query = [], url_fragment = []\<rparr>"

definition is_alnum :: "char \<Rightarrow> bool" where
  "is_alnum c \<longleftrightarrow> in_range 48 57 c \<or> in_range 65 90 c \<or> in_range 97 122 c"

datatype url_mode = EncodeHost | EncodeZone | EncodePath | EncodeUser

definition shouldEscape :: "url_mode \<Rightarrow> char \<Rightarrow> bool" where
  "shouldEscape mode c =
     (if is_alnum c then False
      else if (mode = EncodeHost \<or> mode = EncodeZone) \<and>
              (c \<in> set ''!$&()*+,;=:[]<>'' \<or> c = CHR 0x27 \<or> c = CHR 0x22) then False
      else if c \<in> set ''-_.~'' then False
      else if c \<in> set ''$&+,/:;=?@'' then
        (if mode = EncodePath then c = CHR ''?''
         else if mode = EncodeUser then c \<in> set ''@/?:'' else True)
      else True)"

definition upper_hex :: "nat \<Rightarrow> char" where
  "upper_hex n = char_of (if n < 10 then 48 + n else 55 + n)"

definition url_escape :: "url_mode \<Rightarrow> string \<Rightarrow> string" where
  "url_escape mode s = concat (map (\<lambda>c. if shouldEscape mode c
     then [CHR ''%'', upper_hex (ord_of c div 16), upper_hex (ord_of c mod 16)] else [c]) s)"

definition escape_error :: error where
  "escape_error = Msg ''invalid URL escape''"

fun url_unescape :: "url_mode \<Rightarrow> string \<Rightarrow> string result" where
  "url_unescape mode [] = Inr []"
| "url_unescape mode (c # s) =
     (if c = CHR ''%'' then
        (case s of a # b # t \<Rightarrow>
           (case (hex_val a, hex_val b) of
              (Some x, Some y) \<Rightarrow>
                (if mode = EncodeHost \<and> x < 8 \<and> \<not> (a = CHR ''2'' \<and> b = CHR ''5'') then Inl escape_error
                 else if mode = EncodeZone \<and> 16 * x + y \<noteq> 37 \<and> 16 * x + y \<noteq> 32
                      \<and> shouldEscape EncodeHost (char_of (16 * x + y)) then Inl escape_error
                 else rbind (url_unescape mode t) (\<lambda>r. Inr (char_of (16 * x + y) # r)))
            | _ \<Rightarrow> Inl escape_error)
         | _ \<Rightarrow> Inl escape_error)
      else if (mode = EncodeHost \<or> mode = EncodeZone) \<and> ord_of c < 128 \<and> shouldEscape mode c
      then Inl (Msg ''invalid character in host name'')
      else rbind (url_unescape mode s) (\<lambda>r. Inr (c # r)))"

text \<open>The scheme and the rest; \<open>None\<close> for a missing scheme before a colon.\<close>

fun get_scheme :: "bool \<Rightarrow> string \<Rightarrow> string \<Rightarrow> string \<Rightarrow> (string \<times> string) option" where
  "get_scheme first acc whole [] = Some ([], whole)"
| "get_scheme first acc whole (c # s) =
     (if in_range 97 122 c \<or> in_range 65 90 c then get_scheme False (acc @ [c]) whole s
      else if in_range 48 57 c \<or> c \<in> set ''+-.'' then
        (if first then Some ([], whole) else get_scheme False (acc @ [c]) whole s)
      else if c = CHR '':'' then (if first then None else Some (acc, s))
      else Some ([], whole))"

definition validOptionalPort :: "string \<Rightarrow> bool" where
  "validOptionalPort p = (case p of [] \<Rightarrow> True | c # ds \<Rightarrow> c = CHR '':'' \<and> list_all is_digit ds)"

fun find_25 :: "string \<Rightarrow> nat option" where
  "find_25 [] = None"
| "find_25 (c # s) = (if has_prefix (c # s) ''%25'' then Some 0 else map_option Suc (find_25 s))"

definition parse_host :: "string \<Rightarrow> string result" where
  "parse_host host = (case last_index CHR ''['' host of
     Some op \<Rightarrow> (case last_index CHR '']'' host of
        None \<Rightarrow> Inl (Msg ''missing ']' in host'')
      | Some cl \<Rightarrow>
         (let colonPort = drop (Suc cl) host; hostname = take (cl - Suc op) (drop (Suc op) host) in
          if \<not> validOptionalPort colonPort then Inl (Msg ''invalid port after host'')
          else rbind (url_unescape EncodeHost colonPort) (\<lambda>port.
            rbind (case find_25 hostname of
                     Some z \<Rightarrow> rbind (url_unescape EncodeHost (take z hostname)) (\<lambda>h.
                        rbind (url_unescape EncodeZone (drop z hostname)) (\<lambda>zone. Inr (h @ zone)))
                   | None \<Rightarrow> url_unescape EncodeHost hostname) (\<lambda>name.
              (if op = 0 \<and> parse_ipv6 name \<noteq> None then Inr (''['' @ name @ '']'' @ port)
               else Inl (Msg ''invalid host''))))))
   | None \<Rightarrow> (case last_index CHR '':'' host of
        Some i \<Rightarrow> (if validOptionalPort (drop i host) then url_unescape EncodeHost host
                   else Inl (Msg ''invalid port after host''))
      | None \<Rightarrow> url_unescape EncodeHost host))"

definition validUserinfo :: "string \<Rightarrow> bool" where
  "validUserinfo = list_all (\<lambda>c. is_alnum c \<or> c \<in> set ''-._:~!$&()*+,;=%@'' \<or> c = CHR 0x27)"

text \<open>Whether there is user information, and the host.\<close>

definition parse_authority :: "string \<Rightarrow> (bool \<times> string) result" where
  "parse_authority a = (case last_index CHR ''@'' a of
     None \<Rightarrow> rbind (parse_host a) (\<lambda>h. Inr (False, h))
   | Some i \<Rightarrow> rbind (parse_host (drop (Suc i) a)) (\<lambda>h.
      (let userinfo = take i a in
       if \<not> validUserinfo userinfo then Inl (Msg ''net/url: invalid userinfo'')
       else (case cut_byte CHR '':'' userinfo of (u, p, _) \<Rightarrow>
         rbind (url_unescape EncodeUser u) (\<lambda>_. rbind (url_unescape EncodeUser p) (\<lambda>_. Inr (True, h)))))))"

definition set_path :: "string \<Rightarrow> url \<Rightarrow> url result" where
  "set_path p u = rbind (url_unescape EncodePath p) (\<lambda>path.
     Inr (u\<lparr>url_path := path, url_raw_path := (if url_escape EncodePath path = p then [] else p)\<rparr>))"

definition ParseRequestURI :: "string \<Rightarrow> url result" where
  "ParseRequestURI raw =
     (if \<not> list_all (\<lambda>c. 32 \<le> ord_of c \<and> ord_of c \<noteq> 127) raw
      then Inl (Msg ''net/url: invalid control character in URL'')
      else if raw = [] then Inl (Msg ''empty url'')
      else if raw = ''*'' then Inr (zero_url\<lparr>url_path := ''*''\<rparr>)
      else (case get_scheme True [] raw raw of
        None \<Rightarrow> Inl (Msg ''missing protocol scheme'')
      | Some (sch, rest0) \<Rightarrow>
         (let forced = (has_suffix rest0 ''?'' \<and> length (filter (\<lambda>c. c = CHR ''?'') rest0) = 1);
              (before, query, _) = cut_byte CHR ''?'' rest0;
              rest = (if forced then butlast rest0 else before);
              u = zero_url\<lparr>url_scheme := to_lower sch, url_force_query := forced,
                    url_raw_query := (if forced then [] else query)\<rparr>
          in if \<not> has_prefix rest ''/'' then
               (if sch \<noteq> [] then Inr (u\<lparr>url_opaque := rest\<rparr>)
                else Inl (Msg ''invalid URI for request''))
             else if sch \<noteq> [] \<and> has_prefix rest ''//'' then
               (let au = drop 2 rest in
                case (case first_index CHR ''/'' au of Some i \<Rightarrow> (take i au, drop i au) | None \<Rightarrow> (au, [])) of
                  (authority, path) \<Rightarrow>
                    rbind (parse_authority authority) (\<lambda>(user, host).
                      set_path path (u\<lparr>url_user := user, url_host := host\<rparr>)))
             else set_path rest u)))"

text \<open>\<open>(&url.URL\{Scheme: s, Host: h\}).String()\<close>.\<close>

definition url_string :: "string \<Rightarrow> string \<Rightarrow> string" where
  "url_string sch host = (if sch = [] then [] else sch @ '':'') @
     (if host = [] then [] else ''//'' @ url_escape EncodeHost host)"

text \<open>\<open>URL.Hostname\<close>: the host without its port and without brackets.\<close>

definition Hostname :: "url \<Rightarrow> string" where
  "Hostname u =
     (let h = url_host u;
          h1 = (case last_index CHR '':'' h of
                  Some i \<Rightarrow> (if validOptionalPort (drop i h) then take i h else h) | None \<Rightarrow> h)
      in if has_prefix h1 ''['' \<and> has_suffix h1 '']'' then butlast (tl h1) else h1)"

lemma url_fragment_none: "ParseRequestURI raw = Inr u \<Longrightarrow> url_fragment u = []"
  by (auto simp: ParseRequestURI_def zero_url_def set_path_def Let_def rbind_Inr_iff
      split: if_splits option.splits prod.splits)

end
