(* ===== verification/GoHttp.thy ===== *)
theory GoHttp
  imports GoNet GoIO
begin

text \<open>
  Requests, responses and \<open>http.Client.Do\<close>. The network is a transport: an arbitrary function
  of the request and of an opaque world \<open>'w\<close> that every effect threads, so two calls may answer
  differently and nothing is assumed about the peer. A wire response says, beside the response, where
  it redirects to (the URL \<open>net/http\<close> resolves from the status and the \<open>Location\<close> header), if
  it does.
\<close>

record http_request =
  req_method :: string
  req_url :: string
  req_header :: header
  req_body :: bytes

record http_response =
  resp_status :: int
  resp_header :: header
  resp_body :: reader

record wire_response =
  wr_response :: http_response
  wr_redirect :: "string option"

type_synonym 'w transport = "http_request \<Rightarrow> 'w \<Rightarrow> wire_response result \<times> 'w"

text \<open>\<open>CheckRedirect\<close>: the next URL and the number of requests already made.\<close>

type_synonym redirect_check = "string \<Rightarrow> nat \<Rightarrow> error option"

record http_client =
  hc_check_redirect :: "redirect_check option"

definition default_check :: redirect_check where
  "default_check u via = (if 10 \<le> via then Some (Msg ''stopped after 10 redirects'') else None)"

definition client_check :: "http_client \<Rightarrow> redirect_check" where
  "client_check c = (case hc_check_redirect c of None \<Rightarrow> default_check | Some f \<Rightarrow> f)"

text \<open>
  One request and the redirects it leads to: the result, the URLs requested in order, and the world.
  The fuel bounds the hops; \<open>client_hops_fuel\<close> shows that it does not matter once it exceeds the
  point at which the redirect check refuses.
\<close>

fun client_hops :: "nat \<Rightarrow> 'w transport \<Rightarrow> redirect_check \<Rightarrow> http_request \<Rightarrow> nat \<Rightarrow> 'w \<Rightarrow>
    http_response result \<times> string list \<times> 'w" where
  "client_hops 0 tr check req via w = (Inl (Msg ''stopped after 10 redirects''), [], w)"
| "client_hops (Suc n) tr check req via w = (case tr req w of
     (Inl e, w') \<Rightarrow> (Inl e, [req_url req], w')
   | (Inr wr, w') \<Rightarrow> (case wr_redirect wr of
       None \<Rightarrow> (Inr (wr_response wr), [req_url req], w')
     | Some u \<Rightarrow> (case check u (Suc via) of
         Some e \<Rightarrow> (Inl e, [req_url req], w')
       | None \<Rightarrow> (case client_hops n tr check (req\<lparr>req_url := u\<rparr>) (Suc via) w' of
           (r, us, w'') \<Rightarrow> (r, req_url req # us, w'')))))"

definition client_do :: "'w transport \<Rightarrow> http_client \<Rightarrow> http_request \<Rightarrow> 'w \<Rightarrow> http_response result \<times> string list \<times> 'w" where
  "client_do tr c req w = client_hops 11 tr (client_check c) req 0 w"

definition http_do :: "'w transport \<Rightarrow> http_client \<Rightarrow> http_request \<Rightarrow> 'w \<Rightarrow> http_response result \<times> 'w" where
  "http_do tr c req w = (case client_do tr c req w of (r, us, w') \<Rightarrow> (r, w'))"

text \<open>A check that refuses from the \<open>k\<close>-th redirect on.\<close>

definition refuses_from :: "nat \<Rightarrow> redirect_check \<Rightarrow> bool" where
  "refuses_from k check \<longleftrightarrow> (\<forall>u via. k \<le> via \<longrightarrow> check u via \<noteq> None)"

lemma client_hops_step:
  assumes "\<And>u w'. check u (Suc via) = None \<Longrightarrow>
     client_hops m tr check (req\<lparr>req_url := u\<rparr>) (Suc via) w' = client_hops n tr check (req\<lparr>req_url := u\<rparr>) (Suc via) w'"
  shows "client_hops (Suc m) tr check req via w = client_hops (Suc n) tr check req via w"
proof (cases "tr req w")
  case (Pair r w')
  show ?thesis
  proof (cases r)
    case (Inr wr)
    with Pair assms show ?thesis by (cases "wr_redirect wr") (simp_all split: option.split)
  qed (use Pair in simp)
qed

lemma client_hops_fuel:
  assumes "refuses_from k check" "k \<le> via + m" "k \<le> via + n" "0 < m" "0 < n"
  shows "client_hops m tr check req via w = client_hops n tr check req via w"
  using assms(2-)
proof (induction m arbitrary: n req via w)
  case (Suc m)
  then obtain n' where n: "n = Suc n'" by (cases n) auto
  show ?case unfolding n
  proof (rule client_hops_step)
    fix u w'
    assume "check u (Suc via) = None"
    then have "\<not> k \<le> Suc via" using assms(1) by (metis refuses_from_def)
    with Suc.prems n show "client_hops m tr check (req\<lparr>req_url := u\<rparr>) (Suc via) w' =
        client_hops n' tr check (req\<lparr>req_url := u\<rparr>) (Suc via) w'"
      by (intro Suc.IH) auto
  qed
qed simp

text \<open>Every URL after the first one has passed the check.\<close>

lemma client_hops_checked:
  "client_hops n tr check req via w = (r, us, w') \<Longrightarrow>
   \<forall>u\<in>set (tl us). \<exists>k. check u k = None \<and> via < k"
proof (induction n arbitrary: req via w r us w')
  case (Suc n)
  show ?case
  proof (cases "\<exists>wr w1 u. tr req w = (Inr wr, w1) \<and> wr_redirect wr = Some u \<and> check u (Suc via) = None")
    case True
    then obtain wr w1 u where t: "tr req w = (Inr wr, w1)" "wr_redirect wr = Some u" "check u (Suc via) = None"
      by blast
    obtain r' us' w'' where h: "client_hops n tr check (req\<lparr>req_url := u\<rparr>) (Suc via) w1 = (r', us', w'')"
      by (metis prod_cases3)
    with t Suc.prems have us: "us = req_url req # us'" by simp
    have hd: "us' = [] \<or> hd us' = u"
      using h by (cases n) (auto split: prod.splits sum.splits option.splits)
    have "\<forall>u\<in>set (tl us'). \<exists>k. check u k = None \<and> via < k"
      using Suc.IH [OF h] by (meson Suc_lessD)
    with hd t(3) us show ?thesis by (cases us') auto
  next
    case False
    then have "length us \<le> 1"
      using Suc.prems by (auto split: prod.splits sum.splits option.splits)
    then show ?thesis by (cases us) auto
  qed
qed simp

text \<open>At most \<open>k\<close> requests are made when the check refuses from the \<open>k\<close>-th redirect on.\<close>

lemma client_hops_length:
  assumes "refuses_from k check" "via < k"
  shows "client_hops n tr check req via w = (r, us, w') \<Longrightarrow> length us \<le> k - via"
  using assms(2)
proof (induction n arbitrary: req via w r us w')
  case (Suc n)
  obtain res w1 where t: "tr req w = (res, w1)" by force
  show ?case
  proof (cases "\<exists>wr u. res = Inr wr \<and> wr_redirect wr = Some u \<and> check u (Suc via) = None")
    case True
    then obtain wr u where u: "res = Inr wr" "wr_redirect wr = Some u" "check u (Suc via) = None" by blast
    then have "Suc via < k" using assms(1) by (metis refuses_from_def not_less)
    obtain r' us' w'' where h: "client_hops n tr check (req\<lparr>req_url := u\<rparr>) (Suc via) w1 = (r', us', w'')" by (metis prod_cases3)
    from Suc.IH [OF h \<open>Suc via < k\<close>] h t u Suc.prems(1) \<open>Suc via < k\<close> show ?thesis by auto
  next
    case False
    then have "length us \<le> 1" using Suc.prems(1) t by (auto split: sum.splits option.splits)
    with Suc.prems(2) show ?thesis by simp
  qed
qed simp

text \<open>A transport that answers alike whatever the body of the request makes a client that does.\<close>

lemma client_hops_body:
  assumes "\<And>req b1 b2 w. tr (req\<lparr>req_body := b1\<rparr>) w = tr (req\<lparr>req_body := b2\<rparr>) w"
  shows "client_hops n tr check (req\<lparr>req_body := b1\<rparr>) via w = client_hops n tr check (req\<lparr>req_body := b2\<rparr>) via w"
proof (induction n arbitrary: req via w)
  case (Suc n)
  have h: "client_hops n tr check (req\<lparr>req_body := b1, req_url := u\<rparr>) k w' =
      client_hops n tr check (req\<lparr>req_body := b2, req_url := u\<rparr>) k w'" for u k w'
    using Suc.IH [of "req\<lparr>req_url := u\<rparr>" k w'] by (cases req) simp
  have u: "req_url (req\<lparr>req_body := b\<rparr>) = req_url req" for b by simp
  show ?case unfolding client_hops.simps assms [of b1 req w b2] u h by (rule refl)
qed simp

lemma http_do_body:
  assumes "\<And>req b1 b2 w. tr (req\<lparr>req_body := b1\<rparr>) w = tr (req\<lparr>req_body := b2\<rparr>) w"
  shows "http_do tr c (req\<lparr>req_body := b1\<rparr>) w = http_do tr c (req\<lparr>req_body := b2\<rparr>) w"
  unfolding http_do_def client_do_def client_hops_body [where tr = tr and ?b1.0 = b1 and ?b2.0 = b2, OF assms] by (rule refl)

end
