(* ===== verification/Verifier.thy ===== *)
theory Verifier
  imports Policy Sha2 GoHttp
begin

text \<open>
  The attestation verifier (internal/attestation/verifier.go): it fetches nonce-bound evidence from
  the Gateway and validates it against the policy in force.
  The AWS Nitro document verifier is a third-party package, so it is a parameter
  (\<open>nitro\<close>): what it says about a document, or an error. The clock, the random source and the
  network are operations on an opaque world.
\<close>

section \<open>Constants and data\<close>

definition nonceBytes :: nat where "nonceBytes = 32"
definition hpkePublicKeyBytes :: nat where "hpkePublicKeyBytes = 32"
definition maxAttestationResponse :: int where "maxAttestationResponse = 1048576"
definition expectedAWSRootFingerprint :: string where
  "expectedAWSRootFingerprint = ''641a0321a3e244efe456463195d606317ed7cdcc3c1756e09893f3c68f79bb5b''"
definition defaultMaximumAge :: duration where "defaultMaximumAge = 2 * minute"
definition defaultMaximumFutureSkew :: duration where "defaultMaximumFutureSkew = 30 * second"

record endpoint_response =
  ep_document :: string
  ep_format :: string
  ep_encoding :: string
  ep_user_data :: string
  ep_user_data_encoding :: string
  ep_hpke_public_key :: string
  ep_hpke_public_key_encoding :: string
  ep_manifest :: bytes

record fetched_evidence =
  fe_document :: bytes
  fe_manifest :: bytes
  fe_user_data :: bytes
  fe_public_key_copy :: bytes

record manifest_claims =
  mc_schema_version :: int
  mc_profile :: string
  mc_workload :: string
  mc_source_revision :: string
  mc_ingress_e2ee :: bytes

record proof_data =
  pf_document :: bytes
  pf_manifest :: bytes
  pf_nonce :: bytes
  pf_module_id :: string
  pf_pcrs :: "nat \<Rightarrow> bytes option"
  pf_root_fingerprint :: string
  pf_source_revision :: string
  pf_workload :: string
  pf_profile :: string
  pf_e2ee :: e2ee_policy

record evidence =
  ev_public_key :: bytes
  ev_attested_at :: time
  ev_expires_at :: time
  ev_proof :: proof_data

text \<open>The fields of \<open>awsnitroverifier.ValidationResult\<close> the code reads.\<close>

record nitro_document =
  nd_module_id :: string
  nd_timestamp :: "64 word"
  nd_pcrs :: "nat \<Rightarrow> bytes option"

record nitro_result =
  nr_valid :: bool
  nr_errors :: "error option list"
  nr_chain_trusted :: bool
  nr_root_fingerprint :: string
  nr_document :: "nitro_document option"
  nr_nonce :: bytes
  nr_user_data :: bytes
  nr_public_key :: bytes

type_synonym nitro = "bytes \<Rightarrow> nitro_result option result"

record verifier =
  v_endpoint :: string
  v_policy :: policy
  v_client :: http_client
  v_max_age :: duration
  v_max_future_skew :: duration

text \<open>What a verification asks of its surroundings.\<close>

record 'w attest_env =
  ae_random :: "nat \<Rightarrow> 'w \<Rightarrow> bytes result \<times> 'w"
  ae_transport :: "'w transport"
  ae_now :: "'w \<Rightarrow> time \<times> 'w"
  ae_nitro :: "'w \<Rightarrow> nitro \<times> 'w"

section \<open>Construction\<close>

definition validateEndpointURL :: "string \<Rightarrow> string \<Rightarrow> unit result" where
  "validateEndpointURL raw expectedPath = (case ParseRequestURI raw of
     Inl e \<Rightarrow> Inl (Wrapf ''invalid attestation endpoint: '' e [])
   | Inr u \<Rightarrow>
      (if url_scheme u \<noteq> ''https'' \<or> url_host u = [] \<or> url_opaque u \<noteq> [] \<or> url_path u \<noteq> expectedPath \<or>
          url_raw_path u \<noteq> [] \<or> url_user u \<or> url_raw_query u \<noteq> [] \<or> url_force_query u \<or> url_fragment u \<noteq> []
       then Inl (Msg (''attestation endpoint must be an exact HTTPS URL ending in '' @ expectedPath))
       else Inr ()))"

definition reject_redirects :: "string \<Rightarrow> redirect_check" where
  "reject_redirects msg u via = Some (Msg msg)"

definition NewVerifier :: "string \<Rightarrow> policy option \<Rightarrow> http_client option \<Rightarrow> verifier result" where
  "NewVerifier endpoint pol client = (case validateEndpointURL endpoint ''/v1/attestation'' of
     Inl e \<Rightarrow> Inl e
   | Inr _ \<Rightarrow> (case pol of
       None \<Rightarrow> Inl (Msg ''trust policy is required'')
     | Some p \<Rightarrow> (case policy_validate p of
         Inl e \<Rightarrow> Inl e
       | Inr policyCopy \<Rightarrow>
          (let c = (case client of
             None \<Rightarrow> \<lparr>hc_check_redirect = Some (reject_redirects ''attestation redirects are not allowed'')\<rparr>
           | Some c \<Rightarrow> c)
           in if hc_check_redirect c = None then Inl (Msg ''attestation HTTP client must reject redirects'')
              else Inr \<lparr>v_endpoint = endpoint, v_policy = policyCopy, v_client = c,
                     v_max_age = defaultMaximumAge, v_max_future_skew = defaultMaximumFutureSkew\<rparr>))))"

section \<open>Manifest claims\<close>

definition zero_claims :: manifest_claims where
  "zero_claims = \<lparr>mc_schema_version = 0, mc_profile = [], mc_workload = [], mc_source_revision = [],
     mc_ingress_e2ee = []\<rparr>"

definition ingress_fields :: "manifest_claims fields" where
  "ingress_fields = [(''e2ee'', field mc_ingress_e2ee (\<lambda>x. mc_ingress_e2ee_update (\<lambda>_. x)) decode_raw)]"

definition claims_fields :: "manifest_claims fields" where
  "claims_fields =
    [(''schema_version'', field mc_schema_version (\<lambda>x. mc_schema_version_update (\<lambda>_. x)) decode_int),
     (''profile'', field mc_profile (\<lambda>x. mc_profile_update (\<lambda>_. x)) decode_string),
     (''workload'', field mc_workload (\<lambda>x. mc_workload_update (\<lambda>_. x)) decode_string),
     (''source_revision'', field mc_source_revision (\<lambda>x. mc_source_revision_update (\<lambda>_. x)) decode_string),
     (''ingress'', decode_struct False ingress_fields)]"

definition validateManifestAgainst :: "policy \<Rightarrow> bytes \<Rightarrow> release result" where
  "validateManifestAgainst pol raw =
     (case json_unmarshal (decode_struct False claims_fields) zero_claims raw of
       Inl e \<Rightarrow> Inl (Wrapf ''decode attested manifest: '' e [])
     | Inr m \<Rightarrow>
       (if mc_schema_version m \<noteq> pol_manifest_schema_version pol
        then Inl (Msg ''attested manifest schema_version does not match the trust policy'')
        else if mc_workload m \<noteq> pol_workload pol
        then Inl (Msg ''attested workload does not match the trust policy'')
        else if mc_profile m \<noteq> pol_profile pol
        then Inl (Msg ''attested profile does not match the trust policy'')
        else if mc_ingress_e2ee m = [] \<or> mc_ingress_e2ee m = ''null''
        then Inl (Msg ''attested manifest is missing ingress.e2ee'')
        else (case DecodeStrict (decode_struct True e2ee_fields) zero_e2ee (mc_ingress_e2ee m) of
          Inl e \<Rightarrow> Inl (Wrapf ''decode attested ingress.e2ee: '' e [])
        | Inr e2ee \<Rightarrow>
          (if e2ee \<noteq> pol_e2ee pol
           then Inl (Msg ''attested ingress.e2ee does not match the trust policy'')
           else (case releaseFor pol (mc_source_revision m) of
             None \<Rightarrow> Inl (Wrapf [] (Sent UnpinnedRelease) ('': '' @ mc_source_revision m))
           | Some rel \<Rightarrow> Inr rel)))))"

section \<open>Fetching\<close>

definition decodeCanonicalBase64 :: "string \<Rightarrow> bytes result" where
  "decodeCanonicalBase64 encoded = (case b64_std_decode True encoded of
     Inl _ \<Rightarrow> Inl (Msg ''non-canonical base64'')
   | Inr decoded \<Rightarrow> (if b64_std_encode decoded \<noteq> encoded then Inl (Msg ''non-canonical base64'') else Inr decoded))"

definition decodeCanonicalHex :: "string \<Rightarrow> nat \<Rightarrow> bytes result" where
  "decodeCanonicalHex encoded n =
     (if length encoded \<noteq> n * 2 then Inl (Msg ''invalid encoded size'')
      else (case hex_decode encoded of
        Inl _ \<Rightarrow> Inl (Msg ''non-canonical hexadecimal'')
      | Inr decoded \<Rightarrow> (if hex_encode decoded \<noteq> encoded then Inl (Msg ''non-canonical hexadecimal'') else Inr decoded)))"

definition zero_endpoint_response :: endpoint_response where
  "zero_endpoint_response = \<lparr>ep_document = [], ep_format = [], ep_encoding = [], ep_user_data = [],
     ep_user_data_encoding = [], ep_hpke_public_key = [], ep_hpke_public_key_encoding = [], ep_manifest = []\<rparr>"

definition endpoint_fields :: "endpoint_response fields" where
  "endpoint_fields =
    [(''document'', field ep_document (\<lambda>x. ep_document_update (\<lambda>_. x)) decode_string),
     (''format'', field ep_format (\<lambda>x. ep_format_update (\<lambda>_. x)) decode_string),
     (''encoding'', field ep_encoding (\<lambda>x. ep_encoding_update (\<lambda>_. x)) decode_string),
     (''user_data'', field ep_user_data (\<lambda>x. ep_user_data_update (\<lambda>_. x)) decode_string),
     (''user_data_encoding'', field ep_user_data_encoding (\<lambda>x. ep_user_data_encoding_update (\<lambda>_. x)) decode_string),
     (''hpke_public_key'', field ep_hpke_public_key (\<lambda>x. ep_hpke_public_key_update (\<lambda>_. x)) decode_string),
     (''hpke_public_key_encoding'',
        field ep_hpke_public_key_encoding (\<lambda>x. ep_hpke_public_key_encoding_update (\<lambda>_. x)) decode_string),
     (''manifest'', field ep_manifest (\<lambda>x. ep_manifest_update (\<lambda>_. x)) decode_raw)]"

definition attestation_request :: "string \<Rightarrow> bytes \<Rightarrow> http_request" where
  "attestation_request endpoint nonce =
     (let h0 = header_set [] ''Accept'' ''application/json'';
          h1 = header_set h0 ''Content-Type'' ''application/json'';
          h2 = header_set h1 ''User-Agent'' ''nexus-proxy/1''
      in \<lparr>req_method = ''POST'', req_url = endpoint, req_header = h2,
          req_body = enc_object [(''nonce'', enc_string (b64_rawurl_encode nonce))]\<rparr>)"

text \<open>The checks on the decoded payload, from its format to its key.\<close>

definition check_payload :: "endpoint_response \<Rightarrow> fetched_evidence result" where
  "check_payload p =
     (if ep_format p \<noteq> ''aws-nitro-cose-sign1'' \<or> ep_encoding p \<noteq> ''base64''
      then Inl (Msg ''unsupported attestation format or encoding'')
      else if ep_user_data_encoding p \<noteq> ''sha384-hex''
      then Inl (Msg ''unsupported attestation user_data encoding'')
      else if ep_hpke_public_key_encoding p \<noteq> ''raw-x25519-hex''
      then Inl (Msg ''unsupported attestation HPKE public-key encoding'')
      else if ep_manifest p = [] \<or> \<not> json_valid (ep_manifest p) \<or> ep_manifest p = ''null''
      then Inl (Msg ''attestation response contains an invalid manifest'')
      else (case decodeCanonicalBase64 (ep_document p) of
        Inl _ \<Rightarrow> Inl (Msg ''attestation response contains an invalid document'')
      | Inr document \<Rightarrow>
        (if document = [] then Inl (Msg ''attestation response contains an invalid document'')
         else (case decodeCanonicalHex (ep_user_data p) 48 of
           Inl _ \<Rightarrow> Inl (Msg ''attestation response contains invalid user_data'')
         | Inr userData \<Rightarrow> (case decodeCanonicalHex (ep_hpke_public_key p) hpkePublicKeyBytes of
             Inl _ \<Rightarrow> Inl (Msg ''attestation response contains an invalid HPKE public key'')
           | Inr key \<Rightarrow>
             (if allZero key then Inl (Msg ''attestation response contains an invalid HPKE public key'')
              else Inr \<lparr>fe_document = document, fe_manifest = ep_manifest p, fe_user_data = userData,
                     fe_public_key_copy = key\<rparr>))))))"

text \<open>The response to an attestation request, from its status to the checked payload.\<close>

definition read_attestation_response :: "http_response \<Rightarrow> fetched_evidence result" where
  "read_attestation_response r =
     (if resp_status r \<noteq> 200
      then Inl (Msg (''attestation endpoint returned HTTP '' @ dec_int (resp_status r)))
      else if parse_media_type (header_get (resp_header r) ''Content-Type'') \<noteq> Some ''application/json''
      then Inl (Msg ''attestation endpoint returned a non-JSON content type'')
      else (case ReadAllLimited (resp_body r) maxAttestationResponse of
        Inl e \<Rightarrow> Inl (Wrapf ''read attestation response: '' e [])
      | Inr body \<Rightarrow> (case DecodeStrict (decode_struct True endpoint_fields) zero_endpoint_response body of
          Inl e \<Rightarrow> Inl (Wrapf ''decode attestation response: '' e [])
        | Inr payload \<Rightarrow> check_payload payload)))"

definition fetch :: "'w attest_env \<Rightarrow> verifier \<Rightarrow> bytes \<Rightarrow> 'w \<Rightarrow> fetched_evidence result \<times> 'w" where
  "fetch env v nonce w =
     (case http_do (ae_transport env) (v_client v) (attestation_request (v_endpoint v) nonce) w of
       (Inl e, w') \<Rightarrow> (Inl (Wrapf ''request Gateway attestation: '' e []), w')
     | (Inr r, w') \<Rightarrow> (read_attestation_response r, w'))"

section \<open>Validation\<close>

fun join_messages :: "string list \<Rightarrow> string" where
  "join_messages [] = []"
| "join_messages [m] = m"
| "join_messages (m # n # ms) = m @ '' '' @ join_messages (n # ms)"

definition validationErrors :: "error option list \<Rightarrow> string" where
  "validationErrors items =
     (if items = [] then ''unspecified validation failure''
      else (let messages = map error_text (List.map_filter id items)
        in if messages = [] then ''unspecified validation failure''
           else ''['' @ join_messages messages @ '']''))"

text \<open>The loop over the measurement indices: the first one that is missing, malformed or different.\<close>

fun check_pcrs :: "(nat \<Rightarrow> bytes option) \<Rightarrow> (nat \<Rightarrow> bytes option) \<Rightarrow> string \<Rightarrow> nat list \<Rightarrow> error option" where
  "check_pcrs actuals expected revision [] = None"
| "check_pcrs actuals expected revision (i # is) = (case actuals i of
     None \<Rightarrow> Some (Msg (''attestation PCR'' @ dec_nat i @ '' is missing, malformed, or unsafe''))
   | Some a \<Rightarrow>
      (if length a \<noteq> pcrBytes \<or> allZero a
       then Some (Msg (''attestation PCR'' @ dec_nat i @ '' is missing, malformed, or unsafe''))
       else if expected i \<noteq> Some a
       then Some (Msg (''attestation PCR'' @ dec_nat i @ '' does not match the pinned measurement for release '' @ revision))
       else check_pcrs actuals expected revision is))"

text \<open>The checks on what the document verifier returned; the result is the document.\<close>

definition check_nitro_result ::
    "nitro_result option result \<Rightarrow> bytes \<Rightarrow> bytes \<Rightarrow> bytes \<Rightarrow> (nitro_result \<times> nitro_document) result" where
  "check_nitro_result res nonce manifestDigest publicKeyCopy = (case res of
     Inl e \<Rightarrow> Inl (Wrapf ''parse attestation document: '' e [])
   | Inr None \<Rightarrow> Inl (Msg ''attestation verifier returned no result'')
   | Inr (Some result) \<Rightarrow>
      (if \<not> nr_valid result
       then Inl (Msg (''AWS Nitro attestation validation failed: '' @ validationErrors (nr_errors result)))
       else if \<not> nr_chain_trusted result \<or> nr_root_fingerprint result \<noteq> expectedAWSRootFingerprint
       then Inl (Msg ''attestation certificate chain is not rooted in the expected AWS Nitro CA'')
       else (case nr_document result of
         None \<Rightarrow> Inl (Msg ''attestation document is missing decoded fields'')
       | Some doc \<Rightarrow>
         (if nr_nonce result \<noteq> nonce \<or> length (nr_nonce result) \<noteq> nonceBytes
          then Inl (Msg ''attestation nonce does not match the request'')
          else if nr_user_data result \<noteq> manifestDigest \<or> length (nr_user_data result) \<noteq> 48
          then Inl (Msg ''signed user_data does not match SHA-384(manifest)'')
          else if length (nr_public_key result) \<noteq> hpkePublicKeyBytes \<or> allZero (nr_public_key result)
          then Inl (Msg ''signed HPKE public key is missing or malformed'')
          else if nr_public_key result \<noteq> publicKeyCopy
          then Inl (Msg ''response HPKE public key does not match the signed attestation key'')
          else if unat (nd_timestamp doc) > 2 ^ 63 - 1
          then Inl (Msg ''attestation timestamp is out of range'')
          else Inr (result, doc)))))"

definition retained_pcrs :: "(nat \<Rightarrow> bytes option) \<Rightarrow> nat \<Rightarrow> bytes option" where
  "retained_pcrs m i = (if i \<in> {0, 1, 2} then m i else None)"

definition validate :: "verifier \<Rightarrow> nitro \<Rightarrow> fetched_evidence option \<Rightarrow> bytes \<Rightarrow> time \<Rightarrow> evidence result" where
  "validate v nitro fetched_opt nonce now = (case fetched_opt of
     None \<Rightarrow> Inl (Msg ''attestation response is nil'')
   | Some fetched \<Rightarrow>
     (if length nonce \<noteq> nonceBytes \<or> now = 0 \<or> v_max_age v \<le> 0 \<or> v_max_future_skew v < 0
      then Inl (Msg ''invalid attestation verifier state'')
      else (let pol = v_policy v; manifestDigest = sha384 (fe_manifest fetched) in
        if fe_user_data fetched \<noteq> manifestDigest
        then Inl (Msg ''response user_data does not match SHA-384(manifest)'')
        else (case validateManifestAgainst pol (fe_manifest fetched) of
          Inl e \<Rightarrow> Inl e
        | Inr rel \<Rightarrow>
          (case check_nitro_result (nitro (fe_document fetched)) nonce manifestDigest (fe_public_key_copy fetched) of
            Inl e \<Rightarrow> Inl e
          | Inr (result, doc) \<Rightarrow>
            (let attestedAt = unix_milli (sint (nd_timestamp doc)) in
             if attestedAt > now + v_max_future_skew v
             then Inl (Msg ''attestation timestamp is too far in the future'')
             else if attestedAt < now - v_max_age v
             then Inl (Msg ''attestation timestamp is stale'')
             else (case check_pcrs (nd_pcrs doc) (expectedPCRs rel) (rel_source_revision rel) [0, 1, 2] of
               Some e \<Rightarrow> Inl e
             | None \<Rightarrow> Inr
                 \<lparr>ev_public_key = nr_public_key result,
                  ev_attested_at = attestedAt,
                  ev_expires_at = attestedAt + v_max_age v,
                  ev_proof =
                    \<lparr>pf_document = fe_document fetched,
                     pf_manifest = fe_manifest fetched,
                     pf_nonce = nr_nonce result,
                     pf_module_id = nd_module_id doc,
                     pf_pcrs = retained_pcrs (nd_pcrs doc),
                     pf_root_fingerprint = nr_root_fingerprint result,
                     pf_source_revision = rel_source_revision rel,
                     pf_workload = pol_workload pol,
                     pf_profile = pol_profile pol,
                     pf_e2ee = pol_e2ee pol\<rparr>\<rparr>)))))))"

definition Verify :: "'w attest_env \<Rightarrow> verifier \<Rightarrow> 'w \<Rightarrow> evidence result \<times> 'w" where
  "Verify env v w = (case ae_random env nonceBytes w of
     (Inl e, w1) \<Rightarrow> (Inl (Wrapf ''generate attestation nonce: '' e []), w1)
   | (Inr nonce, w1) \<Rightarrow> (case fetch env v nonce w1 of
       (Inl e, w2) \<Rightarrow> (Inl e, w2)
     | (Inr fetched, w2) \<Rightarrow>
       (case ae_now env w2 of (now, w3) \<Rightarrow>
         (case ae_nitro env w3 of (nitro, w4) \<Rightarrow> (validate v nitro (Some fetched) nonce now, w4)))))"

section \<open>The policy in force\<close>

definition MaximumAge :: "verifier \<Rightarrow> duration" where
  "MaximumAge v = v_max_age v"

definition SetPolicy :: "verifier \<Rightarrow> policy option \<Rightarrow> error option \<times> verifier" where
  "SetPolicy v pol = (case pol of
     None \<Rightarrow> (Some (Msg ''trust policy is required''), v)
   | Some p \<Rightarrow> (case policy_validate p of
       Inl e \<Rightarrow> (Some e, v)
     | Inr replacement \<Rightarrow> (None, v\<lparr>v_policy := replacement\<rparr>)))"

definition PolicySnapshot :: "verifier \<Rightarrow> policy" where
  "PolicySnapshot v = v_policy v"

section \<open>What acceptance means\<close>

lemma validateManifestAgainst_Inr:
  assumes "validateManifestAgainst pol raw = Inr rel"
  obtains m where
    "json_unmarshal (decode_struct False claims_fields) zero_claims raw = Inr m"
    "mc_schema_version m = pol_manifest_schema_version pol" "mc_workload m = pol_workload pol"
    "mc_profile m = pol_profile pol"
    "DecodeStrict (decode_struct True e2ee_fields) zero_e2ee (mc_ingress_e2ee m) = Inr (pol_e2ee pol)"
    "releaseFor pol (mc_source_revision m) = Some rel"
  using assms
  by (auto simp: validateManifestAgainst_def split: sum.splits if_splits option.splits)

lemma check_nitro_result_Inr:
  assumes "check_nitro_result res nonce digest key = Inr (result, doc)"
  shows "res = Inr (Some result) \<and> nr_valid result \<and> nr_chain_trusted result \<and>
    nr_root_fingerprint result = expectedAWSRootFingerprint \<and> nr_document result = Some doc \<and>
    nr_nonce result = nonce \<and> length nonce = nonceBytes \<and> nr_user_data result = digest \<and>
    nr_public_key result = key \<and> length key = hpkePublicKeyBytes \<and> \<not> allZero key \<and>
    unat (nd_timestamp doc) < 2 ^ 63"
  using assms by (auto simp: check_nitro_result_def split: sum.splits option.splits if_splits)

lemma check_pcrs_None:
  "check_pcrs actuals expected revision is = None \<longleftrightarrow>
     (\<forall>i\<in>set is. \<exists>a. actuals i = Some a \<and> length a = pcrBytes \<and> \<not> allZero a \<and> expected i = Some a)"
  by (induction "is") (auto split: option.splits)

lemma sint_small: "unat (t :: 64 word) < 2 ^ 63 \<Longrightarrow> sint t = int (unat t)"
proof -
  assume "unat t < 2 ^ 63"
  then have "uint t < 2 ^ 63" by (simp add: unat_eq_nat_uint nat_less_iff del: nat_uint_eq)
  moreover have "0 \<le> uint t" by simp
  ultimately have "sint t = uint t" by (simp add: sint_uint signed_take_bit_int_eq_self_iff order_trans [of _ 0] del: word_of_int_uint)
  then show ?thesis by simp
qed

text \<open>
  The declarative reading of \<open>validate\<close>: what must hold of the policy, the fetched evidence, the
  document verifier's answer and the clock.
\<close>

definition admissible :: "verifier \<Rightarrow> nitro \<Rightarrow> fetched_evidence \<Rightarrow> bytes \<Rightarrow> time \<Rightarrow>
    release \<Rightarrow> nitro_result \<Rightarrow> nitro_document \<Rightarrow> bool" where
  "admissible v nitro f nonce now rel result doc \<longleftrightarrow>
     length nonce = nonceBytes \<and> now \<noteq> 0 \<and> 0 < v_max_age v \<and> 0 \<le> v_max_future_skew v \<and>
     fe_user_data f = sha384 (fe_manifest f) \<and>
     validateManifestAgainst (v_policy v) (fe_manifest f) = Inr rel \<and>
     nitro (fe_document f) = Inr (Some result) \<and> nr_valid result \<and> nr_chain_trusted result \<and>
     nr_root_fingerprint result = expectedAWSRootFingerprint \<and> nr_document result = Some doc \<and>
     nr_nonce result = nonce \<and> nr_user_data result = sha384 (fe_manifest f) \<and>
     nr_public_key result = fe_public_key_copy f \<and> length (nr_public_key result) = hpkePublicKeyBytes \<and>
     \<not> allZero (nr_public_key result) \<and> unat (nd_timestamp doc) < 2 ^ 63 \<and>
     unix_milli (int (unat (nd_timestamp doc))) \<le> now + v_max_future_skew v \<and>
     now - v_max_age v \<le> unix_milli (int (unat (nd_timestamp doc))) \<and>
     (\<forall>i\<in>{0, 1, 2}. \<exists>a. nd_pcrs doc i = Some a \<and> length a = pcrBytes \<and> \<not> allZero a \<and> rel_pcrs rel i = Some a)"

definition evidence_of :: "verifier \<Rightarrow> fetched_evidence \<Rightarrow> release \<Rightarrow> nitro_result \<Rightarrow> nitro_document \<Rightarrow> evidence" where
  "evidence_of v f rel result doc =
     (let attestedAt = unix_milli (int (unat (nd_timestamp doc))) in
      \<lparr>ev_public_key = nr_public_key result, ev_attested_at = attestedAt,
       ev_expires_at = attestedAt + v_max_age v,
       ev_proof = \<lparr>pf_document = fe_document f, pf_manifest = fe_manifest f, pf_nonce = nr_nonce result,
         pf_module_id = nd_module_id doc, pf_pcrs = retained_pcrs (nd_pcrs doc),
         pf_root_fingerprint = nr_root_fingerprint result, pf_source_revision = rel_source_revision rel,
         pf_workload = pol_workload (v_policy v), pf_profile = pol_profile (v_policy v),
         pf_e2ee = pol_e2ee (v_policy v)\<rparr>\<rparr>)"

lemma validate_sound:
  assumes "validate v nitro (Some f) nonce now = Inr ev"
  obtains rel result doc where "admissible v nitro f nonce now rel result doc" "ev = evidence_of v f rel result doc"
proof -
  have g: "length nonce = nonceBytes" "now \<noteq> 0" "0 < v_max_age v" "0 \<le> v_max_future_skew v"
    "fe_user_data f = sha384 (fe_manifest f)"
    using assms by (auto simp: validate_def Let_def split: if_splits)
  obtain rel where rel: "validateManifestAgainst (v_policy v) (fe_manifest f) = Inr rel"
    using assms by (auto simp: validate_def Let_def split: if_splits sum.splits)
  obtain result doc where c: "check_nitro_result (nitro (fe_document f)) nonce (sha384 (fe_manifest f))
      (fe_public_key_copy f) = Inr (result, doc)"
    using assms rel by (auto simp: validate_def Let_def split: if_splits sum.splits)
  note n = check_nitro_result_Inr [OF c]
  then have s: "sint (nd_timestamp doc) = int (unat (nd_timestamp doc))" by (simp add: sint_small)
  have p: "check_pcrs (nd_pcrs doc) (expectedPCRs rel) (rel_source_revision rel) [0, 1, 2] = None"
    and t: "unix_milli (int (unat (nd_timestamp doc))) \<le> now + v_max_future_skew v"
      "now - v_max_age v \<le> unix_milli (int (unat (nd_timestamp doc)))"
    and ev: "ev = evidence_of v f rel result doc"
    using assms rel c g s
    by (auto simp: validate_def Let_def evidence_of_def simp del: check_pcrs.simps split: if_splits option.splits)
  have "admissible v nitro f nonce now rel result doc"
    using g rel n p t by (simp add: admissible_def check_pcrs_None expectedPCRs_def del: check_pcrs.simps)
  then show ?thesis using ev that by blast
qed

lemma validate_complete:
  assumes "admissible v nitro f nonce now rel result doc"
  shows "validate v nitro (Some f) nonce now = Inr (evidence_of v f rel result doc)"
proof -
  have s: "sint (nd_timestamp doc) = int (unat (nd_timestamp doc))"
    using assms by (simp add: admissible_def sint_small)
  have c: "check_nitro_result (nitro (fe_document f)) nonce (sha384 (fe_manifest f)) (fe_public_key_copy f)
      = Inr (result, doc)"
    using assms by (auto simp: admissible_def check_nitro_result_def)
  have p: "check_pcrs (nd_pcrs doc) (expectedPCRs rel) (rel_source_revision rel) [0, 1, 2] = None"
    using assms by (simp add: admissible_def check_pcrs_None expectedPCRs_def del: check_pcrs.simps)
  show ?thesis
    using assms c p s
    by (simp add: admissible_def validate_def Let_def evidence_of_def del: check_pcrs.simps)
qed

lemma validate_iff:
  "validate v nitro (Some f) nonce now = Inr ev \<longleftrightarrow>
     (\<exists>rel result doc. admissible v nitro f nonce now rel result doc \<and> ev = evidence_of v f rel result doc)"
  using validate_sound validate_complete by metis

section \<open>The verifier's state\<close>

text \<open>A verifier whose policy is valid, whose windows are sane and whose client refuses every redirect.\<close>

definition wf_verifier :: "verifier \<Rightarrow> bool" where
  "wf_verifier v \<longleftrightarrow> wf_policy (v_policy v) \<and> 0 < v_max_age v \<and> 0 \<le> v_max_future_skew v \<and>
     hc_check_redirect (v_client v) \<noteq> None"

lemma NewVerifier_wf [inv_intros]: "NewVerifier ep p c = Inr v \<Longrightarrow> wf_verifier v"
  by (auto simp: NewVerifier_def wf_verifier_def Let_def defaultMaximumAge_def defaultMaximumFutureSkew_def
      duration_units split: sum.splits option.splits if_splits dest: policy_validate_Inr)

lemma SetPolicy_wf [inv_intros]: "wf_verifier v \<Longrightarrow> SetPolicy v p = (r, v') \<Longrightarrow> wf_verifier v'"
  by (auto simp: SetPolicy_def wf_verifier_def split: option.splits sum.splits dest: policy_validate_Inr)

lemma SetPolicy_frame:
  "SetPolicy v p = (r, v') \<Longrightarrow>
     v_endpoint v' = v_endpoint v \<and> v_client v' = v_client v \<and> v_max_age v' = v_max_age v \<and>
     v_max_future_skew v' = v_max_future_skew v \<and> (r \<noteq> None \<longrightarrow> v' = v)"
  by (auto simp: SetPolicy_def split: option.splits sum.splits)

definition accepted_policies :: "policy option list \<Rightarrow> policy list" where
  "accepted_policies ps = [q. Some p \<leftarrow> ps, Inr q \<leftarrow> [policy_validate p]]"

text \<open>Whatever sequence of policies is offered to \<open>SetPolicy\<close>, the policy in force is the last one that
  validated, in its validated form, and the policy before the sequence when none did.\<close>

theorem policy_in_force:
  "PolicySnapshot (fold (\<lambda>p v. snd (SetPolicy v p)) ps v) = last (PolicySnapshot v # accepted_policies ps)"
  by (induction ps arbitrary: v)
     (auto simp: PolicySnapshot_def accepted_policies_def SetPolicy_def split: option.splits sum.splits)

end
