(* ===== verification/Ledger.thy ===== *)
theory Ledger
  imports Sha2 Encoding
begin

text \<open>
  The verification ledger in memory (internal/ledger/ledger.go). A method of \<open>*Ledger\<close> holds the
  mutex from its first to its last access to the state, so each is one function on the state; the
  clock \<open>l.now()\<close> is an argument \<open>now\<close>. A nil \<open>*Ledger\<close> is \<open>None\<close>.
\<close>

section \<open>Data\<close>

definition maxAttestations :: nat where "maxAttestations = 64"
definition maxRequests :: nat where "maxRequests = 256"
definition OutcomeVerified :: string where "OutcomeVerified = ''verified''"
definition OutcomeRejected :: string where "OutcomeRejected = ''rejected''"
definition OutcomeEncrypted :: string where "OutcomeEncrypted = ''encrypted''"
definition OutcomeFailed :: string where "OutcomeFailed = ''failed''"

lemmas outcome_defs = OutcomeVerified_def OutcomeRejected_def OutcomeEncrypted_def OutcomeFailed_def

record check =
  ck_name :: string
  ck_passed :: bool
  ck_detail :: string

record attestation =
  at_id :: string
  at_outcome :: string
  at_verified_at :: time
  at_failure :: string
  at_attested_at :: time
  at_expires_at :: time
  at_module_id :: string
  at_hpke_public_key :: string
  at_nonce :: string
  at_pcr0 :: string
  at_pcr1 :: string
  at_pcr2 :: string
  at_source_revision :: string
  at_workload :: string
  at_profile :: string
  at_root_fingerprint :: string
  at_checks :: "check list"
  at_document_bytes :: int
  at_document :: bytes
  at_manifest :: bytes

record request =
  rq_id :: string
  rq_started_at :: time
  rq_duration_ms :: int
  rq_attestation_id :: string
  rq_outcome :: string
  rq_failure :: string
  rq_status_code :: int
  rq_request_bytes :: int
  rq_response_bytes :: int
  rq_streaming :: bool

record store =
  st_path :: string
  st_dirty :: bool

record ledger =
  l_attestations :: "attestation list"
  l_requests :: "request list"
  l_verified_total :: "64 word"
  l_rejected_total :: "64 word"
  l_encrypted_total :: "64 word"
  l_failed_total :: "64 word"
  l_store :: "store option"

record snapshot =
  sn_status :: string
  sn_generated_at :: time
  sn_verified_total :: "64 word"
  sn_rejected_total :: "64 word"
  sn_encrypted_total :: "64 word"
  sn_failed_total :: "64 word"
  sn_persistent :: bool
  sn_current :: "attestation option"
  sn_attestations :: "attestation list"
  sn_requests :: "request list"

definition zero_attestation :: attestation where
  "zero_attestation = \<lparr>at_id = [], at_outcome = [], at_verified_at = 0, at_failure = [], at_attested_at = 0,
     at_expires_at = 0, at_module_id = [], at_hpke_public_key = [], at_nonce = [], at_pcr0 = [], at_pcr1 = [],
     at_pcr2 = [], at_source_revision = [], at_workload = [], at_profile = [], at_root_fingerprint = [],
     at_checks = [], at_document_bytes = 0, at_document = [], at_manifest = []\<rparr>"

section \<open>Operations\<close>

text \<open>The code shifts the slice left in place, then overwrites its last entry.\<close>

definition appendCapped :: "'a list \<Rightarrow> 'a \<Rightarrow> nat \<Rightarrow> 'a list" where
  "appendCapped items x limit =
     (if length items < limit then items @ [x]
      else (tl items @ [last items])[length items - 1 := x])"

fun reversed_from :: "'a list \<Rightarrow> 'a list \<Rightarrow> nat \<Rightarrow> 'a list" where
  "reversed_from [] acc i = acc"
| "reversed_from (x # xs) acc i = reversed_from xs (acc[length acc - 1 - i := x]) (Suc i)"

text \<open>\<open>result := make([]T, len(items))\<close> is filled from its end.\<close>

definition reversed :: "'a \<Rightarrow> 'a list \<Rightarrow> 'a list" where
  "reversed zero items = reversed_from items (replicate (length items) zero) 0"

definition withoutEvidence :: "attestation list \<Rightarrow> attestation list" where
  "withoutEvidence items = map (\<lambda>a. a\<lparr>at_document := [], at_manifest := []\<rparr>) items"

definition NewLedger :: ledger where
  "NewLedger = \<lparr>l_attestations = [], l_requests = [], l_verified_total = 0, l_rejected_total = 0,
     l_encrypted_total = 0, l_failed_total = 0, l_store = None\<rparr>"

definition FingerprintKey :: "bytes \<Rightarrow> string" where
  "FingerprintKey publicKey = hex_encode (take 8 (sha256 publicKey))"

definition markDirty :: "ledger \<Rightarrow> ledger" where
  "markDirty l = (case l_store l of None \<Rightarrow> l | Some s \<Rightarrow> l\<lparr>l_store := Some (s\<lparr>st_dirty := True\<rparr>)\<rparr>)"

definition verified_record :: "attestation \<Rightarrow> bytes \<Rightarrow> bytes \<Rightarrow> time \<Rightarrow> attestation" where
  "verified_record record document manifest now =
     (let r = record\<lparr>at_outcome := OutcomeVerified, at_document := document, at_manifest := manifest,
                at_document_bytes := int (length document)\<rparr>
      in if at_verified_at r = 0 then r\<lparr>at_verified_at := now\<rparr> else r)"

definition RecordVerified ::
    "attestation \<Rightarrow> bytes \<Rightarrow> bytes \<Rightarrow> time \<Rightarrow> ledger option \<Rightarrow> ledger option" where
  "RecordVerified record document manifest now lo = (case lo of
     None \<Rightarrow> None
   | Some l \<Rightarrow> Some (markDirty (l\<lparr>
       l_verified_total := l_verified_total l + 1,
       l_attestations := appendCapped (l_attestations l) (verified_record record document manifest now)
         maxAttestations\<rparr>)))"

definition rejected_id :: "64 word \<Rightarrow> string" where
  "rejected_id n = ''rejected-'' @ hex_encode [char_of (unat (drop_bit 8 n) mod 256), char_of (unat n mod 256)]"

definition rejected_record :: "string \<Rightarrow> 64 word \<Rightarrow> time \<Rightarrow> attestation" where
  "rejected_record failure n now = zero_attestation\<lparr>at_id := rejected_id n, at_outcome := OutcomeRejected,
     at_verified_at := now, at_failure := failure\<rparr>"

definition RecordRejected :: "string \<Rightarrow> time \<Rightarrow> ledger option \<Rightarrow> ledger option" where
  "RecordRejected failure now lo = (case lo of
     None \<Rightarrow> None
   | Some l \<Rightarrow> (let n = l_rejected_total l + 1 in Some (markDirty (l\<lparr>
       l_rejected_total := n,
       l_attestations := appendCapped (l_attestations l) (rejected_record failure n now) maxAttestations\<rparr>))))"

definition RecordRequest :: "request \<Rightarrow> ledger option \<Rightarrow> ledger option" where
  "RecordRequest record lo = (case lo of
     None \<Rightarrow> None
   | Some l \<Rightarrow> (let l1 =
       (if rq_outcome record = OutcomeEncrypted then l\<lparr>l_encrypted_total := l_encrypted_total l + 1\<rparr>
        else l\<lparr>l_failed_total := l_failed_total l + 1\<rparr>)
     in Some (markDirty (l1\<lparr>l_requests := appendCapped (l_requests l1) record maxRequests\<rparr>))))"

definition zero_request :: request where
  "zero_request = \<lparr>rq_id = [], rq_started_at = 0, rq_duration_ms = 0, rq_attestation_id = [], rq_outcome = [],
     rq_failure = [], rq_status_code = 0, rq_request_bytes = 0, rq_response_bytes = 0, rq_streaming = False\<rparr>"

definition Snapshot :: "time \<Rightarrow> ledger \<Rightarrow> snapshot" where
  "Snapshot now l =
     (let atts = withoutEvidence (reversed zero_attestation (l_attestations l));
          s = \<lparr>sn_status = [], sn_generated_at = now, sn_verified_total = l_verified_total l,
               sn_rejected_total = l_rejected_total l, sn_encrypted_total = l_encrypted_total l,
               sn_failed_total = l_failed_total l, sn_persistent = l_store l \<noteq> None, sn_current = None,
               sn_attestations = atts, sn_requests = reversed zero_request (l_requests l)\<rparr>
      in if atts = [] then s\<lparr>sn_status := ''starting''\<rparr>
         else if at_outcome (hd atts) = OutcomeVerified
         then s\<lparr>sn_status := OutcomeVerified, sn_current := Some (hd atts)\<rparr>
         else s\<lparr>sn_status := OutcomeRejected\<rparr>)"

text \<open>The loop of \<open>Document\<close> from index \<open>n - 1\<close> down to 0.\<close>

fun document_from :: "attestation list \<Rightarrow> string \<Rightarrow> nat \<Rightarrow> (bytes \<times> bytes) option" where
  "document_from items ident 0 = None"
| "document_from items ident (Suc i) =
     (if at_id (items ! i) = ident \<and> at_document (items ! i) \<noteq> []
      then Some (at_document (items ! i), at_manifest (items ! i))
      else document_from items ident i)"

definition Document :: "string \<Rightarrow> ledger \<Rightarrow> (bytes \<times> bytes) option" where
  "Document ident l = document_from (l_attestations l) ident (length (l_attestations l))"

section \<open>Lists\<close>

text \<open>\<open>suffix_of n xs\<close>: the last \<open>n\<close> entries.\<close>

definition newest :: "nat \<Rightarrow> 'a list \<Rightarrow> 'a list" where
  "newest n xs = drop (length xs - n) xs"

lemma newest_length [simp]: "length (newest n xs) = min n (length xs)"
  by (simp add: newest_def)

lemma appendCapped_length: "0 < limit \<Longrightarrow> length items \<le> limit \<Longrightarrow> length (appendCapped items x limit) \<le> limit"
  by (cases items) (auto simp: appendCapped_def)

lemma appendCapped_full: "items \<noteq> [] \<Longrightarrow> limit \<le> length items \<Longrightarrow> appendCapped items x limit = tl items @ [x]"
  by (cases items rule: rev_cases) (auto simp: appendCapped_def list_update_append neq_Nil_conv)

lemma appendCapped_newest:
  assumes "0 < limit"
  shows "appendCapped (newest limit xs) x limit = newest limit (xs @ [x])"
proof (cases "length xs < limit")
  case True
  then show ?thesis by (simp add: appendCapped_def newest_def)
next
  case False
  have "appendCapped (newest limit xs) x limit = tl (newest limit xs) @ [x]"
    using False assms by (intro appendCapped_full) (auto simp: newest_def)
  then show ?thesis using False assms by (simp add: newest_def tl_drop drop_Suc Suc_diff_le)
qed

lemma appendCapped_foldl:
  "0 < limit \<Longrightarrow>
     foldl (\<lambda>acc x. appendCapped acc x limit) (newest limit ys) xs = newest limit (ys @ xs)"
  by (induction xs arbitrary: ys) (simp_all add: appendCapped_newest)

lemma reversed_from_rev:
  "length acc = i + length xs \<Longrightarrow> reversed_from xs acc i = rev xs @ drop (length xs) acc"
proof (induction xs arbitrary: acc i)
  case (Cons x xs)
  have "length acc - 1 - i = length xs" using Cons.prems by simp
  then show ?case
    using Cons.IH [of "acc[length acc - 1 - i := x]" "Suc i"] Cons.prems
    by (simp add: drop_update_swap) (simp add: Cons_nth_drop_Suc [symmetric])
qed simp

lemma reversed_rev [simp]: "reversed zero xs = rev xs"
  by (simp add: reversed_def reversed_from_rev)

lemma document_from_find:
  "n \<le> length items \<Longrightarrow> document_from items ident n =
     map_option (\<lambda>a. (at_document a, at_manifest a))
       (find (\<lambda>a. at_id a = ident \<and> at_document a \<noteq> []) (rev (take n items)))"
  by (induction items ident n rule: document_from.induct) (auto simp: take_Suc_conv_app_nth)

section \<open>The abstract history\<close>

text \<open>
  What the ledger promises: it is the end of the complete log of everything recorded, with the
  totals of that log (modulo \<open>2 ^ 64\<close>).
\<close>

datatype event =
    Verified attestation bytes bytes time
  | Rejected string time
  | Requested request

fun apply_event :: "event \<Rightarrow> ledger option \<Rightarrow> ledger option" where
  "apply_event (Verified r d m now) = RecordVerified r d m now"
| "apply_event (Rejected failure now) = RecordRejected failure now"
| "apply_event (Requested r) = RecordRequest r"

record history =
  hs_attestations :: "attestation list"
  hs_requests :: "request list"
  hs_verified :: nat
  hs_rejected :: nat
  hs_encrypted :: nat
  hs_failed :: nat

definition empty_history :: history where
  "empty_history = \<lparr>hs_attestations = [], hs_requests = [], hs_verified = 0, hs_rejected = 0,
     hs_encrypted = 0, hs_failed = 0\<rparr>"

fun log_event :: "event \<Rightarrow> history \<Rightarrow> history" where
  "log_event (Verified r d m now) h = h\<lparr>
     hs_verified := Suc (hs_verified h),
     hs_attestations := hs_attestations h @ [verified_record r d m now]\<rparr>"
| "log_event (Rejected failure now) h = h\<lparr>
     hs_rejected := Suc (hs_rejected h),
     hs_attestations := hs_attestations h @ [rejected_record failure (of_nat (Suc (hs_rejected h))) now]\<rparr>"
| "log_event (Requested r) h = (let h1 =
     (if rq_outcome r = OutcomeEncrypted then h\<lparr>hs_encrypted := Suc (hs_encrypted h)\<rparr>
      else h\<lparr>hs_failed := Suc (hs_failed h)\<rparr>)
     in h1\<lparr>hs_requests := hs_requests h1 @ [r]\<rparr>)"

definition represents :: "ledger \<Rightarrow> history \<Rightarrow> bool" where
  "represents l h \<longleftrightarrow>
     l_attestations l = newest maxAttestations (hs_attestations h) \<and>
     l_requests l = newest maxRequests (hs_requests h) \<and>
     l_verified_total l = of_nat (hs_verified h) \<and> l_rejected_total l = of_nat (hs_rejected h) \<and>
     l_encrypted_total l = of_nat (hs_encrypted h) \<and> l_failed_total l = of_nat (hs_failed h)"

lemma markDirty_frame [simp]:
  "l_attestations (markDirty l) = l_attestations l" "l_requests (markDirty l) = l_requests l"
  "l_verified_total (markDirty l) = l_verified_total l" "l_rejected_total (markDirty l) = l_rejected_total l"
  "l_encrypted_total (markDirty l) = l_encrypted_total l" "l_failed_total (markDirty l) = l_failed_total l"
  "(l_store (markDirty l) = None) = (l_store l = None)"
  by (simp_all add: markDirty_def split: option.splits)

lemma markDirty_dirty: "l_store (markDirty l) = Some s \<Longrightarrow> st_dirty s"
  by (auto simp: markDirty_def split: option.splits)

lemma appendCapped_att [simp]:
  "appendCapped (newest maxAttestations xs) x maxAttestations = newest maxAttestations (xs @ [x])"
  "appendCapped (newest maxRequests ys) y maxRequests = newest maxRequests (ys @ [y])"
  by (simp_all add: appendCapped_newest maxAttestations_def maxRequests_def)

lemma represents_step:
  "represents l h \<Longrightarrow> \<exists>l'. apply_event e (Some l) = Some l' \<and> represents l' (log_event e h) \<and>
     (l_store l' = None) = (l_store l = None)"
proof (cases e)
  case (Verified r d m now)
  assume "represents l h"
  with Verified show ?thesis by (simp add: represents_def RecordVerified_def add.commute)
next
  case (Rejected failure now)
  assume "represents l h"
  with Rejected show ?thesis by (simp add: represents_def RecordRejected_def Let_def add.commute)
next
  case (Requested r)
  assume "represents l h"
  with Requested show ?thesis by (simp add: represents_def RecordRequest_def Let_def add.commute)
qed

lemma represents_fold:
  "represents l h \<Longrightarrow> \<exists>l'. fold apply_event es (Some l) = Some l' \<and> represents l' (fold log_event es h) \<and>
     (l_store l' = None) = (l_store l = None)"
proof (induction es arbitrary: l h)
  case (Cons e es)
  from represents_step [OF Cons.prems, of e] obtain l1 where l1: "apply_event e (Some l) = Some l1 \<and>
      represents l1 (log_event e h) \<and> (l_store l1 = None) = (l_store l = None)" ..
  from l1 have "represents l1 (log_event e h)" by (elim conjE)
  from Cons.IH [OF this] obtain l' where l': "fold apply_event es (Some l1) = Some l' \<and>
      represents l' (fold log_event es (log_event e h)) \<and> (l_store l' = None) = (l_store l1 = None)" ..
  show ?case using l' l1 by (intro exI [of _ l']) simp
qed simp

lemma represents_new: "represents NewLedger empty_history"
  by (simp add: represents_def NewLedger_def empty_history_def newest_def)

lemma nil_ledger: "apply_event e None = None"
  by (cases e) (simp_all add: RecordVerified_def RecordRejected_def RecordRequest_def)

lemma nil_ledger_fold: "fold apply_event es None = None"
  by (induction es) (simp_all add: nil_ledger)

section \<open>The view\<close>

definition public_view :: "attestation \<Rightarrow> attestation" where
  "public_view a = a\<lparr>at_document := [], at_manifest := []\<rparr>"

lemma withoutEvidence_view: "withoutEvidence xs = map public_view xs"
  by (simp add: withoutEvidence_def public_view_def)

lemma Snapshot_lists [simp]:
  "sn_attestations (Snapshot now l) = map public_view (rev (l_attestations l))"
  "sn_requests (Snapshot now l) = rev (l_requests l)"
  by (simp_all add: Snapshot_def Let_def withoutEvidence_view)

lemma Snapshot_fields [simp]:
  "sn_generated_at (Snapshot now l) = now" "sn_verified_total (Snapshot now l) = l_verified_total l"
  "sn_rejected_total (Snapshot now l) = l_rejected_total l" "sn_encrypted_total (Snapshot now l) = l_encrypted_total l"
  "sn_failed_total (Snapshot now l) = l_failed_total l" "sn_persistent (Snapshot now l) = (l_store l \<noteq> None)"
  by (simp_all add: Snapshot_def Let_def)

lemma hd_rev_view: "xs \<noteq> [] \<Longrightarrow> hd (withoutEvidence (rev xs)) = public_view (last xs)"
  by (simp add: withoutEvidence_view hd_map hd_rev)

lemma Snapshot_status:
  "sn_status (Snapshot now l) =
     (if l_attestations l = [] then ''starting''
      else if at_outcome (last (l_attestations l)) = OutcomeVerified then OutcomeVerified else OutcomeRejected)"
  "sn_current (Snapshot now l) =
     (if l_attestations l \<noteq> [] \<and> at_outcome (last (l_attestations l)) = OutcomeVerified
      then Some (public_view (last (l_attestations l))) else None)"
proof -
  have o: "at_outcome (public_view a) = at_outcome a" for a by (simp add: public_view_def)
  show "sn_status (Snapshot now l) =
     (if l_attestations l = [] then ''starting''
      else if at_outcome (last (l_attestations l)) = OutcomeVerified then OutcomeVerified else OutcomeRejected)"
    "sn_current (Snapshot now l) =
     (if l_attestations l \<noteq> [] \<and> at_outcome (last (l_attestations l)) = OutcomeVerified
      then Some (public_view (last (l_attestations l))) else None)"
    using o [of "last (l_attestations l)"] hd_rev_view [of "l_attestations l"]
    by (auto simp: Snapshot_def Let_def withoutEvidence_view)
qed

lemma newest_append: "0 < n \<Longrightarrow> newest n (xs @ [x]) \<noteq> [] \<and> last (newest n (xs @ [x])) = x"
  by (auto simp: newest_def)

section \<open>Properties\<close>

text \<open>C27: Whatever is recorded, the ledger is the newest 64 attestations and the newest 256 requests of
  the complete log, with the log's totals modulo \<open>2 ^ 64\<close>.\<close>

theorem ledger_is_end_of_log:
  "\<exists>l. fold apply_event es (Some NewLedger) = Some l \<and> represents l (fold log_event es empty_history)"
  using represents_fold [OF represents_new, of es] by blast

text \<open>The exported snapshot has a current record exactly when the newest attempt was verified, and no
  record in it carries the evidence document or the manifest.\<close>

theorem snapshot_current:
  "sn_current (Snapshot now l) =
     (if l_attestations l \<noteq> [] \<and> at_outcome (last (l_attestations l)) = OutcomeVerified
      then Some (public_view (last (l_attestations l))) else None) \<and>
   list_all (\<lambda>a. at_document a = [] \<and> at_manifest a = []) (sn_attestations (Snapshot now l))"
  by (auto simp: Snapshot_status list_all_iff public_view_def)

text \<open>The evidence exported for an identifier is the document and the manifest of the newest attestation
  with that identifier that has a document.\<close>

theorem document_newest:
  "Document ident l = map_option (\<lambda>a. (at_document a, at_manifest a))
     (find (\<lambda>a. at_id a = ident \<and> at_document a \<noteq> []) (rev (l_attestations l)))"
  by (simp add: Document_def document_from_find)

end
