(* ===== verification/Describe.thy ===== *)
theory Describe
  imports Verifier Ledger
begin

text \<open>
  How verified evidence is described in the ledger (internal/confidential/describe.go), with
  \<open>time.Duration.Round\<close>.
\<close>

text \<open>\<open>d.Round(m)\<close>: to the nearest multiple of \<open>m\<close>, halves away from zero, saturating.\<close>

definition duration_round :: "duration \<Rightarrow> duration \<Rightarrow> duration" where
  "duration_round d m =
     (if m \<le> 0 then d
      else (let r = remt d m in
        if d < 0
        then (let r' = - r in
          if 2 * r' < m then d + r'
          else (let d1 = int64 (d - m + r') in if d1 < d then d1 else min_duration))
        else if 2 * r < m then d - r
        else (let d1 = int64 (d + m - r) in if d1 > d then d1 else max_duration)))"

definition humanDuration :: "duration \<Rightarrow> string" where
  "humanDuration d0 =
     (let d = duration_round d0 second in
      if d \<ge> minute \<and> remt d minute = 0
      then (let m = quot d minute in if m = 1 then ''1 minute'' else dec_int m @ '' minutes'')
      else dec_int (quot d second) @ '' seconds'')"

definition signedAgo :: "duration \<Rightarrow> string" where
  "signedAgo age =
     (if age < 5 * second then ''Signed just now''
      else ''Signed '' @ humanDuration age @ '' before it was checked'')"

text \<open>The first sixteen bytes and an ellipsis (U+2026).\<close>

definition short :: "string \<Rightarrow> string" where
  "short value =
     (if length value \<le> 16 then value else take 16 value @ [CHR 0xE2, CHR 0x80, CHR 0xA6])"

definition pcr_hex :: "(nat \<Rightarrow> bytes option) \<Rightarrow> nat \<Rightarrow> string" where
  "pcr_hex pcrs i = (case pcrs i of None \<Rightarrow> [] | Some p \<Rightarrow> hex_encode p)"

definition passed_check :: "string \<Rightarrow> string \<Rightarrow> check" where
  "passed_check name detail = \<lparr>ck_name = name, ck_passed = True, ck_detail = detail\<rparr>"

definition describe_checks :: "evidence \<Rightarrow> duration \<Rightarrow> check list" where
  "describe_checks ev age = (let proof = ev_proof ev in
    [passed_check ''Hardware signature''
       (''Signed by the TEE's hardware security module (AWS Nitro), module '' @ pf_module_id proof @
        ''. Only real hardware can produce this signature.''),
     passed_check ''AWS certificate chain''
       (''The signing certificate chains to the AWS Nitro root CA, SHA-256 '' @ short (pf_root_fingerprint proof) @ ''.''),
     passed_check ''Freshness: this proxy's nonce''
       ''The TEE signed the random 32-byte challenge this proxy generated, so the evidence cannot be a replay of an older attestation.'',
     passed_check ''Fresh proof''
       (signedAgo age @ ''. Proofs older than '' @ humanDuration (time_sub (ev_expires_at ev) (ev_attested_at ev)) @
        '' are refused, so an old one can't be reused.''),
     passed_check ''Code measurements PCR0, PCR1, PCR2''
       ''The measurements of the software running in the TEE match, byte for byte, the ones Dappnode signed for this Gateway release. Different code produces different measurements.'',
     passed_check ''Signed workload manifest''
       ''The TEE's signed user_data equals SHA-384 of its manifest, so the manifest below is covered by the hardware signature.'',
     passed_check ''Gateway source revision''
       (''The manifest declares source revision '' @ pf_source_revision proof @
        '', which is the revision this proxy is willing to trust.''),
     passed_check ''Encryption contract''
       (''The manifest declares '' @ e2ee_protocol (pf_e2ee proof) @ '' over '' @ e2ee_suite (pf_e2ee proof) @ '' on '' @
        e2ee_endpoint (pf_e2ee proof) @ '', with both request and response bodies encrypted.''),
     passed_check ''Key binding''
       ''The X25519 public key your request bodies are encrypted to is carried inside the signed document. Its private half exists only inside the TEE, so nothing in between can read them.''])"

definition describeEvidence :: "string \<Rightarrow> evidence \<Rightarrow> time \<Rightarrow> attestation \<times> bytes \<times> bytes" where
  "describeEvidence ident ev verifiedAt =
     (let proof = ev_proof ev;
          age0 = duration_round (time_sub verifiedAt (ev_attested_at ev)) second;
          age = (if age0 < 0 then 0 else age0)
      in (zero_attestation\<lparr>at_id := ident, at_verified_at := verifiedAt, at_attested_at := ev_attested_at ev,
            at_expires_at := ev_expires_at ev, at_module_id := pf_module_id proof,
            at_hpke_public_key := hex_encode (ev_public_key ev), at_nonce := hex_encode (pf_nonce proof),
            at_pcr0 := pcr_hex (pf_pcrs proof) 0, at_pcr1 := pcr_hex (pf_pcrs proof) 1,
            at_pcr2 := pcr_hex (pf_pcrs proof) 2, at_source_revision := pf_source_revision proof,
            at_workload := pf_workload proof, at_profile := pf_profile proof,
            at_root_fingerprint := pf_root_fingerprint proof, at_checks := describe_checks ev age\<rparr>,
          pf_document proof, pf_manifest proof))"

section \<open>Rounding\<close>

lemma quot_pos: "0 \<le> a \<Longrightarrow> 0 < b \<Longrightarrow> quot a b = a div b"
  by (simp add: quot_def)

lemma remt_pos: "0 \<le> a \<Longrightarrow> 0 < b \<Longrightarrow> remt a b = a mod b"
  by (simp add: remt_def quot_pos minus_mult_div_eq_mod)

lemma duration_round_nonneg:
  assumes "0 \<le> d" "0 < m" "d + m \<le> max_duration"
  shows "duration_round d m mod m = 0" "2 * \<bar>duration_round d m - d\<bar> \<le> m" "0 \<le> duration_round d m"
proof -
  define r where "r = d mod m"
  have r: "0 \<le> r" "r < m" "remt d m = r" using assms(1,2) by (simp_all add: r_def remt_pos)
  have i: "int64 (d + m - r) = d + m - r"
    using assms r(1,2) by (intro int64_id) (simp add: in_int64_def max_duration_def)
  have e: "duration_round d m = (if 2 * r < m then d - r else d + m - r)"
    using assms r i by (auto simp: duration_round_def Let_def)
  have "(d - r) mod m = 0" by (simp add: r_def minus_mod_eq_mult_div)
  moreover have "(d + m - r) mod m = ((d - r) + m) mod m" by (simp add: algebra_simps)
  ultimately show "duration_round d m mod m = 0" by (simp add: e)
  show "2 * \<bar>duration_round d m - d\<bar> \<le> m" using r by (auto simp: e)
  have "r \<le> d" using assms(1,2) by (simp add: r_def zmod_le_nonneg_dividend)
  then show "0 \<le> duration_round d m" using r assms(2) by (auto simp: e)
qed

lemma describeEvidence_binding:
  assumes "describeEvidence ident ev now = (rec, document, manifest)"
  shows "at_id rec = ident" "at_hpke_public_key rec = hex_encode (ev_public_key ev)"
    "at_expires_at rec = ev_expires_at ev" "at_verified_at rec = now"
    "document = pf_document (ev_proof ev)" "manifest = pf_manifest (ev_proof ev)"
    "at_source_revision rec = pf_source_revision (ev_proof ev)"
  using assms by (auto simp: describeEvidence_def Let_def)

end
