(* ===== verification/Session.thy ===== *)
theory Session
  imports Describe
begin

text \<open>
  The confidential client (internal/confidential/client.go): it keeps one short-lived session that
  comes from verified evidence, and sends requests only over such a session.

  Parameters: the evidence verifier with a state of its own (\<open>verify\<close>), and the EHBP library
  (\<open>ehbp\<close>): the identity of a public key, the transport of an identity, and the test for a key
  configuration error. A session is an object the code compares by address, so it carries the
  address \<open>ss_ref\<close>. A method's part under the mutex is one step.
\<close>

section \<open>State\<close>

record ('id, 'w) ehbp =
  eh_from_public_key :: "bytes \<Rightarrow> 'id result"
  eh_new_transport :: "'id \<Rightarrow> unit result"
  eh_transport :: "'id \<Rightarrow> 'w transport"
  eh_is_key_config_error :: "error \<Rightarrow> bool"

record 'id session =
  ss_ref :: nat
  ss_client :: 'id
  ss_expires_at :: time
  ss_attestation_id :: string

record 'id client_state =
  cs_session :: "'id session option"
  cs_next_ref :: nat
  cs_ledger :: "ledger option"

type_synonym ('v, 'w) verify = "'v \<Rightarrow> 'w \<Rightarrow> evidence option result \<times> 'v \<times> 'w"

record ('id, 'v, 'w) client_env =
  ce_endpoint :: string
  ce_verify :: "('v, 'w) verify"
  ce_ehbp :: "('id, 'w) ehbp"
  ce_now :: "'w \<Rightarrow> time \<times> 'w"

section \<open>Construction\<close>

definition validate_confidential_endpoint :: "string \<Rightarrow> unit result" where
  "validate_confidential_endpoint raw = (case ParseRequestURI raw of
     Inl e \<Rightarrow> Inl (Wrapf ''invalid confidential Gateway endpoint: '' e [])
   | Inr u \<Rightarrow>
      (if url_scheme u \<noteq> ''https'' \<or> url_host u = [] \<or> url_opaque u \<noteq> [] \<or> url_path u \<noteq> ConfidentialEndpoint \<or>
          url_raw_path u \<noteq> [] \<or> url_user u \<or> url_raw_query u \<noteq> [] \<or> url_force_query u \<or> url_fragment u \<noteq> []
       then Inl (Msg (''confidential Gateway endpoint must be an exact HTTPS URL ending in '' @ ConfidentialEndpoint))
       else Inr ()))"

definition NewConfidentialClient ::
    "string \<Rightarrow> ('v, 'w) verify option \<Rightarrow> http_client option \<Rightarrow> 'id client_state result" where
  "NewConfidentialClient endpoint verifier wire = (case validate_confidential_endpoint endpoint of
     Inl e \<Rightarrow> Inl e
   | Inr _ \<Rightarrow>
      (if verifier = None then Inl (Msg ''attestation verifier is required'')
       else (case wire of
         None \<Rightarrow> Inl (Msg ''wire HTTP client is required'')
       | Some c \<Rightarrow>
          (if hc_check_redirect c = None then Inl (Msg ''wire HTTP client must reject redirects'')
           else Inr \<lparr>cs_session = None, cs_next_ref = 0, cs_ledger = None\<rparr>))))"

definition WithLedger :: "ledger option \<Rightarrow> 'id client_state \<Rightarrow> 'id client_state" where
  "WithLedger record st = st\<lparr>cs_ledger := record\<rparr>"

section \<open>Sessions\<close>

text \<open>\<open>RecordRejected\<close> reads the clock only when there is a ledger.\<close>

definition record_rejected ::
    "('w \<Rightarrow> time \<times> 'w) \<Rightarrow> string \<Rightarrow> 'id client_state \<Rightarrow> 'w \<Rightarrow> 'id client_state \<times> 'w" where
  "record_rejected clock failure st w = (case cs_ledger st of
     None \<Rightarrow> (st, w)
   | Some l \<Rightarrow> (case clock w of (t, w') \<Rightarrow> (st\<lparr>cs_ledger := RecordRejected failure t (Some l)\<rparr>, w')))"

definition record_verified ::
    "('w \<Rightarrow> time \<times> 'w) \<Rightarrow> string \<Rightarrow> evidence \<Rightarrow> 'id client_state \<Rightarrow> 'w \<Rightarrow> 'id client_state \<times> 'w" where
  "record_verified clock ident ev st w = (case cs_ledger st of
     None \<Rightarrow> (st, w)
   | Some l \<Rightarrow> (case clock w of (t, w') \<Rightarrow>
       (case describeEvidence ident ev t of (rec, document, manifest) \<Rightarrow>
         (if at_verified_at rec = 0
          then (case clock w' of (t', w'') \<Rightarrow>
            (st\<lparr>cs_ledger := RecordVerified rec document manifest t' (Some l)\<rparr>, w''))
          else (st\<lparr>cs_ledger := RecordVerified rec document manifest 0 (Some l)\<rparr>, w')))))"

definition no_validity :: string where
  "no_validity = ''Gateway attestation has no remaining validity''"

text \<open>Is the evidence missing or past its expiry? The clock is read only when it is there.\<close>

definition evidence_expired :: "('w \<Rightarrow> time \<times> 'w) \<Rightarrow> evidence option \<Rightarrow> 'w \<Rightarrow> bool \<times> 'w" where
  "evidence_expired clock evo w = (case evo of
     None \<Rightarrow> (True, w)
   | Some ev \<Rightarrow> (case clock w of (t, w') \<Rightarrow> (\<not> t < ev_expires_at ev, w')))"

definition new_session :: "'id \<Rightarrow> evidence \<Rightarrow> 'id client_state \<Rightarrow> 'id session \<times> 'id client_state" where
  "new_session ident ev st =
     (let s = \<lparr>ss_ref = cs_next_ref st, ss_client = ident, ss_expires_at = ev_expires_at ev,
               ss_attestation_id = FingerprintKey (ev_public_key ev)\<rparr>
      in (s, st\<lparr>cs_session := Some s, cs_next_ref := Suc (cs_next_ref st)\<rparr>))"

text \<open>The part of \<open>sessionFor\<close> after the cached session has been ruled out.\<close>

definition establish ::
    "('id, 'v, 'w) client_env \<Rightarrow> 'id client_state \<Rightarrow> 'v \<Rightarrow> 'w \<Rightarrow>
     'id session result \<times> 'id client_state \<times> 'v \<times> 'w" where
  "establish env st v w = (case ce_verify env v w of
     (Inl e, v', w1) \<Rightarrow> (case record_rejected (ce_now env) (error_text e) st w1 of
       (st', w2) \<Rightarrow> (Inl (Wrapf ''verify Gateway attestation: '' e []), st', v', w2))
   | (Inr evo, v', w1) \<Rightarrow> (case evidence_expired (ce_now env) evo w1 of
       (True, w2) \<Rightarrow> (case record_rejected (ce_now env) no_validity st w2 of
         (st', w3) \<Rightarrow> (Inl (Msg no_validity), st', v', w3))
     | (False, w2) \<Rightarrow> (let ev = the evo in
         (case eh_from_public_key (ce_ehbp env) (ev_public_key ev) of
           Inl e \<Rightarrow> (case record_rejected (ce_now env) (error_text e) st w2 of
             (st', w3) \<Rightarrow> (Inl (Wrapf ''use attested Gateway HPKE key: '' e []), st', v', w3))
         | Inr ident \<Rightarrow> (case eh_new_transport (ce_ehbp env) ident of
             Inl e \<Rightarrow> (case record_rejected (ce_now env) (error_text e) st w2 of
               (st', w3) \<Rightarrow> (Inl (Wrapf ''create attested EHBP transport: '' e []), st', v', w3))
           | Inr _ \<Rightarrow> (case record_verified (ce_now env) (FingerprintKey (ev_public_key ev)) ev st w2 of
               (st', w3) \<Rightarrow> (case new_session ident ev st' of (s, st'') \<Rightarrow> (Inr s, st'', v', w3))))))))"

definition sessionFor ::
    "('id, 'v, 'w) client_env \<Rightarrow> 'id client_state \<Rightarrow> 'v \<Rightarrow> 'w \<Rightarrow>
     'id session result \<times> 'id client_state \<times> 'v \<times> 'w" where
  "sessionFor env st v w = (case cs_session st of
     None \<Rightarrow> establish env st v w
   | Some s \<Rightarrow> (case ce_now env w of (t, w') \<Rightarrow>
       (if t < ss_expires_at s then (Inr s, st, v, w') else establish env st v w')))"

definition invalidate :: "'id session \<Rightarrow> 'id client_state \<Rightarrow> 'id client_state" where
  "invalidate s st = (case cs_session st of
     None \<Rightarrow> st
   | Some c \<Rightarrow> if ss_ref c = ss_ref s then st\<lparr>cs_session := None\<rparr> else st)"

definition WarmUp ::
    "('id, 'v, 'w) client_env \<Rightarrow> 'id client_state \<Rightarrow> 'v \<Rightarrow> 'w \<Rightarrow> error option \<times> 'id client_state \<times> 'v \<times> 'w" where
  "WarmUp env st v w = (case sessionFor env st v w of
     (Inl e, st', v', w') \<Rightarrow> (Some e, st', v', w')
   | (Inr _, st', v', w') \<Rightarrow> (None, st', v', w'))"

definition discard_session :: "'id client_state \<Rightarrow> 'id client_state" where
  "discard_session st = st\<lparr>cs_session := None\<rparr>"

definition Reverify ::
    "('id, 'v, 'w) client_env \<Rightarrow> 'id client_state \<Rightarrow> 'v \<Rightarrow> 'w \<Rightarrow> error option \<times> 'id client_state \<times> 'v \<times> 'w" where
  "Reverify env st v w = WarmUp env (discard_session st) v w"

section \<open>Requests\<close>

definition confidential_request :: "string \<Rightarrow> string \<Rightarrow> string \<Rightarrow> string \<Rightarrow> bytes \<Rightarrow> http_request" where
  "confidential_request endpoint authorization accept userAgent body =
     (let h0 = header_set [] ''Content-Type'' ''application/json'';
          h1 = (if authorization \<noteq> [] then header_set h0 ''Authorization'' authorization else h0);
          h2 = (if accept \<noteq> [] then header_set h1 ''Accept'' accept else h1);
          h3 = header_set h2 ''User-Agent'' (if userAgent \<noteq> [] then userAgent else ''nexus-proxy/1'')
      in \<lparr>req_method = ''POST'', req_url = endpoint, req_header = h3, req_body = body\<rparr>)"

definition session_http_client :: http_client where
  "session_http_client =
     \<lparr>hc_check_redirect = Some (reject_redirects ''confidential Gateway redirects are not allowed'')\<rparr>"

text \<open>The exchange over a session, which happens outside the mutex.\<close>

definition exchange ::
    "('id, 'v, 'w) client_env \<Rightarrow> 'id session \<Rightarrow> http_request \<Rightarrow> 'w \<Rightarrow> http_response result \<times> 'w" where
  "exchange env s request w = http_do (eh_transport (ce_ehbp env) (ss_client s)) session_http_client request w"

definition after_exchange ::
    "('id, 'v, 'w) client_env \<Rightarrow> 'id session \<Rightarrow> http_response result \<Rightarrow> 'id client_state \<Rightarrow>
     http_response result \<times> 'id client_state" where
  "after_exchange env s res st = (case res of
     Inl e \<Rightarrow> (Inl (Wrapf ''confidential Gateway exchange failed: '' e []),
              if eh_is_key_config_error (ce_ehbp env) e then invalidate s st else st)
   | Inr r \<Rightarrow> (Inr r, st))"

definition Do ::
    "('id, 'v, 'w) client_env \<Rightarrow> string \<Rightarrow> string \<Rightarrow> string \<Rightarrow> bytes \<Rightarrow> 'id client_state \<Rightarrow> 'v \<Rightarrow> 'w \<Rightarrow>
     (http_response result \<times> string) \<times> 'id client_state \<times> 'v \<times> 'w" where
  "Do env authorization accept userAgent body st v w =
     (if body = [] then ((Inl (Msg ''confidential request envelope is empty''), []), st, v, w)
      else (case sessionFor env st v w of
        (Inl e, st1, v1, w1) \<Rightarrow> ((Inl e, []), st1, v1, w1)
      | (Inr s, st1, v1, w1) \<Rightarrow> (case ParseRequestURI (ce_endpoint env) of
          Inl e \<Rightarrow> ((Inl (Wrapf ''create confidential Gateway request: '' e []), ss_attestation_id s), st1, v1, w1)
        | Inr _ \<Rightarrow>
          (case exchange env s (confidential_request (ce_endpoint env) authorization accept userAgent body) w1 of
            (res, w2) \<Rightarrow> (case after_exchange env s res st1 of
              (r, st2) \<Rightarrow> ((r, ss_attestation_id s), st2, v1, w2))))))"

section \<open>What the client relies on\<close>

text \<open>
  The interface of the evidence verifier: it keeps an invariant of its own state, and what it
  returns without an error is evidence it accepted.
\<close>

locale evidence_verifier =
  fixes verify :: "('v, 'w) verify"
    and vinv :: "'v \<Rightarrow> bool"
    and accepted :: "'v \<Rightarrow> evidence \<Rightarrow> bool"
  assumes verify_keeps: "vinv v \<Longrightarrow> verify v w = (r, v', w') \<Longrightarrow> vinv v'"
    and verify_sound: "vinv v \<Longrightarrow> verify v w = (Inr evo, v', w') \<Longrightarrow> \<exists>ev. evo = Some ev \<and> accepted v' ev"

text \<open>A session is the one that some evidence gives.\<close>

definition session_of :: "('id, 'w) ehbp \<Rightarrow> evidence \<Rightarrow> 'id session \<Rightarrow> bool" where
  "session_of eh ev s \<longleftrightarrow> eh_from_public_key eh (ev_public_key ev) = Inr (ss_client s) \<and>
     eh_new_transport eh (ss_client s) = Inr () \<and> ss_expires_at s = ev_expires_at ev \<and>
     ss_attestation_id s = FingerprintKey (ev_public_key ev)"

lemma record_rejected_frame:
  "record_rejected c f st w = (st', w') \<Longrightarrow>
     cs_session st' = cs_session st \<and> cs_next_ref st' = cs_next_ref st"
  by (auto simp: record_rejected_def split: option.splits prod.splits)

lemma record_verified_frame:
  "record_verified c i ev st w = (st', w') \<Longrightarrow>
     cs_session st' = cs_session st \<and> cs_next_ref st' = cs_next_ref st"
  by (auto simp: record_verified_def split: option.splits prod.splits if_splits)

end
