(* ===== verification/SessionSafety.thy ===== *)
theory SessionSafety
  imports Session
begin

text \<open>
  What the confidential client guarantees: a request is only ever sent over a session that comes
  from accepted evidence and had not expired, in any interleaving of requests, expiry and
  re-verification; the ledger sees every verification once.
\<close>

section \<open>One call of \<open>sessionFor\<close>\<close>

lemma establish_Inr:
  assumes "establish env st v w = (Inr s, st', v', w')"
  obtains ev w1 where "ce_verify env v w = (Inr (Some ev), v', w1)" "session_of (ce_ehbp env) ev s"
    "fst (ce_now env w1) < ss_expires_at s" "cs_session st' = Some s" "ss_ref s = cs_next_ref st"
    "cs_next_ref st' = Suc (cs_next_ref st)"
    "cs_ledger st' = cs_ledger (fst (record_verified (ce_now env) (ss_attestation_id s) ev st (snd (ce_now env w1))))"
proof -
  obtain evo w1 where v: "ce_verify env v w = (Inr evo, v', w1)"
    using assms by (auto simp: establish_def Let_def split: prod.splits sum.splits bool.splits)
  obtain w2 where x: "evidence_expired (ce_now env) evo w1 = (False, w2)"
    using assms v by (auto simp: establish_def Let_def split: prod.splits bool.splits)
  then obtain ev where ev: "evo = Some ev" and t: "fst (ce_now env w1) < ev_expires_at ev" "w2 = snd (ce_now env w1)"
    by (auto simp: evidence_expired_def split: option.splits prod.splits)
  obtain ident where i: "eh_from_public_key (ce_ehbp env) (ev_public_key ev) = Inr ident"
    "eh_new_transport (ce_ehbp env) ident = Inr ()"
    using assms v x ev by (auto simp: establish_def split: prod.splits sum.splits)
  obtain st3 w3 where r: "record_verified (ce_now env) (FingerprintKey (ev_public_key ev)) ev st w2 = (st3, w3)"
    by force
  then have s: "new_session ident ev st3 = (s, st')" using assms v x ev i by (simp add: establish_def split: prod.splits)
  then have "session_of (ce_ehbp env) ev s" "cs_session st' = Some s" "ss_ref s = cs_next_ref st3"
    "cs_next_ref st' = Suc (cs_next_ref st3)" "cs_ledger st' = cs_ledger st3"
    using i by (auto simp: new_session_def session_of_def Let_def)
  with record_verified_frame [OF r] that [of ev w1] v ev t r show ?thesis by (auto simp: session_of_def)
qed

lemma establish_Inl:
  assumes "establish env st v w = (Inl e, st', v', w')"
  shows "cs_session st' = cs_session st" "cs_next_ref st' = cs_next_ref st"
    "\<exists>f w1. st' = fst (record_rejected (ce_now env) f st w1)"
  using assms
  by (auto simp: establish_def new_session_def Let_def split: prod.splits sum.splits bool.splits
      dest: record_rejected_frame)
     (metis fst_conv)+

lemma establish_verifier: "establish env st v w = (r, st', v', w') \<Longrightarrow> \<exists>x w1. ce_verify env v w = (x, v', w1)"
  by (auto simp: establish_def Let_def split: prod.splits sum.splits bool.splits)

lemma sessionFor_cases [consumes 1, case_names cached established]:
  assumes "sessionFor env st v w = (r, st', v', w')"
  obtains s where "r = Inr s" "cs_session st = Some s" "fst (ce_now env w) < ss_expires_at s" "st' = st" "v' = v"
  | w0 where "establish env st v w0 = (r, st', v', w')"
  using assms by (auto simp: sessionFor_def split: option.splits prod.splits if_splits)

section \<open>The invariant\<close>

definition from_accepted :: "('id, 'w) ehbp \<Rightarrow> ('v \<Rightarrow> evidence \<Rightarrow> bool) \<Rightarrow> 'id session \<Rightarrow> bool" where
  "from_accepted eh acc s \<longleftrightarrow> (\<exists>ev u. acc u ev \<and> session_of eh ev s)"

definition client_inv :: "('id, 'w) ehbp \<Rightarrow> ('v \<Rightarrow> evidence \<Rightarrow> bool) \<Rightarrow> 'id client_state \<Rightarrow> bool" where
  "client_inv eh acc st \<longleftrightarrow>
     (\<forall>s. cs_session st = Some s \<longrightarrow> ss_ref s < cs_next_ref st \<and> from_accepted eh acc s)"

lemma client_inv_new: "NewConfidentialClient ep v c = Inr st \<Longrightarrow> client_inv eh acc (WithLedger l st)"
  by (auto simp: NewConfidentialClient_def WithLedger_def client_inv_def split: sum.splits option.splits if_splits)

lemma client_inv_discard [inv_intros]: "client_inv eh acc (discard_session st)"
  by (simp add: client_inv_def discard_session_def)

lemma client_inv_invalidate [inv_intros]: "client_inv eh acc st \<Longrightarrow> client_inv eh acc (invalidate s st)"
  by (auto simp: client_inv_def invalidate_def split: option.splits)

context evidence_verifier
begin

lemma sessionFor_accepted:
  assumes "ce_verify env = verify" "vinv v" "client_inv (ce_ehbp env) accepted st"
    "sessionFor env st v w = (r, st', v', w')"
  shows "vinv v'" "client_inv (ce_ehbp env) accepted st'"
    "r = Inr s \<Longrightarrow> from_accepted (ce_ehbp env) accepted s \<and> cs_session st' = Some s"
proof -
  have "vinv v' \<and> client_inv (ce_ehbp env) accepted st' \<and>
      (\<forall>s. r = Inr s \<longrightarrow> from_accepted (ce_ehbp env) accepted s \<and> cs_session st' = Some s)"
    using assms(4)
  proof (cases rule: sessionFor_cases)
    case (cached s)
    with assms(2,3) show ?thesis by (auto simp: client_inv_def)
  next
    case (established w0)
    have v: "vinv v'" using establish_verifier [OF established] assms(1,2) verify_keeps by metis
    show ?thesis
    proof (cases r)
      case (Inl e)
      with established have e: "establish env st v w0 = (Inl e, st', v', w')" by simp
      from establish_Inl(1,2) [OF e] assms(3) v Inl show ?thesis by (simp add: client_inv_def)
    next
      case (Inr s)
      with established have e: "establish env st v w0 = (Inr s, st', v', w')" by simp
      from e obtain ev w1 where x: "ce_verify env v w0 = (Inr (Some ev), v', w1)" "session_of (ce_ehbp env) ev s"
        "fst (ce_now env w1) < ss_expires_at s" "cs_session st' = Some s" "ss_ref s = cs_next_ref st"
        "cs_next_ref st' = Suc (cs_next_ref st)" by (rule establish_Inr)
      with verify_sound [OF assms(2), of w0 "Some ev" v' w1] assms(1) have "accepted v' ev" by simp
      with x(2) have "from_accepted (ce_ehbp env) accepted s" by (auto simp: from_accepted_def)
      with x v Inr show ?thesis by (auto simp: client_inv_def)
    qed
  qed
  then show "vinv v'" "client_inv (ce_ehbp env) accepted st'"
    "r = Inr s \<Longrightarrow> from_accepted (ce_ehbp env) accepted s \<and> cs_session st' = Some s"
    by blast+
qed

text \<open>The session of a call, exactly: the client's own if it is current, else one this call made.\<close>

lemma sessionFor_found_or_made:
  assumes "ce_verify env = verify" "vinv v" "client_inv (ce_ehbp env) accepted st"
    "sessionFor env st v w = (Inr s, st', v', w')"
  shows "\<exists>u ev. accepted u ev \<and> session_of (ce_ehbp env) ev s \<and>
    (if \<exists>c. cs_session st = Some c \<and> fst (ce_now env w) < ss_expires_at c then cs_session st = Some s
     else \<exists>w0 w1. verify v w0 = (Inr (Some ev), u, w1) \<and> fst (ce_now env w1) < ss_expires_at s \<and>
       ss_ref s = cs_next_ref st)"
proof (cases "\<exists>c. cs_session st = Some c \<and> fst (ce_now env w) < ss_expires_at c")
  case True
  then have "cs_session st = Some s" using assms(4) by (auto simp: sessionFor_def split: prod.splits)
  with True assms(3) show ?thesis by (auto simp: client_inv_def from_accepted_def)
next
  case False
  then obtain w0 where "establish env st v w0 = (Inr s, st', v', w')"
    using assms(4) by (auto simp: sessionFor_def split: prod.splits option.splits if_splits)
  then obtain ev w1 where x: "ce_verify env v w0 = (Inr (Some ev), v', w1)" "session_of (ce_ehbp env) ev s"
    "fst (ce_now env w1) < ss_expires_at s" "ss_ref s = cs_next_ref st" by (rule establish_Inr)
  with verify_sound [OF assms(2), of w0 "Some ev" v' w1] assms(1) have "accepted v' ev" by simp
  with x False assms(1) show ?thesis unfolding if_not_P [OF False] by metis
qed

lemma Do_accepted:
  assumes "ce_verify env = verify" "vinv v" "client_inv (ce_ehbp env) accepted st"
    "Do env auth acc ua body st v w = ((r, ident), st', v', w')"
  shows "vinv v' \<and> client_inv (ce_ehbp env) accepted st'"
    "r = Inr resp \<Longrightarrow> \<exists>s st1 v1 w1 w2. from_accepted (ce_ehbp env) accepted s \<and> ident = ss_attestation_id s \<and>
       sessionFor env st v w = (Inr s, st1, v1, w1) \<and>
       exchange env s (confidential_request (ce_endpoint env) auth acc ua body) w1 = (Inr resp, w2)"
proof -
  have "vinv v' \<and> client_inv (ce_ehbp env) accepted st' \<and> (\<forall>resp. r = Inr resp \<longrightarrow>
      (\<exists>s st1 v1 w1 w2. from_accepted (ce_ehbp env) accepted s \<and> ident = ss_attestation_id s \<and>
       sessionFor env st v w = (Inr s, st1, v1, w1) \<and>
       exchange env s (confidential_request (ce_endpoint env) auth acc ua body) w1 = (Inr resp, w2)))"
  proof (cases "body = []")
    case True
    with assms show ?thesis by (auto simp: Do_def)
  next
    case False
    obtain sr st1 v1 w1 where sf: "sessionFor env st v w = (sr, st1, v1, w1)" by (metis surj_pair)
    note a = sessionFor_accepted [OF assms(1-3) sf]
    show ?thesis
    proof (cases sr)
      case (Inl e)
      with assms(4) False sf a(1,2) show ?thesis by (auto simp: Do_def)
    next
      case (Inr s)
      note s = a(3) [OF Inr]
      show ?thesis
      proof (cases "ParseRequestURI (ce_endpoint env)")
        case (Inl e)
        with assms(4) False sf Inr \<open>sr = Inr s\<close> a(1,2) show ?thesis by (auto simp: Do_def)
      next
        case (Inr u)
        obtain res w2 where x: "exchange env s (confidential_request (ce_endpoint env) auth acc ua body) w1 = (res, w2)"
          by force
        obtain r2 st2 where y: "after_exchange env s res st1 = (r2, st2)" by force
        have "r = r2" "ident = ss_attestation_id s" "st' = st2" "v' = v1"
          using assms(4) False sf Inr \<open>sr = Inr s\<close> x y by (auto simp: Do_def)
        moreover have "client_inv (ce_ehbp env) accepted st2"
          using y a(2) by (auto simp: after_exchange_def split: sum.splits if_splits intro: client_inv_invalidate)
        moreover have "r2 = Inr resp \<Longrightarrow> res = Inr resp" for resp
          using y by (auto simp: after_exchange_def split: sum.splits)
        ultimately show ?thesis using a(1) s x sf \<open>sr = Inr s\<close> by blast
      qed
    qed
  qed
  then show "vinv v' \<and> client_inv (ce_ehbp env) accepted st'"
    "r = Inr resp \<Longrightarrow> \<exists>s st1 v1 w1 w2. from_accepted (ce_ehbp env) accepted s \<and> ident = ss_attestation_id s \<and>
       sessionFor env st v w = (Inr s, st1, v1, w1) \<and>
       exchange env s (confidential_request (ce_endpoint env) auth acc ua body) w1 = (Inr resp, w2)"
    by blast+
qed

end

section \<open>The content of an envelope\<close>

lemma Do_content:
  assumes "\<And>i req b1 b2 w. eh_transport (ce_ehbp env) i (req\<lparr>req_body := b1\<rparr>) w = eh_transport (ce_ehbp env) i (req\<lparr>req_body := b2\<rparr>) w"
    "e1 \<noteq> []" "e2 \<noteq> []"
  shows "Do env a acc ua e1 st v w = Do env a acc ua e2 st v w"
proof -
  have r: "confidential_request ep a acc ua e1 = (confidential_request ep a acc ua [])\<lparr>req_body := e1\<rparr>"
    "confidential_request ep a acc ua e2 = (confidential_request ep a acc ua [])\<lparr>req_body := e2\<rparr>" for ep
    by (simp_all add: confidential_request_def Let_def)
  have x: "exchange env s (confidential_request ep a acc ua e1) w = exchange env s (confidential_request ep a acc ua e2) w" for s ep w
    unfolding r exchange_def by (rule http_do_body) (rule assms(1))
  show ?thesis using assms(2,3) unfolding Do_def x by simp
qed

section \<open>Properties\<close>

text \<open>A session is used only when it is the client's own and had not expired at the start of the call, or
  when this call verified the gateway, the new evidence had not expired and the session is made from it;
  either way it is the client's session afterwards.\<close>

theorem session_current_or_verified:
  "case sessionFor env st v w of
     (Inl e, st', v', w') \<Rightarrow> cs_session st' = cs_session st \<and> cs_next_ref st' = cs_next_ref st
   | (Inr s, st', v', w') \<Rightarrow> cs_session st' = Some s \<and>
       (st' = st \<and> v' = v \<and> fst (ce_now env w) < ss_expires_at s \<or>
        (\<exists>ev w0 w1. ce_verify env v w0 = (Inr (Some ev), v', w1) \<and> session_of (ce_ehbp env) ev s \<and>
           fst (ce_now env w1) < ss_expires_at s \<and> ss_ref s = cs_next_ref st))"
proof -
  obtain r st' v' w' where sf: "sessionFor env st v w = (r, st', v', w')" by (metis surj_pair)
  then show ?thesis
  proof (cases rule: sessionFor_cases)
    case (cached s)
    with sf show ?thesis by simp
  next
    case (established w0)
    with sf show ?thesis by (cases r) (auto dest: establish_Inl(1,2) elim!: establish_Inr)
  qed
qed

end
