(* ===== verification/SessionConc.thy ===== *)
theory SessionConc
  imports SessionSafety
begin

text \<open>
  Many requests at once. A configuration is the client's state, the verifier's state and the session
  each request in flight holds; the world is arbitrary at every step. The steps are the critical
  sections of the code: \<open>sessionFor\<close> (from \<open>Do\<close>, \<open>WarmUp\<close> or \<open>Reverify\<close>),
  the end of an exchange with its \<open>invalidate\<close>, the first half of \<open>Reverify\<close>, and what may
  happen to the verifier in the background (\<open>bg\<close>: a periodic policy refresh).
\<close>

record ('id, 'v) conf =
  cf_client :: "'id client_state"
  cf_verifier :: "'v"
  cf_inflight :: "nat \<Rightarrow> 'id session option"

inductive client_step ::
    "('v \<Rightarrow> 'v \<Rightarrow> bool) \<Rightarrow> ('id, 'v, 'w) client_env \<Rightarrow> ('id, 'v) conf \<Rightarrow> ('id, 'v) conf \<Rightarrow> bool"
  for bg env where
  acquire: "sessionFor env (cf_client c) (cf_verifier c) w = (Inr s, st, v, w') \<Longrightarrow> cf_inflight c r = None \<Longrightarrow>
     client_step bg env c \<lparr>cf_client = st, cf_verifier = v, cf_inflight = (cf_inflight c)(r \<mapsto> s)\<rparr>"
| warm: "sessionFor env (cf_client c) (cf_verifier c) w = (res, st, v, w') \<Longrightarrow>
     client_step bg env c (c\<lparr>cf_client := st, cf_verifier := v\<rparr>)"
| finish: "cf_inflight c r = Some s \<Longrightarrow>
     client_step bg env c (c\<lparr>cf_client := snd (after_exchange env s res (cf_client c)),
       cf_inflight := (cf_inflight c)(r := None)\<rparr>)"
| background: "bg (cf_verifier c) v \<Longrightarrow> client_step bg env c (c\<lparr>cf_verifier := v\<rparr>)"
| discard: "client_step bg env c (c\<lparr>cf_client := discard_session (cf_client c)\<rparr>)"

text \<open>Every session in sight, in the client or in flight.\<close>

definition live_session :: "('id, 'v) conf \<Rightarrow> 'id session \<Rightarrow> bool" where
  "live_session c s \<longleftrightarrow> cs_session (cf_client c) = Some s \<or> (\<exists>r. cf_inflight c r = Some s)"

definition conf_inv ::
    "('id, 'w) ehbp \<Rightarrow> ('v \<Rightarrow> evidence \<Rightarrow> bool) \<Rightarrow> ('v \<Rightarrow> bool) \<Rightarrow> ('id, 'v) conf \<Rightarrow> bool" where
  "conf_inv eh acc vinv c \<longleftrightarrow> vinv (cf_verifier c) \<and>
     (\<forall>s. live_session c s \<longrightarrow> ss_ref s < cs_next_ref (cf_client c) \<and> from_accepted eh acc s) \<and>
     (\<forall>s t. live_session c s \<longrightarrow> live_session c t \<longrightarrow> ss_ref s = ss_ref t \<longrightarrow> s = t)"

lemma conf_inv_less:
  assumes "conf_inv eh acc vinv c" "vinv (cf_verifier c')" "cs_next_ref (cf_client c') = cs_next_ref (cf_client c)"
    "\<And>s. live_session c' s \<Longrightarrow> live_session c s"
  shows "conf_inv eh acc vinv c'"
  using assms unfolding conf_inv_def by metis

text \<open>A step that brings one new session, under an address not used before.\<close>

lemma conf_inv_new:
  assumes "conf_inv eh acc vinv c" "vinv (cf_verifier c')" "from_accepted eh acc s"
    "ss_ref s = cs_next_ref (cf_client c)" "cs_next_ref (cf_client c') = Suc (cs_next_ref (cf_client c))"
    "\<And>t. live_session c' t \<Longrightarrow> t = s \<or> live_session c t"
  shows "conf_inv eh acc vinv c'"
proof -
  have old: "ss_ref t < cs_next_ref (cf_client c)" if "live_session c t" for t
    using assms(1) that by (simp add: conf_inv_def)
  have "s' = t" if "live_session c' s'" "live_session c' t" "ss_ref s' = ss_ref t" for s' t
  proof -
    have "live_session c s' \<Longrightarrow> live_session c t \<Longrightarrow> s' = t" using assms(1) that(3) unfolding conf_inv_def by blast
    moreover have "live_session c t \<Longrightarrow> s' = s \<Longrightarrow> False" "live_session c s' \<Longrightarrow> t = s \<Longrightarrow> False"
      using old [of t] old [of s'] assms(4) that(3) by simp_all
    ultimately show ?thesis using assms(6) [OF that(1)] assms(6) [OF that(2)] by blast
  qed
  moreover have "ss_ref t < cs_next_ref (cf_client c') \<and> from_accepted eh acc t" if "live_session c' t" for t
    using assms(6) [OF that] old assms(1,3-5) by (auto simp: conf_inv_def less_Suc_eq)
  ultimately show ?thesis using assms(2) by (auto simp: conf_inv_def)
qed

lemma after_exchange_session:
  "cs_next_ref (snd (after_exchange env s res st)) = cs_next_ref st"
  "cs_session (snd (after_exchange env s res st)) = Some t \<Longrightarrow> cs_session st = Some t"
  by (auto simp: after_exchange_def invalidate_def split: sum.splits option.splits if_splits)

context evidence_verifier
begin

lemma sessionFor_conf:
  assumes "ce_verify env = verify" "conf_inv (ce_ehbp env) accepted vinv c"
    "sessionFor env (cf_client c) (cf_verifier c) w = (r, st, v, w')"
    "\<And>s. live_session c' s \<Longrightarrow> live_session c s \<or> cs_session st = Some s"
    "cf_client c' = st" "cf_verifier c' = v"
  shows "conf_inv (ce_ehbp env) accepted vinv c'"
proof -
  have v0: "vinv (cf_verifier c)" using assms(2) by (simp add: conf_inv_def)
  have "client_inv (ce_ehbp env) accepted (cf_client c)"
    using assms(2) by (auto simp: conf_inv_def client_inv_def live_session_def)
  note sf = sessionFor_accepted [OF assms(1) v0 this assms(3)]
  from assms(3) show ?thesis
  proof (cases rule: sessionFor_cases)
    case (cached s)
    then have "live_session c s" by (simp add: live_session_def)
    with cached assms(2,4-6) show ?thesis
      by (intro conf_inv_less [OF assms(2)]) (auto simp: conf_inv_def)
  next
    case (established w0)
    show ?thesis
    proof (cases r)
      case (Inl e)
      with established have e: "establish env (cf_client c) (cf_verifier c) w0 = (Inl e, st, v, w')" by simp
      note f = establish_Inl(1,2) [OF e]
      show ?thesis
        using assms(4-6) f sf(1) by (intro conf_inv_less [OF assms(2)]) (auto simp: live_session_def)
    next
      case (Inr s)
      with established have e: "establish env (cf_client c) (cf_verifier c) w0 = (Inr s, st, v, w')" by simp
      from e have n: "ss_ref s = cs_next_ref (cf_client c)" "cs_next_ref st = Suc (cs_next_ref (cf_client c))"
        by (rule establish_Inr; simp)+
      show ?thesis
        using assms(4-6) sf(1) sf(3) [OF Inr] n by (intro conf_inv_new [OF assms(2)]) auto
    qed
  qed
qed

lemma client_step_inv:
  assumes "ce_verify env = verify" "client_step bg env c c'" "conf_inv (ce_ehbp env) accepted vinv c"
    "\<And>v v'. bg v v' \<Longrightarrow> vinv v \<Longrightarrow> vinv v'"
  shows "conf_inv (ce_ehbp env) accepted vinv c'"
  using assms(2)
proof cases
  case (acquire w s st v w' r)
  have v0: "vinv (cf_verifier c)" using assms(3) by (simp add: conf_inv_def)
  have "client_inv (ce_ehbp env) accepted (cf_client c)"
    using assms(3) by (auto simp: conf_inv_def client_inv_def live_session_def)
  from sessionFor_accepted(3) [OF assms(1) v0 this acquire(2) refl] have "cs_session st = Some s" by simp
  with acquire show ?thesis
    by (intro sessionFor_conf [OF assms(1,3) acquire(2)]) (auto simp: live_session_def split: if_splits)
next
  case (warm w res st v w')
  then show ?thesis
    by (intro sessionFor_conf [OF assms(1,3) warm(2)]) (auto simp: live_session_def)
next
  case (finish r s res)
  show ?thesis
  proof (rule conf_inv_less [OF assms(3)])
    show "vinv (cf_verifier c')" using assms(3) finish(1) by (simp add: conf_inv_def)
    show "cs_next_ref (cf_client c') = cs_next_ref (cf_client c)" by (simp add: finish(1) after_exchange_session(1))
    show "live_session c t" if "live_session c' t" for t
    proof -
      have "cs_session (cf_client c') = Some t \<or> (\<exists>q. cf_inflight c' q = Some t)"
        using that by (simp add: live_session_def)
      moreover have "cs_session (cf_client c') = Some t \<Longrightarrow> cs_session (cf_client c) = Some t"
        using after_exchange_session(2) [of env s res "cf_client c" t] by (simp add: finish(1))
      moreover have "cf_inflight c' q = Some t \<Longrightarrow> cf_inflight c q = Some t" for q
        unfolding finish(1) by (simp split: if_splits)
      ultimately show ?thesis unfolding live_session_def by blast
    qed
  qed
next
  case (background v)
  then show ?thesis
    using assms(3,4) by (intro conf_inv_less [OF assms(3)]) (auto simp: live_session_def conf_inv_def)
next
  case discard
  then show ?thesis
    using assms(3) by (intro conf_inv_less [OF assms(3)]) (auto simp: live_session_def discard_session_def conf_inv_def)
qed

lemma client_steps_inv:
  assumes "ce_verify env = verify" "(client_step bg env)\<^sup>*\<^sup>* c c'" "conf_inv (ce_ehbp env) accepted vinv c"
    "\<And>v v'. bg v v' \<Longrightarrow> vinv v \<Longrightarrow> vinv v'"
  shows "conf_inv (ce_ehbp env) accepted vinv c'"
  using assms(2,3)
proof (induction rule: rtranclp_induct)
  case (step y z)
  show ?case by (rule client_step_inv [OF assms(1) step.hyps(2) step.IH [OF step.prems] assms(4)])
qed

end

definition initial_conf :: "'v \<Rightarrow> ledger option \<Rightarrow> ('id, 'v) conf" where
  "initial_conf v l = \<lparr>cf_client = \<lparr>cs_session = None, cs_next_ref = 0, cs_ledger = l\<rparr>, cf_verifier = v,
     cf_inflight = (\<lambda>_. None)\<rparr>"

lemma initial_conf_inv: "vinv v \<Longrightarrow> conf_inv eh acc vinv (initial_conf v l)"
  by (simp add: initial_conf_def conf_inv_def live_session_def)

text \<open>Ending a request never takes another request's newer session away.\<close>

lemma finish_keeps_other:
  assumes "conf_inv eh acc vinv c" "cf_inflight c r = Some s" "cs_session (cf_client c) = Some t" "t \<noteq> s"
  shows "snd (after_exchange env s res (cf_client c)) = cf_client c"
proof -
  have "live_session c s" "live_session c t" using assms(2,3) by (auto simp: live_session_def)
  then have "ss_ref t \<noteq> ss_ref s" using assms(1,4) unfolding conf_inv_def by blast
  then show ?thesis using assms(3) by (auto simp: after_exchange_def invalidate_def split: sum.splits)
qed

end
