(* ===== verification/PolicyRefresh.thy ===== *)
theory PolicyRefresh
  imports SessionConc
begin

text \<open>
  The verifier that refreshes its policy when it meets an unknown release (policy_refresh.go), and
  the two verifiers as the evidence verifiers of the confidential client. The release source is a
  parameter here (\<open>rf_source\<close>); theory \<open>ReleaseSource\<close> models it.
  \<open>lastRefresh\<close> is a wall-clock value in the model; in Go it carries a monotonic reading, which
  \<open>Sub\<close> prefers.
\<close>

definition minimumTriggeredRefreshInterval :: duration where
  "minimumTriggeredRefreshInterval = 5 * minute"

record refreshing_verifier =
  rv_inner :: verifier
  rv_last_refresh :: time

record 'w refresh_env =
  rf_attest :: "'w attest_env"
  rf_source :: "'w \<Rightarrow> policy result \<times> 'w"
  rf_now :: "'w \<Rightarrow> time \<times> 'w"

definition newRefreshingVerifier :: "verifier \<Rightarrow> refreshing_verifier" where
  "newRefreshingVerifier inner = \<lparr>rv_inner = inner, rv_last_refresh = 0\<rparr>"

definition allowRefresh :: "('w \<Rightarrow> time \<times> 'w) \<Rightarrow> refreshing_verifier \<Rightarrow> 'w \<Rightarrow> bool \<times> refreshing_verifier \<times> 'w" where
  "allowRefresh clock v w =
     (let (early, w1) =
        (if rv_last_refresh v \<noteq> 0
         then (case clock w of (t, w') \<Rightarrow>
           (time_sub t (rv_last_refresh v) < minimumTriggeredRefreshInterval, w'))
         else (False, w))
      in if early then (False, v, w1)
         else (case clock w1 of (t, w2) \<Rightarrow> (True, v\<lparr>rv_last_refresh := t\<rparr>, w2)))"

definition refresh :: "'w refresh_env \<Rightarrow> refreshing_verifier \<Rightarrow> 'w \<Rightarrow> bool \<times> refreshing_verifier \<times> 'w" where
  "refresh env v w = (case allowRefresh (rf_now env) v w of
     (False, v1, w1) \<Rightarrow> (False, v1, w1)
   | (True, v1, w1) \<Rightarrow> (case rf_source env w1 of
       (Inl e, w2) \<Rightarrow> (False, v1, w2)
     | (Inr pol, w2) \<Rightarrow> (case SetPolicy (rv_inner v1) (Some pol) of
         (Some e, inner) \<Rightarrow> (False, v1\<lparr>rv_inner := inner\<rparr>, w2)
       | (None, inner) \<Rightarrow> (True, v1\<lparr>rv_inner := inner\<rparr>, w2))))"

definition refreshing_Verify ::
    "'w refresh_env \<Rightarrow> refreshing_verifier \<Rightarrow> 'w \<Rightarrow> evidence result \<times> refreshing_verifier \<times> 'w" where
  "refreshing_Verify env v w = (case Verify (rf_attest env) (rv_inner v) w of
     (Inr ev, w1) \<Rightarrow> (Inr ev, v, w1)
   | (Inl err, w1) \<Rightarrow>
      (if \<not> error_is err UnpinnedRelease then (Inl err, v, w1)
       else (case refresh env v w1 of
         (False, v1, w2) \<Rightarrow> (Inl err, v1, w2)
       | (True, v1, w2) \<Rightarrow> (case Verify (rf_attest env) (rv_inner v1) w2 of (r, w3) \<Rightarrow> (r, v1, w3)))))"

section \<open>What is accepted\<close>

text \<open>Evidence that some verification against the verifier's policy has accepted, in this environment.\<close>

definition evidence_accepted :: "'w attest_env \<Rightarrow> verifier \<Rightarrow> evidence \<Rightarrow> bool" where
  "evidence_accepted env v ev \<longleftrightarrow> (\<exists>w w'. Verify env v w = (Inr ev, w'))"

lemma Verify_Inr:
  assumes "Verify env v w = (Inr ev, w')"
  obtains nonce w1 f w2 now w3 nitro rel result doc where
    "ae_random env nonceBytes w = (Inr nonce, w1)" "fetch env v nonce w1 = (Inr f, w2)"
    "ae_now env w2 = (now, w3)" "ae_nitro env w3 = (nitro, w')"
    "admissible v nitro f nonce now rel result doc" "ev = evidence_of v f rel result doc"
proof -
  obtain nonce w1 where n: "ae_random env nonceBytes w = (Inr nonce, w1)"
    using assms by (auto simp: Verify_def split: prod.splits sum.splits)
  then obtain f w2 where f: "fetch env v nonce w1 = (Inr f, w2)"
    using assms by (auto simp: Verify_def split: prod.splits sum.splits)
  obtain now w3 where t: "ae_now env w2 = (now, w3)" by force
  obtain nitro w4 where d: "ae_nitro env w3 = (nitro, w4)" by force
  have "validate v nitro (Some f) nonce now = Inr ev" "w4 = w'" using assms n f t d by (simp_all add: Verify_def)
  then show ?thesis using validate_sound that n f t d by metis
qed

lemma Verify_accepted: "Verify env v w = (Inr ev, w') \<Longrightarrow> evidence_accepted env v ev"
  by (auto simp: evidence_accepted_def)

lemma refresh_unchanged: "refresh env v w = (False, v', w') \<Longrightarrow> rv_inner v' = rv_inner v"
  by (auto simp: refresh_def allowRefresh_def Let_def split: bool.splits prod.splits sum.splits option.splits if_splits
      dest: SetPolicy_frame)

lemma refresh_applied:
  assumes "refresh env v w = (True, v', w')"
  obtains w1 p q where "rf_source env w1 = (Inr p, w')" "policy_validate p = Inr q" "rv_inner v' = (rv_inner v)\<lparr>v_policy := q\<rparr>"
  using assms
  by (auto simp: refresh_def allowRefresh_def Let_def SetPolicy_def split: bool.splits prod.splits sum.splits if_splits)

lemma refresh_keeps: "refresh env v w = (b, v', w') \<Longrightarrow> wf_verifier (rv_inner v) \<Longrightarrow> wf_verifier (rv_inner v')"
  by (cases b) (auto simp: wf_verifier_def dest: refresh_unchanged policy_validate_Inr elim!: refresh_applied)

lemma refreshing_Verify_cases:
  assumes "refreshing_Verify env v w = (r, v', w')"
  obtains (direct) "Verify (rf_attest env) (rv_inner v) w = (r, w')" "v' = v"
      "\<forall>e. r = Inl e \<longrightarrow> \<not> error_is e UnpinnedRelease"
  | (refused) e w1 where "Verify (rf_attest env) (rv_inner v) w = (Inl e, w1)" "error_is e UnpinnedRelease" "r = Inl e"
      "refresh env v w1 = (False, v', w')"
  | (retried) e w1 w2 where "Verify (rf_attest env) (rv_inner v) w = (Inl e, w1)" "error_is e UnpinnedRelease"
      "refresh env v w1 = (True, v', w2)" "Verify (rf_attest env) (rv_inner v') w2 = (r, w')"
  using assms by (auto simp: refreshing_Verify_def split: prod.splits sum.splits if_splits bool.splits)

text \<open>The policy in force changes only to the validated form of a policy the release source gave.\<close>

lemma refreshing_Verify_policy:
  assumes "refreshing_Verify env v w = (r, v', w')"
  obtains "rv_inner v' = rv_inner v"
  | w1 w2 p q where "rf_source env w1 = (Inr p, w2)" "policy_validate p = Inr q" "rv_inner v' = (rv_inner v)\<lparr>v_policy := q\<rparr>"
  using assms
proof (cases rule: refreshing_Verify_cases)
  case direct
  then show ?thesis using that(1) by simp
next
  case (refused e w1)
  show ?thesis by (rule that(1)) (rule refresh_unchanged [OF refused(4)])
next
  case (retried e w1 w2)
  from retried(3) show ?thesis by (rule refresh_applied) (rule that(2))
qed

section \<open>The two evidence verifiers\<close>

definition plain_verify :: "'w attest_env \<Rightarrow> (verifier, 'w) verify" where
  "plain_verify env v w = (case Verify env v w of (r, w') \<Rightarrow> (map_sum id Some r, v, w'))"

definition refreshing_verify :: "'w refresh_env \<Rightarrow> (refreshing_verifier, 'w) verify" where
  "refreshing_verify env v w = (case refreshing_Verify env v w of (r, v', w') \<Rightarrow> (map_sum id Some r, v', w'))"

lemma map_sum_Inr: "map_sum f g r = Inr y \<longleftrightarrow> (\<exists>x. r = Inr x \<and> y = g x)"
  by (cases r) auto

lemma refreshing_Verify_keeps:
  assumes "refreshing_Verify env v w = (r, v', w')" "wf_verifier (rv_inner v)"
  shows "wf_verifier (rv_inner v')" "r = Inr ev \<Longrightarrow> evidence_accepted (rf_attest env) (rv_inner v') ev"
proof -
  have "wf_verifier (rv_inner v') \<and> (r = Inr ev \<longrightarrow> evidence_accepted (rf_attest env) (rv_inner v') ev)"
    using assms(1)
  proof (cases rule: refreshing_Verify_cases)
    case direct
    then show ?thesis using assms(2) by (auto dest: Verify_accepted)
  next
    case (refused e w1)
    then show ?thesis using assms(2) refresh_unchanged [OF refused(4)] by simp
  next
    case (retried e w1 w2)
    then show ?thesis using refresh_keeps [OF retried(3) assms(2)] by (auto dest: Verify_accepted)
  qed
  then show "wf_verifier (rv_inner v')" "r = Inr ev \<Longrightarrow> evidence_accepted (rf_attest env) (rv_inner v') ev" by blast+
qed

interpretation plain: evidence_verifier "plain_verify env" wf_verifier "evidence_accepted env"
  by unfold_locales
    (auto simp: plain_verify_def map_sum_Inr split: prod.splits dest: Verify_accepted)

interpretation refreshing: evidence_verifier "refreshing_verify env" "\<lambda>v. wf_verifier (rv_inner v)"
    "\<lambda>v. evidence_accepted (rf_attest env) (rv_inner v)"
  by unfold_locales
    (auto simp: refreshing_verify_def map_sum_Inr split: prod.splits dest: refreshing_Verify_keeps)

section \<open>The rate limit\<close>

lemma allowRefresh_spaced:
  assumes "allowRefresh clock v w = (True, v', w')" "rv_last_refresh v \<noteq> 0" "in_int64 (fst (clock w) - rv_last_refresh v)"
  shows "minimumTriggeredRefreshInterval \<le> fst (clock w) - rv_last_refresh v"
    "rv_last_refresh v' = fst (clock (snd (clock w)))"
  using assms time_sub_exact [OF assms(3)]
  by (auto simp: allowRefresh_def Let_def split: prod.splits if_splits)

lemma allowRefresh_refused:
  assumes "allowRefresh clock v w = (False, v', w')"
  shows "v' = v" "time_sub (fst (clock w)) (rv_last_refresh v) < minimumTriggeredRefreshInterval"
  using assms by (auto simp: allowRefresh_def Let_def split: prod.splits if_splits)

lemma allowRefresh_first:
  assumes "rv_last_refresh v = 0"
  shows "fst (allowRefresh clock v w)"
  using assms by (auto simp: allowRefresh_def split: prod.splits)

text \<open>A clock that does not go back and stays within the range of a duration from \<open>start\<close>.\<close>

definition steady_clock :: "time \<Rightarrow> ('w \<Rightarrow> time \<times> 'w) \<Rightarrow> bool" where
  "steady_clock start clock \<longleftrightarrow> 0 < start \<and>
     (\<forall>w. start \<le> fst (clock w) \<and> fst (clock w) < start + 2 ^ 63 \<and> fst (clock w) \<le> fst (clock (snd (clock w))))"

definition refresh_in_range :: "time \<Rightarrow> refreshing_verifier \<Rightarrow> bool" where
  "refresh_in_range start v \<longleftrightarrow> rv_last_refresh v = 0 \<or> (start \<le> rv_last_refresh v \<and> rv_last_refresh v < start + 2 ^ 63)"

lemma allowRefresh_steady:
  assumes "steady_clock start clock" "allowRefresh clock v w = (True, v', w')" "refresh_in_range start v"
  shows "rv_last_refresh v' \<noteq> 0" "refresh_in_range start v'"
    "rv_last_refresh v \<noteq> 0 \<Longrightarrow> rv_last_refresh v + minimumTriggeredRefreshInterval \<le> rv_last_refresh v'"
proof -
  have t: "0 < start" "start \<le> fst (clock u)" "fst (clock u) < start + 2 ^ 63" "fst (clock u) \<le> fst (clock (snd (clock u)))" for u
    using assms(1) by (simp_all add: steady_clock_def)
  have "rv_last_refresh v' = fst (clock w) \<or> rv_last_refresh v' = fst (clock (snd (clock w)))"
    using assms(2) by (auto simp: allowRefresh_def Let_def split: prod.splits if_splits)
  with t(1) t(2,3) [of w] t(2,3) [of "snd (clock w)"] show "rv_last_refresh v' \<noteq> 0" "refresh_in_range start v'"
    by (auto simp: refresh_in_range_def)
  assume n: "rv_last_refresh v \<noteq> 0"
  have "in_int64 (fst (clock w) - rv_last_refresh v)"
    using t(2,3) [of w] assms(3) n by (auto simp: in_int64_def refresh_in_range_def)
  from allowRefresh_spaced [OF assms(2) n this] t(4) [of w]
  show "rv_last_refresh v + minimumTriggeredRefreshInterval \<le> rv_last_refresh v'" by simp
qed

section \<open>When the source is asked\<close>

text \<open>
  To see when the release source is consulted, the environment is run with a world that remembers the latest
  reading of the clock and, newest first, the reading in force at each consultation of the source. The code under
  \<open>refreshing_Verify\<close> is the same; only its environment is watched.
\<close>

type_synonym 'w watched = "'w \<times> time \<times> time list"

definition on_world :: "('w \<Rightarrow> 'a \<times> 'w) \<Rightarrow> 'w \<times> 'x \<Rightarrow> 'a \<times> 'w \<times> 'x" where
  "on_world f u = (case f (fst u) of (a, w) \<Rightarrow> (a, w, snd u))"

definition watched_clock :: "('w \<Rightarrow> time \<times> 'w) \<Rightarrow> 'w watched \<Rightarrow> time \<times> 'w watched" where
  "watched_clock clock u = (case u of (w, latest, asked) \<Rightarrow> (case clock w of (t, w') \<Rightarrow> (t, w', t, asked)))"

definition watched_source :: "('w \<Rightarrow> policy result \<times> 'w) \<Rightarrow> 'w watched \<Rightarrow> policy result \<times> 'w watched" where
  "watched_source src u = (case u of (w, latest, asked) \<Rightarrow> (case src w of (r, w') \<Rightarrow> (r, w', latest, latest # asked)))"

definition watched_env :: "'w refresh_env \<Rightarrow> 'w watched refresh_env" where
  "watched_env env = \<lparr>rf_attest = \<lparr>ae_random = (\<lambda>k. on_world (ae_random (rf_attest env) k)),
       ae_transport = (\<lambda>req. on_world (ae_transport (rf_attest env) req)), ae_now = on_world (ae_now (rf_attest env)),
       ae_nitro = on_world (ae_nitro (rf_attest env))\<rparr>,
     rf_source = watched_source (rf_source env), rf_now = watched_clock (rf_now env)\<rparr>"

text \<open>
  A run of verifications; before each of them the world moves on by \<open>f\<close>, and \<open>g\<close> changes the inner
  verifier, as the background refresh of the client does.
\<close>

fun verifications ::
    "'w refresh_env \<Rightarrow> (('w \<Rightarrow> 'w) \<times> (verifier \<Rightarrow> verifier)) list \<Rightarrow> refreshing_verifier \<Rightarrow> 'w watched \<Rightarrow>
     refreshing_verifier \<times> 'w watched" where
  "verifications env [] v u = (v, u)"
| "verifications env ((f, g) # moves) v u =
     (case refreshing_Verify (watched_env env) (v\<lparr>rv_inner := g (rv_inner v)\<rparr>) (apfst f u) of
       (r, v', u') \<Rightarrow> verifications env moves v' u')"

definition spaced :: "time list \<Rightarrow> bool" where
  "spaced ts \<longleftrightarrow> successively (\<lambda>s t. s + 300000000000 \<le> t) ts"

lemma five_minutes: "minimumTriggeredRefreshInterval = 300000000000"
  by (simp add: minimumTriggeredRefreshInterval_def duration_units)

lemma on_world_snd: "snd (snd (on_world f u)) = snd u"
  by (simp add: on_world_def split: prod.split)

lemma client_hops_world:
  assumes "\<And>req w. P w \<Longrightarrow> P (snd (tr req w))"
  shows "P w \<Longrightarrow> P (snd (snd (client_hops n tr check req via w)))"
proof (induction n arbitrary: req via w)
  case (Suc n)
  have "P (snd (tr req w))" using assms Suc.prems by blast
  then show ?case using Suc.IH by (auto split: prod.splits sum.splits option.splits) (metis snd_conv)+
qed simp

lemma http_do_world:
  assumes "\<And>req w. P w \<Longrightarrow> P (snd (tr req w))" "P w"
  shows "P (snd (http_do tr c req w))"
  using client_hops_world [of P tr w 11 "client_check c" req 0] assms
  by (simp add: http_do_def client_do_def split_beta)

definition attest_keeps :: "'w attest_env \<Rightarrow> ('w \<Rightarrow> bool) \<Rightarrow> bool" where
  "attest_keeps env P \<longleftrightarrow> (\<forall>w. P w \<longrightarrow> (\<forall>k. P (snd (ae_random env k w))) \<and> (\<forall>req. P (snd (ae_transport env req w))) \<and>
     P (snd (ae_now env w)) \<and> P (snd (ae_nitro env w)))"

lemma Verify_world:
  assumes "attest_keeps env P" "P w"
  shows "P (snd (Verify env v w))"
proof -
  have k: "P w \<Longrightarrow> ae_random env k w = (x, w1) \<Longrightarrow> P w1" "P w \<Longrightarrow> ae_now env w = (t, w1) \<Longrightarrow> P w1"
    "P w \<Longrightarrow> ae_nitro env w = (d, w1) \<Longrightarrow> P w1" for w k x t d w1
    using assms(1) unfolding attest_keeps_def by (metis snd_conv)+
  have f: "P w1" if "P w" "fetch env v nonce w = (x, w1)" for w nonce x w1
    using that http_do_world [of P "ae_transport env" w "v_client v" "attestation_request (v_endpoint v) nonce"] assms(1)
    by (auto simp: fetch_def attest_keeps_def split: prod.splits sum.splits)
  show ?thesis using assms(2) by (auto simp: Verify_def split: prod.split sum.split) (metis k f)+
qed

lemma Verify_watched:
  "snd (snd (Verify (rf_attest (watched_env env)) v u)) = snd u"
  by (rule Verify_world [where P = "\<lambda>u'. snd u' = snd u"]) (simp_all add: attest_keeps_def watched_env_def on_world_snd)

definition watched_inv :: "time \<Rightarrow> refreshing_verifier \<Rightarrow> 'w watched \<Rightarrow> bool" where
  "watched_inv start v u \<longleftrightarrow> refresh_in_range start v \<and> spaced (rev (snd (snd u))) \<and>
     (snd (snd u) = [] \<or> rv_last_refresh v \<noteq> 0 \<and> hd (snd (snd u)) = rv_last_refresh v)"

lemma watched_clock_steady:
  "steady_clock start clock \<Longrightarrow> steady_clock start (watched_clock clock)"
  by (simp add: steady_clock_def watched_clock_def split_beta)

lemma allowRefresh_watched:
  assumes "allowRefresh (watched_clock clock) v u = (b, v', u')"
  shows "snd (snd u') = snd (snd u)" "b \<Longrightarrow> rv_last_refresh v' = fst (snd u')"
  using assms
  by (auto simp: allowRefresh_def Let_def watched_clock_def split: prod.splits if_splits)

lemma spaced_snoc: "spaced (rev ts) \<Longrightarrow> (ts = [] \<or> hd ts + 300000000000 \<le> t) \<Longrightarrow> spaced (rev (t # ts))"
  by (cases ts) (auto simp: spaced_def successively_append_iff)

lemma refresh_watched:
  assumes "steady_clock start (rf_now env)" "watched_inv start v u" "refresh (watched_env env) v u = (b, v', u')"
  shows "watched_inv start v' u'"
proof -
  have c: "rf_now (watched_env env) = watched_clock (rf_now env)" "rf_source (watched_env env) = watched_source (rf_source env)"
    by (simp_all add: watched_env_def)
  obtain ok v1 u1 where a: "allowRefresh (watched_clock (rf_now env)) v u = (ok, v1, u1)" by (metis surj_pair)
  note w = allowRefresh_watched [OF a]
  show ?thesis
  proof (cases ok)
    case False
    then have "v' = v1" "u' = u1" using assms(3) a c by (auto simp: refresh_def)
    moreover have "v1 = v" using a False allowRefresh_refused(1) by metis
    ultimately show ?thesis using assms(2) w(1) by (simp add: watched_inv_def)
  next
    case True
    with a have a': "allowRefresh (watched_clock (rf_now env)) v u = (True, v1, u1)" by simp
    note s = allowRefresh_steady [OF watched_clock_steady [OF assms(1)] a', unfolded five_minutes]
    obtain r u2 where src: "watched_source (rf_source env) u1 = (r, u2)" by (metis surj_pair)
    then have u2: "snd (snd u2) = rv_last_refresh v1 # snd (snd u)"
      using w(1) w(2) [OF True] by (auto simp: watched_source_def split: prod.splits)
    have "u' = u2" "rv_last_refresh v' = rv_last_refresh v1"
      using assms(3) a' src c by (auto simp: refresh_def split: sum.splits prod.splits option.splits)
    moreover have "refresh_in_range start v" using assms(2) by (simp add: watched_inv_def)
    moreover have "spaced (rev (rv_last_refresh v1 # snd (snd u)))"
      using spaced_snoc assms(2) s(3) [OF \<open>refresh_in_range start v\<close>] by (auto simp: watched_inv_def)
    ultimately show ?thesis using u2 s(1,2) by (simp add: watched_inv_def refresh_in_range_def)
  qed
qed

lemma refreshing_Verify_watched:
  assumes "steady_clock start (rf_now env)" "watched_inv start v u" "refreshing_Verify (watched_env env) v u = (r, v', u')"
  shows "watched_inv start v' u'"
proof -
  have k: "watched_inv start x u1 = watched_inv start x u0" if "Verify (rf_attest (watched_env env)) y u0 = (q, u1)" for x y q u0 u1
    using Verify_watched [of env y u0] that by (simp add: watched_inv_def)
  from assms(3) show ?thesis
  proof (cases rule: refreshing_Verify_cases)
    case direct
    with assms(2) k show ?thesis by metis
  next
    case (refused e w1)
    with assms(1,2) k refresh_watched show ?thesis by metis
  next
    case (retried e w1 w2)
    with assms(1,2) k refresh_watched show ?thesis by metis
  qed
qed

lemma verifications_watched:
  "steady_clock start (rf_now env) \<Longrightarrow> watched_inv start v u \<Longrightarrow> verifications env moves v u = (v', u') \<Longrightarrow> watched_inv start v' u'"
proof (induction env moves v u rule: verifications.induct)
  case (2 env f g moves v u)
  obtain r v1 u1 where r: "refreshing_Verify (watched_env env) (v\<lparr>rv_inner := g (rv_inner v)\<rparr>) (apfst f u) = (r, v1, u1)"
    by (metis surj_pair)
  have "watched_inv start (v\<lparr>rv_inner := g (rv_inner v)\<rparr>) (apfst f u)"
    using 2(3) by (simp add: watched_inv_def refresh_in_range_def)
  from refreshing_Verify_watched [OF 2(2) this r] 2(1) [OF r [symmetric] refl] 2(2,4) r show ?case by simp
qed simp

section \<open>Properties\<close>

text \<open>C3: Verification accepts exactly what the policy in force admits: it succeeds with an evidence exactly
  when a fresh 32-byte nonce was drawn, the gateway's answer to it could be fetched and decoded, and the
  attestation document is admissible for it (the signature chain, nonce, key and workload binding, the pinned
  release's measurements, and the time window), and the evidence is the one made from these.\<close>

theorem verification_accepts_iff:
  "Verify env v w = (Inr ev, w') \<longleftrightarrow>
     (\<exists>nonce w1 f w2 now w3 nitro rel result doc.
        ae_random env nonceBytes w = (Inr nonce, w1) \<and> fetch env v nonce w1 = (Inr f, w2) \<and>
        ae_now env w2 = (now, w3) \<and> ae_nitro env w3 = (nitro, w') \<and>
        admissible v nitro f nonce now rel result doc \<and> ev = evidence_of v f rel result doc)"
  (is "?l \<longleftrightarrow> ?r")
proof
  assume ?l
  then show ?r by (rule Verify_Inr) blast
next
  assume ?r
  then show ?l using validate_complete by (auto simp: Verify_def)
qed

text \<open>C18: A refusal changes the policy in force only when the gateway runs a release the policy does not pin,
  and then only to the validated form of a policy the release source gave; the outcome returned is that of the
  first verification, or of the second one against the new policy.\<close>

theorem refusal_keeps_policy:
  "case refreshing_Verify env v w of (r, v', w') \<Rightarrow>
     v' = v \<and> Verify (rf_attest env) (rv_inner v) w = (r, w') \<or>
     (\<exists>e w1. Verify (rf_attest env) (rv_inner v) w = (Inl e, w1) \<and> error_is e UnpinnedRelease \<and>
        (rv_inner v' = rv_inner v \<and> r = Inl e \<or>
         (\<exists>u1 u2 p q. rf_source env u1 = (Inr p, u2) \<and> policy_validate p = Inr q \<and>
            rv_inner v' = (rv_inner v)\<lparr>v_policy := q\<rparr> \<and> Verify (rf_attest env) (rv_inner v') u2 = (r, w'))))"
proof -
  obtain r v' w' where rv: "refreshing_Verify env v w = (r, v', w')" by (metis surj_pair)
  then show ?thesis
  proof (cases rule: refreshing_Verify_cases)
    case direct
    with rv show ?thesis by simp
  next
    case (refused e w1)
    with rv refresh_unchanged [OF refused(4)] show ?thesis by auto
  next
    case (retried e w1 w2)
    obtain u1 p q where "rf_source env u1 = (Inr p, w2)" "policy_validate p = Inr q" "rv_inner v' = (rv_inner v)\<lparr>v_policy := q\<rparr>"
      using retried(3) by (rule refresh_applied)
    with retried rv show ?thesis by auto
  qed
qed

text \<open>A clock that advances one minute per reading.\<close>

definition minute_clock :: "nat \<Rightarrow> time \<times> nat" where
  "minute_clock k = (1 + minute * int (min k 100), Suc k)"

text \<open>A gateway that always runs an unknown release, and a source that never answers.\<close>

definition unknown_release_env :: "nat refresh_env" where
  "unknown_release_env = \<lparr>rf_attest = \<lparr>ae_random = (\<lambda>k w. (Inr (replicate k CHR 0x00), w)),
       ae_transport = (\<lambda>req w. (Inl (Sent UnpinnedRelease), w)), ae_now = (\<lambda>w. (1, w)),
       ae_nitro = (\<lambda>w. (\<lambda>d. Inl (Msg ''no document''), w))\<rparr>,
     rf_source = (\<lambda>w. (Inl (Msg ''offline''), w)), rf_now = minute_clock\<rparr>"

lemma unknown_release_verify:
  "\<exists>e. Verify (rf_attest (watched_env unknown_release_env)) v u = (Inl e, u) \<and> error_is e UnpinnedRelease"
proof -
  have "http_do (ae_transport (rf_attest (watched_env unknown_release_env))) c req u = (Inl (Sent UnpinnedRelease), u)" for c req
    by (simp add: http_do_def client_do_def eval_nat_numeral watched_env_def unknown_release_env_def on_world_def)
  then have f: "fetch (rf_attest (watched_env unknown_release_env)) v nonce u =
      (Inl (Wrapf ''request Gateway attestation: '' (Sent UnpinnedRelease) []), u)" for nonce
    by (simp add: fetch_def)
  have "ae_random (rf_attest (watched_env unknown_release_env)) k u = (Inr (replicate k CHR 0x00), u)" for k
    by (simp add: watched_env_def unknown_release_env_def on_world_def)
  then show ?thesis by (simp add: Verify_def f)
qed

lemma unknown_release_step:
  "\<exists>e. refreshing_Verify (watched_env unknown_release_env) \<lparr>rv_inner = v, rv_last_refresh = l\<rparr> (k, latest, asked) =
     (let now = fst (minute_clock k); again = fst (minute_clock (Suc k)) in
      if l = 0 then (Inl e, \<lparr>rv_inner = v, rv_last_refresh = now\<rparr>, (Suc k, now, now # asked))
      else if time_sub now l < 300000000000 then (Inl e, \<lparr>rv_inner = v, rv_last_refresh = l\<rparr>, (Suc k, now, asked))
      else (Inl e, \<lparr>rv_inner = v, rv_last_refresh = again\<rparr>, (Suc (Suc k), again, again # asked)))"
proof -
  have c: "rf_now (watched_env unknown_release_env) = watched_clock minute_clock"
    "rf_source (watched_env unknown_release_env) u = (Inl (Msg ''offline''), fst u, fst (snd u), fst (snd u) # snd (snd u))" for u
    by (simp_all add: watched_env_def unknown_release_env_def watched_source_def split_beta)
  obtain e where e: "Verify (rf_attest (watched_env unknown_release_env)) v (k, latest, asked) = (Inl e, (k, latest, asked))"
    "error_is e UnpinnedRelease" using unknown_release_verify by blast
  then show ?thesis
    by (intro exI [of _ e])
      (simp add: refreshing_Verify_def refresh_def allowRefresh_def c five_minutes watched_clock_def minute_clock_def Let_def)
qed

lemma unknown_release_asked:
  "snd (snd (snd (verifications unknown_release_env (replicate 7 (id, id)) (newRefreshingVerifier v) (0, 0, [])))) =
     [360000000001, 1]"
proof -
  define step where "step v u = snd (refreshing_Verify (watched_env unknown_release_env) v u)" for v u
  have r: "verifications unknown_release_env (replicate (Suc n) (id, id)) \<lparr>rv_inner = v, rv_last_refresh = l\<rparr> (k, latest, asked) =
    (case step \<lparr>rv_inner = v, rv_last_refresh = l\<rparr> (k, latest, asked) of (v', u') \<Rightarrow>
      verifications unknown_release_env (replicate n (id, id)) v' u')" for n l k latest asked
    by (simp add: step_def split_beta)
  have s: "step \<lparr>rv_inner = v, rv_last_refresh = l\<rparr> (k, latest, asked) =
     (let now = fst (minute_clock k); again = fst (minute_clock (Suc k)) in
      if l = 0 then (\<lparr>rv_inner = v, rv_last_refresh = now\<rparr>, (Suc k, now, now # asked))
      else if time_sub now l < 300000000000 then (\<lparr>rv_inner = v, rv_last_refresh = l\<rparr>, (Suc k, now, asked))
      else (\<lparr>rv_inner = v, rv_last_refresh = again\<rparr>, (Suc (Suc k), again, again # asked)))" for l k latest asked
    using unknown_release_step [of v l k latest asked] by (auto simp: step_def Let_def split: if_splits)
  have n: "replicate 7 (id, id) = replicate (Suc (Suc (Suc (Suc (Suc (Suc (Suc 0))))))) (id, id)" by (simp add: eval_nat_numeral)
  show ?thesis unfolding n newRefreshingVerifier_def r
    by (simp add: r s minute_clock_def duration_units time_sub_def max_duration_def min_duration_def del: replicate_Suc)
qed

text \<open>C20: However often a release the policy does not pin is met, whatever happens between the verifications and
  whatever the source answers, the source is consulted at instants at least five minutes (300,000,000,000 ns)
  apart, where the instant of a consultation is the latest reading of the clock before it. The clock is one that
  does not run backwards between two readings and stays within 2 ^ 63 ns (292 years) of its start.\<close>

theorem triggered_refreshes_spaced:
  assumes "steady_clock start (rf_now env)"
  shows "case verifications env moves (newRefreshingVerifier v) (w, 0, []) of (v', w', latest, asked) \<Rightarrow>
    successively (\<lambda>s t. s + 300000000000 \<le> t) (rev asked)"
proof -
  have "watched_inv start (newRefreshingVerifier v) (w, 0, [])"
    by (simp add: watched_inv_def newRefreshingVerifier_def refresh_in_range_def spaced_def)
  from verifications_watched [OF assms this] show ?thesis
    by (auto simp: watched_inv_def spaced_def split: prod.splits)
qed

theorem triggered_refreshes_spaced_witness:
  "steady_clock 1 (rf_now unknown_release_env) \<and>
   (\<forall>v. case verifications unknown_release_env (replicate 7 (id, id)) (newRefreshingVerifier v) (0, 0, []) of (v', w', latest, asked) \<Rightarrow>
      asked = [360000000001, 1] \<and> successively (\<lambda>s t. s + 300000000000 \<le> t) (rev asked))"
proof -
  have c: "steady_clock 1 (rf_now unknown_release_env)"
    by (auto simp: steady_clock_def minute_clock_def duration_units min_def unknown_release_env_def)
  show ?thesis
  proof (intro conjI allI c)
    fix v
    obtain v' w' latest asked where r: "verifications unknown_release_env (replicate 7 (id, id)) (newRefreshingVerifier v) (0, 0, []) =
      (v', w', latest, asked)" by (metis prod_cases4)
    from triggered_refreshes_spaced [OF c, of "replicate 7 (id, id)" v 0] unknown_release_asked [of v]
    show "case verifications unknown_release_env (replicate 7 (id, id)) (newRefreshingVerifier v) (0, 0, []) of (v', w', latest, asked) \<Rightarrow>
      asked = [360000000001, 1] \<and> successively (\<lambda>s t. s + 300000000000 \<le> t) (rev asked)"
      unfolding r by simp
  qed
qed

end
