(* ===== verification/GoTime.thy ===== *)
theory GoTime
  imports JsonRoundtrip
begin

text \<open>
  The calendar and the RFC 3339 text of a \<open>time.Time\<close>: \<open>Format(time.RFC3339Nano)\<close> of an
  instant in UTC, the JSON form of a \<open>time.Time\<close> and its strict parser, with the round trip
  for the years 0 to 9999 (outside them \<open>MarshalJSON\<close> is an error).
\<close>

section \<open>Days and years\<close>

definition days_before_year :: "int \<Rightarrow> int" where
  "days_before_year y = 365 * (y - 1) + (y - 1) div 4 - (y - 1) div 100 + (y - 1) div 400"

definition leap_year :: "int \<Rightarrow> bool" where
  "leap_year y \<longleftrightarrow> y mod 4 = 0 \<and> (y mod 100 \<noteq> 0 \<or> y mod 400 = 0)"

definition month_lengths :: "int \<Rightarrow> int list" where
  "month_lengths y = [31, if leap_year y then 29 else 28, 31, 30, 31, 30, 31, 31, 30, 31, 30, 31]"

lemma div_step: "(0::int) < k \<Longrightarrow> y div k = (y - 1) div k + (if y mod k = 0 then 1 else 0)"
proof -
  assume k: "0 < k"
  have "y = k * (y div k) + y mod k" by simp
  then have y1: "y - 1 = (y mod k - 1) + (y div k) * k" by (simp add: algebra_simps)
  have m: "0 \<le> y mod k" "y mod k < k" using k by simp_all
  show ?thesis
  proof (cases "y mod k = 0")
    case True
    have "(y - 1) div k = (- 1 + (y div k) * k) div k" using y1 True by simp
    also have "\<dots> = y div k + (- 1) div k" using k by (intro div_mult_self1) simp
    also have "(- 1) div k = - 1" using k by (simp only: div_eq_minus1)
    finally show ?thesis using True by simp
  next
    case False
    have "(y - 1) div k = y div k + (y mod k - 1) div k"
      using k by (subst y1) (rule div_mult_self1, simp)
    moreover have "(y mod k - 1) div k = 0" using False m by simp
    ultimately show ?thesis using False by simp
  qed
qed

lemma mod_multiple: "(y::int) mod 400 = 0 \<Longrightarrow> y mod 100 = 0" "y mod 100 = 0 \<Longrightarrow> y mod 4 = 0"
  by presburger+

lemma days_before_year_Suc: "days_before_year (y + 1) = days_before_year y + (if leap_year y then 366 else 365)"
proof -
  obtain a b c where abc: "(y - 1) div 4 = a" "(y - 1) div 100 = b" "(y - 1) div 400 = c" by blast
  have d: "y div 4 = a + (if y mod 4 = 0 then 1 else 0)" "y div 100 = b + (if y mod 100 = 0 then 1 else 0)"
    "y div 400 = c + (if y mod 400 = 0 then 1 else 0)"
    using div_step [of 4 y] div_step [of 100 y] div_step [of 400 y] by (simp_all only: abc)
  have "days_before_year y = 365 * (y - 1) + a - b + c" by (simp only: days_before_year_def abc)
  moreover have "days_before_year (y + 1) = 365 * y + y div 4 - y div 100 + y div 400"
    by (simp add: days_before_year_def)
  moreover have "a - b + c + (if y mod 4 = 0 then 1 else 0) - (if y mod 100 = 0 then 1 else 0) +
      (if y mod 400 = 0 then 1 else 0) = a - b + c + (if leap_year y then 1 else (0::int))"
  proof (cases "y mod 100 = 0")
    case True
    then have "y mod 4 = 0" by (rule mod_multiple)
    with True show ?thesis by (simp add: leap_year_def)
  next
    case False
    then have "y mod 400 \<noteq> 0" using mod_multiple(1) [of y] by argo
    with False show ?thesis by (simp add: leap_year_def)
  qed
  ultimately show ?thesis by (simp add: d split del: if_split) auto
qed

lemma sum_month_lengths: "sum_list (month_lengths y) = (if leap_year y then 366 else 365)"
  by (simp add: month_lengths_def)

text \<open>The year of a day: from an estimate that is not too late, forwards.\<close>

function year_from :: "int \<Rightarrow> int \<Rightarrow> int" where
  "year_from d y = (if days_before_year (y + 1) \<le> d then year_from d (y + 1) else y)"
  by pat_completeness auto
termination
  by (relation "measure (\<lambda>(d, y). nat (d - days_before_year y))") (auto simp: days_before_year_Suc split: if_splits)

declare year_from.simps [simp del]

definition year_of :: "int \<Rightarrow> int" where
  "year_of d = year_from d ((if 0 \<le> d then d div 366 else d div 365) + 1)"

lemma year_from_bounds:
  "days_before_year y \<le> d \<Longrightarrow>
     days_before_year (year_from d y) \<le> d \<and> d < days_before_year (year_from d y + 1)"
  by (induction d y rule: year_from.induct) (auto simp: year_from.simps split: if_splits)

lemma year_estimate: "days_before_year ((if 0 \<le> d then d div 366 else d div 365) + 1) \<le> d"
proof (cases "0 \<le> d")
  case True
  define q where "q = d div 366"
  have q: "0 \<le> q" "366 * q \<le> d" using True by (simp_all add: q_def pos_imp_zdiv_nonneg_iff)
  have "q div 4 \<le> q" "q div 400 \<le> q div 100" using q(1) by (simp_all add: div_le_dividend zdiv_mono2)
  then have "365 * q + q div 4 - q div 100 + q div 400 \<le> 366 * q" by linarith
  with True q show ?thesis by (simp add: days_before_year_def q_def [symmetric])
next
  case False
  define q where "q = d div 365"
  have q: "q < 0" "365 * q \<le> d" using False by (simp_all add: q_def neg_imp_zdiv_neg_iff div_less_dividend)
  have "q div 4 \<le> q div 100" "q div 400 \<le> 0"
    using q(1) by (simp_all add: zdiv_mono2_neg div_nonpos_pos_le0)
  then have "q div 4 - q div 100 + q div 400 \<le> 0" by linarith
  with False q show ?thesis by (simp add: days_before_year_def q_def [symmetric])
qed

lemma year_of_bounds: "days_before_year (year_of d) \<le> d \<and> d < days_before_year (year_of d + 1)"
  unfolding year_of_def by (rule year_from_bounds [OF year_estimate])

text \<open>Which month a day of the year is in, and which day of it, both from 0.\<close>

fun split_days :: "int list \<Rightarrow> int \<Rightarrow> nat \<times> int" where
  "split_days [] d = (0, d)"
| "split_days (l # ls) d = (if d < l then (0, d) else (case split_days ls (d - l) of (m, e) \<Rightarrow> (Suc m, e)))"

lemma split_days_sum: "split_days ls d = (m, e) \<Longrightarrow> sum_list (take m ls) + e = d"
  by (induction ls d arbitrary: m rule: split_days.induct) (auto split: if_splits prod.splits)

lemma split_days_bounds:
  "split_days ls d = (m, e) \<Longrightarrow> 0 \<le> d \<Longrightarrow> d < sum_list ls \<Longrightarrow> m < length ls \<and> 0 \<le> e \<and> e < ls ! m"
  by (induction ls d arbitrary: m rule: split_days.induct) (auto split: if_splits prod.splits)

section \<open>The text of an instant\<close>

fun fixed :: "nat \<Rightarrow> nat \<Rightarrow> string" where
  "fixed 0 n = []"
| "fixed (Suc w) n = fixed w (n div 10) @ [char_of (48 + n mod 10)]"

lemma fixed_length [simp]: "length (fixed w n) = w"
  by (induction w n rule: fixed.induct) auto

lemma fixed_digits: "list_all is_digit (fixed w n)"
  by (induction w n rule: fixed.induct) auto

lemma digits_val_fixed: "n < 10 ^ w \<Longrightarrow> digits_val (fixed w n) = int n"
proof (induction w n rule: fixed.induct)
  case (2 w n)
  then have "n div 10 < 10 ^ w" by (simp add: less_mult_imp_div_less mult.commute)
  with 2 have "digits_val (fixed (Suc w) n) = 10 * int (n div 10) + int (n mod 10)"
    by (simp add: digits_val_snoc)
  also have "\<dots> = int n" using mult_div_mod_eq [of 10 n] by linarith
  finally show ?case .
qed (simp add: digits_val_def)

definition day_ns :: int where "day_ns = 86400 * second"

definition strip_zeros :: "string \<Rightarrow> string" where
  "strip_zeros s = rev (dropWhile (\<lambda>c. c = CHR ''0'') (rev s))"

definition fraction_text :: "nat \<Rightarrow> string" where
  "fraction_text ns = (if ns = 0 then [] else CHR ''.'' # strip_zeros (fixed 9 ns))"

definition year_text :: "int \<Rightarrow> string" where
  "year_text y =
     (if 0 \<le> y \<and> y < 10000 then fixed 4 (nat y)
      else if 0 \<le> y then dec_nat (nat y)
      else if y > - 10000 then ''-'' @ fixed 4 (nat (- y)) else dec_int y)"

definition format_rfc3339nano :: "time \<Rightarrow> string" where
  "format_rfc3339nano t =
     (let d = t div day_ns; r = nat (t mod day_ns); s = r div 1000000000; y = year_of d;
          (m, e) = split_days (month_lengths y) (d - days_before_year y)
      in year_text y @ ''-'' @ fixed 2 (Suc m) @ ''-'' @ fixed 2 (Suc (nat e)) @ ''T'' @
         fixed 2 (s div 3600) @ '':'' @ fixed 2 (s div 60 mod 60) @ '':'' @ fixed 2 (s mod 60) @
         fraction_text (r mod 1000000000) @ ''Z'')"

definition json_year_ok :: "time \<Rightarrow> bool" where
  "json_year_ok t \<longleftrightarrow> 0 \<le> year_of (t div day_ns) \<and> year_of (t div day_ns) < 10000"

definition enc_time :: "time \<Rightarrow> string result" where
  "enc_time t = (if json_year_ok t then Inr ([dquote] @ format_rfc3339nano t @ [dquote]) else Inl json_error)"

section \<open>The strict parser\<close>

definition num_in :: "int \<Rightarrow> int \<Rightarrow> string \<Rightarrow> int option" where
  "num_in lo hi s = (if s \<noteq> [] \<and> list_all is_digit s \<and> lo \<le> digits_val s \<and> digits_val s \<le> hi
     then Some (digits_val s) else None)"

text \<open>The optional fraction: a point and at least one digit; digits past the ninth are dropped.\<close>

definition parse_fraction :: "string \<Rightarrow> int \<times> string" where
  "parse_fraction s = (case s of
     p # c # u \<Rightarrow>
       (if p = CHR ''.'' \<and> is_digit c
        then (case span_digits (c # u) of (ds, rest) \<Rightarrow>
          (digits_val (take 9 ds @ replicate (9 - length ds) (CHR ''0'')), rest))
        else (0, s))
   | _ \<Rightarrow> (0, s))"

text \<open>The zone: \<open>Z\<close>, or a sign, two digits of hours, a colon and two of minutes; in nanoseconds.\<close>

definition parse_zone :: "string \<Rightarrow> duration option" where
  "parse_zone s =
     (if s = ''Z'' then Some 0
      else if length s = 6 \<and> (s ! 0 = CHR ''+'' \<or> s ! 0 = CHR ''-'') \<and> s ! 3 = CHR '':''
      then (case (num_in 0 23 (take 2 (drop 1 s)), num_in 0 59 (drop 4 s)) of
          (Some h, Some m) \<Rightarrow> Some ((if s ! 0 = CHR ''-'' then - 1 else 1) * (h * hour + m * minute))
        | _ \<Rightarrow> None)
      else None)"

definition date_ns :: "int \<Rightarrow> int \<Rightarrow> int \<Rightarrow> int \<Rightarrow> int \<Rightarrow> int \<Rightarrow> int \<Rightarrow> time" where
  "date_ns y mo d hh mi ss ns =
     (days_before_year y + sum_list (take (nat (mo - 1)) (month_lengths y)) + (d - 1)) * day_ns +
     ((hh * 60 + mi) * 60 + ss) * second + ns"

definition parse_rfc3339 :: "string \<Rightarrow> time option" where
  "parse_rfc3339 s =
     (if length s < 19 then None
      else (case (num_in 0 9999 (take 4 s), num_in 1 12 (take 2 (drop 5 s)), num_in 0 23 (take 2 (drop 11 s)),
                  num_in 0 59 (take 2 (drop 14 s)), num_in 0 59 (take 2 (drop 17 s))) of
        (Some y, Some mo, Some hh, Some mi, Some ss) \<Rightarrow>
          (case num_in 1 (month_lengths y ! nat (mo - 1)) (take 2 (drop 8 s)) of
            Some d \<Rightarrow>
             (if s ! 4 = CHR ''-'' \<and> s ! 7 = CHR ''-'' \<and> s ! 10 = CHR ''T'' \<and> s ! 13 = CHR '':'' \<and> s ! 16 = CHR '':''
              then (case parse_fraction (drop 19 s) of (ns, z) \<Rightarrow>
                map_option (\<lambda>off. date_ns y mo d hh mi ss ns - off) (parse_zone z))
              else None)
          | None \<Rightarrow> None)
      | _ \<Rightarrow> None))"

text \<open>\<open>UnmarshalJSON\<close> reads the quoted bytes as they are, without undoing escapes.\<close>

definition decode_time :: "time decoder" where
  "decode_time old raw v = (case v of
     JNull \<Rightarrow> Inr old
   | JStr _ \<Rightarrow> (case parse_rfc3339 (butlast (tl raw)) of Some t \<Rightarrow> Inr t | None \<Rightarrow> Inl json_error)
   | _ \<Rightarrow> Inl json_error)"

section \<open>Round trip\<close>

lemma num_in_fixed:
  "n < 10 ^ w \<Longrightarrow> 0 < w \<Longrightarrow> lo \<le> int n \<Longrightarrow> int n \<le> hi \<Longrightarrow> num_in lo hi (fixed w n) = Some (int n)"
  using fixed_length [of w n] by (auto simp: num_in_def fixed_digits digits_val_fixed simp del: fixed_length)

lemma strip_zeros_split:
  "\<exists>k. s = strip_zeros s @ replicate k (CHR ''0'')"
proof -
  have "rev s = takeWhile (\<lambda>c. c = CHR ''0'') (rev s) @ dropWhile (\<lambda>c. c = CHR ''0'') (rev s)" by simp
  then have "s = strip_zeros s @ rev (takeWhile (\<lambda>c. c = CHR ''0'') (rev s))"
    unfolding strip_zeros_def by (metis rev_append rev_rev_ident)
  moreover have "takeWhile (\<lambda>c. c = CHR ''0'') (rev s) =
      replicate (length (takeWhile (\<lambda>c. c = CHR ''0'') (rev s))) (CHR ''0'')"
    by (rule replicate_length_same [symmetric]) (auto dest: set_takeWhileD)
  ultimately show ?thesis by (metis rev_replicate)
qed

lemma parse_fraction_text:
  assumes "ns < 1000000000"
  shows "parse_fraction (fraction_text ns @ ''Z'') = (int ns, ''Z'')"
proof (cases "ns = 0")
  case False
  define ds where "ds = strip_zeros (fixed 9 ns)"
  obtain k where k: "fixed 9 ns = ds @ replicate k (CHR ''0'')"
    using strip_zeros_split unfolding ds_def by blast
  have v: "digits_val (fixed 9 ns) = int ns" using assms by (intro digits_val_fixed) simp
  have len: "length ds + k = 9" using arg_cong [OF k, of length] by simp
  have dig: "list_all is_digit ds" using fixed_digits [of 9 ns] unfolding k by simp
  have zeros: "digits_val (replicate j (CHR ''0'')) = 0" for j
    by (induction j) (simp_all add: digits_val_def)
  obtain c u where cu: "ds = c # u"
  proof (cases ds)
    case Nil
    with k zeros v False show ?thesis by simp
  qed auto
  have "span_digits (ds @ ''Z'') = (ds, ''Z'')"
    by (rule span_digits_append [OF dig]) (simp add: is_digit_def in_range_def)
  moreover have "digits_val (take 9 ds @ replicate (9 - length ds) (CHR ''0'')) = int ns"
  proof -
    have "9 - length ds = k" using len by simp
    then show ?thesis using len k v by simp
  qed
  ultimately show ?thesis
    using dig False by (simp add: fraction_text_def parse_fraction_def ds_def [symmetric] cu)
qed (simp add: fraction_text_def parse_fraction_def)

lemma date_of_day:
  assumes "split_days (month_lengths y) (d - days_before_year y) = (m, e)" "y = year_of d"
  shows "m < 12" "0 \<le> e" "e < month_lengths y ! m" "e < 31"
    "days_before_year y + sum_list (take m (month_lengths y)) + e = d"
proof -
  have r: "0 \<le> d - days_before_year y" "d - days_before_year y < sum_list (month_lengths y)"
    using year_of_bounds [of d] by (simp_all add: assms(2) sum_month_lengths days_before_year_Suc)
  note b = split_days_bounds [OF assms(1) r]
  show m: "m < 12" using b by (simp add: month_lengths_def)
  show "0 \<le> e" "e < month_lengths y ! m" using b by simp_all
  have "\<forall>l\<in>set (month_lengths y). l \<le> 31" by (simp add: month_lengths_def)
  then have "month_lengths y ! m \<le> 31" using b by (metis nth_mem)
  with b show "e < 31" by linarith
  show "days_before_year y + sum_list (take m (month_lengths y)) + e = d"
    using split_days_sum [OF assms(1)] by simp
qed

text \<open>The parts of a day in nanoseconds.\<close>

lemma time_of_day:
  assumes "r < 86400 * 1000000000" "s = r div (1000000000::nat)"
  shows "s div 3600 < 24" "s div 60 mod 60 < 60" "s mod 60 < 60"
    "((int (s div 3600) * 60 + int (s div 60 mod 60)) * 60 + int (s mod 60)) * second + int (r mod 1000000000) = int r"
proof -
  have "s < 86400" using assms by (simp add: less_mult_imp_div_less)
  then show "s div 3600 < 24" by (simp add: less_mult_imp_div_less)
  have h: "s div 3600 = s div 60 div 60" using div_mult2_eq [of s 60 60] by simp
  have "s div 60 = (s div 3600) * 60 + s div 60 mod 60" unfolding h by simp
  then have "s = ((s div 3600) * 60 + s div 60 mod 60) * 60 + s mod 60" by simp
  then have "int s = (int (s div 3600) * 60 + int (s div 60 mod 60)) * 60 + int (s mod 60)"
    by (metis of_nat_add of_nat_mult of_nat_numeral)
  moreover have "int r = int s * 1000000000 + int (r mod 1000000000)"
    using assms(2) mult_div_mod_eq [of 1000000000 r] by linarith
  ultimately show "((int (s div 3600) * 60 + int (s div 60 mod 60)) * 60 + int (s mod 60)) * second +
      int (r mod 1000000000) = int r"
    by (simp add: second_def)
qed simp_all

theorem parse_format_rfc3339:
  assumes "json_year_ok t"
  shows "parse_rfc3339 (format_rfc3339nano t) = Some t"
proof -
  define d r y where "d = t div day_ns" and "r = nat (t mod day_ns)" and "y = year_of d"
  define s where "s = r div 1000000000"
  obtain m e where me: "split_days (month_lengths y) (d - days_before_year y) = (m, e)" by force
  note D = date_of_day [OF me y_def]
  have r: "r < 86400 * 1000000000" "int r = t mod day_ns"
    unfolding r_def by (simp_all add: day_ns_def second_def nat_less_iff)
  note T = time_of_day [OF r(1) s_def]
  have y: "0 \<le> y" "y < 10000" using assms by (simp_all add: json_year_ok_def y_def d_def)
  have fmt: "format_rfc3339nano t = fixed 4 (nat y) @ ''-'' @ fixed 2 (Suc m) @ ''-'' @ fixed 2 (Suc (nat e)) @ ''T'' @
      fixed 2 (s div 3600) @ '':'' @ fixed 2 (s div 60 mod 60) @ '':'' @ fixed 2 (s mod 60) @
      fraction_text (r mod 1000000000) @ ''Z''"
    using me y by (simp add: format_rfc3339nano_def Let_def d_def r_def y_def s_def year_text_def)
  have nums: "num_in 0 9999 (fixed 4 (nat y)) = Some y" "num_in 1 12 (fixed 2 (Suc m)) = Some (int m + 1)"
    "num_in 0 23 (fixed 2 (s div 3600)) = Some (int (s div 3600))"
    "num_in 0 59 (fixed 2 (s div 60 mod 60)) = Some (int (s div 60 mod 60))"
    "num_in 0 59 (fixed 2 (s mod 60)) = Some (int (s mod 60))"
    "num_in 1 (month_lengths y ! m) (fixed 2 (Suc (nat e))) = Some (e + 1)"
    using num_in_fixed [of "nat y" 4 0 9999] num_in_fixed [of "Suc m" 2 1 12]
      num_in_fixed [of "s div 3600" 2 0 23] num_in_fixed [of "s div 60 mod 60" 2 0 59]
      num_in_fixed [of "s mod 60" 2 0 59] num_in_fixed [of "Suc (nat e)" 2 1 "month_lengths y ! m"]
      y D(1-4) T(1-3)
    by (simp_all del: fixed.simps)
  have date: "date_ns y (int m + 1) (e + 1) (int (s div 3600)) (int (s div 60 mod 60)) (int (s mod 60))
      (int (r mod 1000000000)) = t"
  proof -
    have "date_ns y (int m + 1) (e + 1) (int (s div 3600)) (int (s div 60 mod 60)) (int (s mod 60))
      (int (r mod 1000000000)) = d * day_ns + int r"
      using T(4) D(5) by (simp add: date_ns_def)
    then show ?thesis using r(2) by (simp add: d_def)
  qed
  have f: "parse_fraction (fraction_text (r mod 1000000000) @ ''Z'') = (int (r mod 1000000000), ''Z'')"
    by (rule parse_fraction_text) simp
  show ?thesis
    by (simp add: fmt parse_rfc3339_def nums f parse_zone_def date nth_append del: fixed.simps)
qed

lemma decode_enc_time:
  assumes "enc_time t = Inr tx"
  shows "decode_time old tx (JStr x) = Inr t"
  using assms by (auto simp: enc_time_def decode_time_def parse_format_rfc3339 split: if_splits)

end
