(* ===== verification/JsonStruct.thy ===== *)
theory JsonStruct
  imports GoTime
begin

text \<open>
  Encoding structs and decoding them back: optional members (\<open>omitempty\<close>, \<open>omitzero\<close>), 64-bit
  unsigned numbers and raw messages, and the rules by which a round trip of a struct follows from
  the round trips of its fields.
\<close>

section \<open>More codecs\<close>

definition parse_uint64 :: "string \<Rightarrow> 64 word result" where
  "parse_uint64 s =
     (if s \<noteq> [] \<and> list_all is_digit s \<and> digits_val s < 2 ^ 64 then Inr (word_of_int (digits_val s)) else Inl json_error)"

definition decode_uint64 :: "64 word decoder" where
  "decode_uint64 old raw v = (case v of
     JNull \<Rightarrow> Inr old | JNum s \<Rightarrow> parse_uint64 s | _ \<Rightarrow> Inl json_error)"

definition enc_uint64 :: "64 word \<Rightarrow> string" where
  "enc_uint64 w = dec_nat (unat w)"

text \<open>One member, or none when the condition fails.\<close>

definition member_if :: "bool \<Rightarrow> string \<Rightarrow> string \<Rightarrow> (string \<times> string) list" where
  "member_if c k tx = (if c then [(k, tx)] else [])"

text \<open>A sequence of encodings, failing when one fails.\<close>

fun enc_all :: "string result list \<Rightarrow> string list result" where
  "enc_all [] = Inr []"
| "enc_all (x # xs) = (case x of Inl e \<Rightarrow> Inl e
     | Inr tx \<Rightarrow> (case enc_all xs of Inl e \<Rightarrow> Inl e | Inr ts \<Rightarrow> Inr (tx # ts)))"

lemma enc_all_list_all2: "enc_all (map f xs) = Inr ts \<Longrightarrow> list_all2 (\<lambda>t x. f x = Inr t) ts xs"
  by (induction xs arbitrary: ts) (auto split: sum.splits)

lemma enc_all_Inr: "(\<And>x. x \<in> set xs \<Longrightarrow> \<exists>t. f x = Inr t) \<Longrightarrow> \<exists>ts. enc_all (map f xs) = Inr ts"
  by (induction xs) (force split: sum.splits)+

section \<open>Round trips\<close>

text \<open>\<open>tx\<close> is a value that \<open>dec\<close>, started on \<open>old\<close>, decodes to \<open>x\<close>, wherever it stands.\<close>

definition decodes :: "nat \<Rightarrow> 'a decoder \<Rightarrow> 'a \<Rightarrow> string \<Rightarrow> 'a \<Rightarrow> bool" where
  "decodes k dec old tx x \<longleftrightarrow> (\<exists>v. parses_to k tx v \<and> dec old tx v = Inr x)"

lemma decodes_mono: "decodes k dec old tx x \<Longrightarrow> k \<le> l \<Longrightarrow> decodes l dec old tx x"
  by (auto simp: decodes_def intro: parses_to_mono)

lemma decodes_string: "utf8_valid s \<Longrightarrow> decodes k decode_string old (enc_string s) s"
  unfolding decodes_def by (rule exI [of _ "JStr s"]) (simp add: parses_to_string decode_string_def)

lemma decodes_bool: "decodes k decode_bool old (enc_bool b) b"
  unfolding decodes_def by (rule exI [of _ "JBool b"]) (simp add: parses_to_bool decode_bool_def)

lemma decodes_int: "in_int64 i \<Longrightarrow> decodes k decode_int old (dec_int i) i"
  unfolding decodes_def
  by (rule exI [of _ "JNum (dec_int i)"]) (simp add: parses_to_int decode_int_def parse_int64_dec_int)

lemma parse_uint64_dec: "parse_uint64 (dec_nat (unat w)) = Inr w"
proof -
  have "unat w < 2 ^ LENGTH(64)" by (rule unsigned_less)
  then have "int (unat w) < 2 ^ 64" by (simp del: of_nat_unat)
  then show ?thesis by (simp add: parse_uint64_def dec_nat_digits digits_val_dec_nat)
qed

lemma decodes_uint64: "decodes k decode_uint64 old (enc_uint64 w) w"
proof -
  have "dec_int (int (unat w)) = dec_nat (unat w)" by (simp add: dec_int_def del: of_nat_unat)
  then have "parses_to k (enc_uint64 w) (JNum (enc_uint64 w))"
    using parses_to_int [of k "int (unat w)"] by (simp add: enc_uint64_def del: of_nat_unat)
  then show ?thesis
    unfolding decodes_def by (intro exI [of _ "JNum (enc_uint64 w)"])
      (simp add: decode_uint64_def parse_uint64_dec enc_uint64_def)
qed

lemma parses_to_null: "parses_to k ''null'' JNull"
  unfolding parses_to_def
proof (intro conjI allI impI)
  fix f d t
  assume "2 * length ''null'' < f \<and> k \<le> d \<and> delim t"
  then obtain g where "f = Suc g" by (cases f) auto
  then show "parse_value f d (''null'' @ t) = Some (JNull, t)" by (simp add: parse_value.simps(2))
qed simp_all

text \<open>Base64 text and RFC 3339 text need no escapes.\<close>

lemma parses_to_plain: "list_all plain_char s \<Longrightarrow> parses_to k ([dquote] @ s @ [dquote]) (JStr s)"
  using parses_to_string [of s k] by (simp add: utf8_valid_plain enc_string_def escape_plain)

lemma plain_digits: "is_digit c \<Longrightarrow> plain_char c"
  by (auto simp: is_digit_def in_range_def plain_char_def)

lemma plain_fixed: "list_all plain_char (fixed w n)"
  using fixed_digits [of w n] plain_digits by (auto simp: list_all_iff)

lemma plain_dec_nat: "list_all plain_char (dec_nat n)"
  using dec_nat_digits [of n] plain_digits by (auto simp: list_all_iff)

lemma plain_literals [simp]: "plain_char CHR ''-''" "plain_char CHR '':''" "plain_char CHR ''T''" "plain_char CHR ''Z''" "plain_char CHR ''.''"
  by (simp_all add: plain_char_def)

lemma plain_fraction: "list_all plain_char (fraction_text n)"
proof -
  have "set (strip_zeros (fixed 9 n)) \<subseteq> set (fixed 9 n)"
    by (auto simp: strip_zeros_def dest: set_dropWhileD)
  then show ?thesis using plain_fixed [of 9 n] by (auto simp: fraction_text_def list_all_iff simp del: fixed.simps)
qed

lemma plain_rfc3339: "list_all plain_char (format_rfc3339nano t)"
proof -
  have y: "list_all plain_char (year_text y)" for y
    by (auto simp: year_text_def plain_fixed plain_dec_nat dec_int_def)
  show ?thesis
    by (auto simp: format_rfc3339nano_def Let_def y plain_fixed plain_fraction simp del: fixed.simps split: prod.splits)
qed

lemma decodes_time: "enc_time t = Inr tx \<Longrightarrow> decodes k decode_time old tx t"
  unfolding decodes_def
  by (rule exI [of _ "JStr (format_rfc3339nano t)"])
     (auto simp: decode_enc_time enc_time_def intro: parses_to_plain [OF plain_rfc3339, simplified] split: if_splits)

lemma b64_std_val_plain: "b64_std_val c \<noteq> None \<Longrightarrow> plain_char c"
  by (auto simp: b64_std_val_def plain_char_def Let_def split: if_splits)

lemma b64_std_char_plain_char [simp]: "n < 64 \<Longrightarrow> plain_char (b64_std_char n)"
  by (rule b64_std_val_plain) simp

lemma plain_b64: "list_all plain_char (b64_std_encode s)"
  unfolding b64_std_encode_def
  by (induction "b64_std_char" "''=''" s rule: b64_encode.induct) (simp_all add: b64_sextets plain_char_def [of "CHR ''=''"])

lemma decodes_bytes: "decodes k decode_bytes old (enc_bytes b) b"
  unfolding decodes_def
  by (rule exI [of _ "JStr (b64_std_encode b)"])
     (simp add: decode_bytes_def enc_bytes_def parses_to_plain [OF plain_b64, simplified])

lemma decodes_raw: "parses_to k tx v \<Longrightarrow> decodes k decode_raw old tx tx"
  by (auto simp: decodes_def decode_raw_def)

text \<open>Members in sequence, from one state of the destination to the next.\<close>

definition members_decode ::
    "nat \<Rightarrow> bool \<Rightarrow> 'r fields \<Rightarrow> (string \<times> string) list \<Rightarrow> 'r \<Rightarrow> 'r \<Rightarrow> bool" where
  "members_decode k strict fs ms r r' \<longleftrightarrow>
     (\<exists>js. list_all2 (member_parses k) ms js \<and> decode_members strict fs js r = Inr r')"

lemma members_decode_Nil: "members_decode k strict fs [] r r"
  by (simp add: members_decode_def)

lemma members_decode_append:
  assumes "members_decode k strict fs ms r r1" "members_decode k strict fs ns r1 r2"
  shows "members_decode k strict fs (ms @ ns) r r2"
proof -
  obtain js ls where "list_all2 (member_parses k) ms js" "decode_members strict fs js r = Inr r1"
    "list_all2 (member_parses k) ns ls" "decode_members strict fs ls r1 = Inr r2"
    using assms by (auto simp: members_decode_def)
  moreover have "decode_members strict fs js r = Inr r1 \<Longrightarrow> decode_members strict fs ls r1 = Inr r2 \<Longrightarrow>
      decode_members strict fs (js @ ls) r = Inr r2" for js
    by (induction strict fs js r rule: decode_members.induct) (auto split: option.splits if_splits sum.splits)
  ultimately show ?thesis unfolding members_decode_def by (blast intro: list_all2_appendI)
qed

lemma members_decode_one:
  assumes "find_field fs n = Some (field get put dec)" "utf8_valid n" "decodes k dec (get r) tx x" "r' = put x r"
  shows "members_decode k strict fs [(n, tx)] r r'"
proof -
  obtain v where "parses_to k tx v" "dec (get r) tx v = Inr x" using assms(3) by (auto simp: decodes_def)
  then show ?thesis
    using assms unfolding members_decode_def
    by (intro exI [of _ "[(n, tx, v)]"]) (simp add: member_parses_def field_def)
qed

lemma members_decode_put:
  assumes "find_field fs n = Some (field get put dec)" "utf8_valid n" "decodes k dec (get r) tx x"
  shows "members_decode k strict fs [(n, tx)] r (put x r)"
  using assms by (rule members_decode_one) simp

lemma members_decode_opt:
  assumes "find_field fs n = Some (field get put dec)" "utf8_valid n" "c \<Longrightarrow> decodes k dec (get r) tx x"
    "\<not> c \<Longrightarrow> put x r = r"
  shows "members_decode k strict fs (member_if c n tx) r (put x r)"
  using assms members_decode_put [OF assms(1,2)] by (auto simp: member_if_def members_decode_Nil)

lemma decodes_struct:
  assumes "members_decode k strict fs ms r r'"
  shows "decodes (Suc k) (decode_struct strict fs) r (enc_object ms) r'"
proof -
  obtain js where "list_all2 (member_parses k) ms js" "decode_members strict fs js r = Inr r'"
    using assms by (auto simp: members_decode_def)
  then show ?thesis
    unfolding decodes_def by (intro exI [of _ "JObj js"]) (simp add: parses_to_object decode_struct_def)
qed

lemma decodes_slice:
  assumes "list_all2 (\<lambda>tx x. decodes k dec zero tx x) ts xs"
  shows "decodes (Suc k) (decode_slice dec zero) [] (enc_array ts) xs"
proof -
  have "\<exists>vs. list_all2 (parses_to k) ts vs \<and> decode_elems dec zero [] (zip ts vs) = Inr xs"
    using assms
  proof (induction ts xs rule: list_all2_induct)
    case (Cons t ts x xs)
    obtain v where v: "parses_to k t v" "dec zero t v = Inr x" using Cons(1) by (auto simp: decodes_def)
    obtain vs where "list_all2 (parses_to k) ts vs" "decode_elems dec zero [] (zip ts vs) = Inr xs"
      using Cons.IH by blast
    with v show ?case by (intro exI [of _ "v # vs"]) simp
  qed simp
  then obtain vs where "list_all2 (parses_to k) ts vs" "decode_elems dec zero [] (zip ts vs) = Inr xs" by blast
  then show ?thesis
    unfolding decodes_def by (intro exI [of _ "JArr (zip ts vs)"]) (simp add: parses_to_array decode_slice_def)
qed

lemma json_unmarshal_decodes:
  assumes "decodes k dec r tx x" "k \<le> max_nesting"
  shows "json_unmarshal dec r tx = Inr x"
  using assms by (auto simp: decodes_def json_unmarshal_def dest: json_parse_enc)

end
