(* ===== verification/Manifest.thy ===== *)
theory Manifest
  imports Policy JsonStruct
begin

text \<open>
  The signed release manifest (internal/release/manifest.go). \<open>%q\<close> of an error message is
  written out for ASCII text; other bytes are shown as \<open>\xNN\<close>, where Go prints a printable
  character as it is. Only the text of an error depends on it.
\<close>

definition Release_ManifestSchemaVersion :: int where "Release_ManifestSchemaVersion = 2"
definition MeasurementsSchemaVersion :: int where "MeasurementsSchemaVersion = 2"
definition Environment :: string where "Environment = ''prod''"
definition maxManifestBytes :: nat where "maxManifestBytes = 65536"
definition pcrHexLength :: nat where "pcrHexLength = 96"

definition go_quote :: "string \<Rightarrow> string" where
  "go_quote s = [dquote] @ concat (map (\<lambda>c.
     if c = dquote \<or> c = bslash then [bslash, c]
     else if 32 \<le> ord_of c \<and> ord_of c < 127 then [c]
     else [bslash, CHR ''x''] @ hex_encode [c]) s) @ [dquote]"

text \<open>The nested structs of the source, flat.\<close>

record release_manifest =
  mf_schema_version :: int
  mf_version :: string
  mf_environment :: string
  mf_repository :: string
  mf_revision :: string
  mf_measurements_version :: int
  mf_pcr0 :: string
  mf_pcr1 :: string
  mf_pcr2 :: string
  mf_protocol :: string
  mf_suite :: string
  mf_endpoint :: string

definition zero_manifest :: release_manifest where
  "zero_manifest = \<lparr>mf_schema_version = 0, mf_version = [], mf_environment = [], mf_repository = [],
     mf_revision = [], mf_measurements_version = 0, mf_pcr0 = [], mf_pcr1 = [], mf_pcr2 = [],
     mf_protocol = [], mf_suite = [], mf_endpoint = []\<rparr>"

definition measurements_fields :: "release_manifest fields" where
  "measurements_fields =
    [(''schema_version'', field mf_measurements_version (\<lambda>x. mf_measurements_version_update (\<lambda>_. x)) decode_int),
     (''pcr0'', field mf_pcr0 (\<lambda>x. mf_pcr0_update (\<lambda>_. x)) decode_string),
     (''pcr1'', field mf_pcr1 (\<lambda>x. mf_pcr1_update (\<lambda>_. x)) decode_string),
     (''pcr2'', field mf_pcr2 (\<lambda>x. mf_pcr2_update (\<lambda>_. x)) decode_string)]"

definition body_e2ee_fields :: "release_manifest fields" where
  "body_e2ee_fields =
    [(''protocol'', field mf_protocol (\<lambda>x. mf_protocol_update (\<lambda>_. x)) decode_string),
     (''suite'', field mf_suite (\<lambda>x. mf_suite_update (\<lambda>_. x)) decode_string),
     (''endpoint'', field mf_endpoint (\<lambda>x. mf_endpoint_update (\<lambda>_. x)) decode_string)]"

definition manifest_fields :: "release_manifest fields" where
  "manifest_fields =
    [(''schema_version'', field mf_schema_version (\<lambda>x. mf_schema_version_update (\<lambda>_. x)) decode_int),
     (''release'', decode_struct False
        [(''version'', field mf_version (\<lambda>x. mf_version_update (\<lambda>_. x)) decode_string),
         (''environment'', field mf_environment (\<lambda>x. mf_environment_update (\<lambda>_. x)) decode_string)]),
     (''source'', decode_struct False
        [(''repository'', field mf_repository (\<lambda>x. mf_repository_update (\<lambda>_. x)) decode_string),
         (''revision'', field mf_revision (\<lambda>x. mf_revision_update (\<lambda>_. x)) decode_string)]),
     (''enclave'', decode_struct False [(''measurements'', decode_struct False measurements_fields)]),
     (''security_profile'', decode_struct False [(''body_e2ee'', decode_struct False body_e2ee_fields)])]"

definition revisionPattern :: "string \<Rightarrow> bool" where
  "revisionPattern s \<longleftrightarrow> length s = 40 \<and> list_all is_lower_hex s"

definition pcrPattern :: "string \<Rightarrow> bool" where
  "pcrPattern s \<longleftrightarrow> length s = 96 \<and> list_all is_lower_hex s"

text \<open>\<open>^v[0-9]+\.[0-9]+\.[0-9]+$\<close>: a \<open>v\<close> and three numbers between dots.\<close>

definition digits1 :: "string \<Rightarrow> bool" where
  "digits1 s \<longleftrightarrow> s \<noteq> [] \<and> list_all is_digit s"

definition versionPattern :: "string \<Rightarrow> bool" where
  "versionPattern s = (case s of
     [] \<Rightarrow> False
   | c # rest \<Rightarrow> c = CHR ''v'' \<and> (case cut_byte CHR ''.'' rest of
       (a, r1, f1) \<Rightarrow> (case cut_byte CHR ''.'' r1 of
         (b, d, f2) \<Rightarrow> f1 \<and> f2 \<and> digits1 a \<and> digits1 b \<and> digits1 d)))"

fun allZeroHex :: "string \<Rightarrow> bool" where
  "allZeroHex [] = True"
| "allZeroHex (c # s) = (if c \<noteq> CHR ''0'' then False else allZeroHex s)"

fun check_measurements :: "(string \<times> string) list \<Rightarrow> error option" where
  "check_measurements [] = None"
| "check_measurements ((name, value) # items) =
     (if length value \<noteq> pcrHexLength \<or> \<not> pcrPattern value
      then Some (Msg (name @ '' must be '' @ dec_nat pcrHexLength @ '' canonical lowercase hexadecimal characters''))
      else if allZeroHex value then Some (Msg (name @ '' is all zero (unsafe debug measurement)''))
      else check_measurements items)"

definition manifest_validate :: "release_manifest \<Rightarrow> error option" where
  "manifest_validate m =
     (if mf_schema_version m \<noteq> Release_ManifestSchemaVersion
      then Some (Msg (''release manifest schema_version must be '' @ dec_int Release_ManifestSchemaVersion))
      else if mf_measurements_version m \<noteq> MeasurementsSchemaVersion
      then Some (Msg (''release measurements schema_version must be '' @ dec_int MeasurementsSchemaVersion))
      else if mf_environment m \<noteq> Environment
      then Some (Msg (''release environment must be '' @ go_quote Environment @ '', got '' @ go_quote (mf_environment m)))
      else if \<not> versionPattern (mf_version m)
      then Some (Msg (''release version must look like v1.2.3, got '' @ go_quote (mf_version m)))
      else if \<not> revisionPattern (mf_revision m)
      then Some (Msg ''source revision must be a full lowercase 40-character Git revision'')
      else check_measurements [(''pcr0'', mf_pcr0 m), (''pcr1'', mf_pcr1 m), (''pcr2'', mf_pcr2 m)])"

definition ParseManifest :: "bytes \<Rightarrow> release_manifest result" where
  "ParseManifest data =
     (if data = [] then Inl (Msg ''release manifest is empty'')
      else if length data > maxManifestBytes
      then Inl (Msg (''release manifest exceeds '' @ dec_nat maxManifestBytes @ '' bytes''))
      else (case json_unmarshal (decode_struct False manifest_fields) zero_manifest data of
        Inl e \<Rightarrow> Inl (Wrapf ''decode release manifest: '' e [])
      | Inr m \<Rightarrow> (case manifest_validate m of Some e \<Rightarrow> Inl e | None \<Rightarrow> Inr m)))"

section \<open>Valid manifests\<close>

definition valid_measurement :: "string \<Rightarrow> bool" where
  "valid_measurement s \<longleftrightarrow> length s = 96 \<and> list_all is_lower_hex s \<and> \<not> list_all (\<lambda>c. c = CHR ''0'') s"

definition valid_manifest :: "release_manifest \<Rightarrow> bool" where
  "valid_manifest m \<longleftrightarrow> mf_schema_version m = 2 \<and> mf_measurements_version m = 2 \<and>
     mf_environment m = ''prod'' \<and> versionPattern (mf_version m) \<and>
     length (mf_revision m) = 40 \<and> list_all is_lower_hex (mf_revision m) \<and>
     valid_measurement (mf_pcr0 m) \<and> valid_measurement (mf_pcr1 m) \<and> valid_measurement (mf_pcr2 m)"

lemma allZeroHex_iff: "allZeroHex s \<longleftrightarrow> list_all (\<lambda>c. c = CHR ''0'') s"
  by (induction s) auto

lemma manifest_validate_iff: "manifest_validate m = None \<longleftrightarrow> valid_manifest m"
  by (auto simp: manifest_validate_def valid_manifest_def valid_measurement_def Release_ManifestSchemaVersion_def
      MeasurementsSchemaVersion_def Environment_def revisionPattern_def pcrPattern_def pcrHexLength_def allZeroHex_iff)

lemma ParseManifest_valid: "ParseManifest data = Inr m \<Longrightarrow> valid_manifest m"
  by (auto simp: ParseManifest_def manifest_validate_iff split: if_splits sum.splits option.splits)

text \<open>A valid manifest's measurements are measurements of the trust policy.\<close>

lemma hex_encode_zero: "hex_encode (replicate n (CHR 0x00)) = replicate (2 * n) (CHR ''0'')"
  by (induction n) (simp_all add: hex_char_def char_of_eq_iff)

lemma valid_measurement_decodes:
  assumes "valid_measurement s"
  shows "\<exists>d. decodePCR i s = Inr d"
proof -
  have "even (length s)" "list_all is_lower_hex s" using assms by (simp_all add: valid_measurement_def)
  then obtain d where d: "hex_decode s = Inr d" "hex_encode d = s" using hex_canonical_iff [of s] by blast
  then have len: "length d = 48" using assms hex_decode_length [of s d] by (simp add: valid_measurement_def)
  have "\<not> allZero d"
  proof
    assume "allZero d"
    then have "list_all (\<lambda>c. c = CHR 0x00) d" by (simp add: allZero_iff)
    then have "replicate (length d) (CHR 0x00) = d" by (intro replicate_length_same) (auto simp: list_all_iff)
    then have "hex_encode d = replicate (2 * length d) (CHR ''0'')" using hex_encode_zero [of "length d"] by metis
    then have "list_all (\<lambda>c. c = CHR ''0'') (hex_encode d)" by (auto simp: list_all_iff)
    then have "list_all (\<lambda>c. c = CHR ''0'') s" unfolding d(2) .
    then show False using assms unfolding valid_measurement_def by blast
  qed
  with d len have "decodePCR i s = Inr d" by (simp add: decodePCR_iff pcrBytes_def)
  then show ?thesis by blast
qed

section \<open>Properties\<close>

text \<open>A release manifest passes validation exactly when its versions and environment are the compiled-in
  ones, its version and revision are well-formed, and its three measurements are canonical non-zero SHA-384 values.\<close>

theorem manifest_accepted_iff: "manifest_validate m = None \<longleftrightarrow> valid_manifest m"
  by (rule manifest_validate_iff)

end
