(* ===== verification/ReleaseVerify.thy ===== *)
theory ReleaseVerify
  imports Manifest
begin

text \<open>
  Verification of signed release manifests and the policy derived from them
  (internal/release/verify.go). The sigstore packages are a parameter: a record of the five calls
  the source makes, over its own types of trusted roots, verifiers, bundles and identities. Its
  \<open>sg_new_verifier\<close> takes the three thresholds the source configures, in the order of the source.
\<close>

record ('t, 'v, 'b, 'i) sigstore =
  sg_root :: "bytes \<Rightarrow> 't result"
  sg_new_verifier :: "'t \<Rightarrow> nat \<Rightarrow> nat \<Rightarrow> nat \<Rightarrow> 'v result"
  sg_parse_bundle :: "bytes \<Rightarrow> 'b result"
  sg_identity :: "string \<Rightarrow> string \<Rightarrow> string \<Rightarrow> string \<Rightarrow> 'i result"
  sg_verify :: "'v \<Rightarrow> 'b \<Rightarrow> bytes \<Rightarrow> 'i \<Rightarrow> error option"

definition CertificateIdentity :: string where
  "CertificateIdentity = ''https://github.com/dappnode/dappnode-nexus-gateway/'' @
     ''.github/workflows/release-and-push.yml@refs/heads/main''"

definition CertificateOIDCIssuer :: string where
  "CertificateOIDCIssuer = ''https://token.actions.githubusercontent.com''"

definition SourceRepository :: string where
  "SourceRepository = ''https://github.com/dappnode/dappnode-nexus-gateway''"

definition NewReleaseVerifier :: "('t, 'v, 'b, 'i) sigstore \<Rightarrow> bytes \<Rightarrow> 'v result" where
  "NewReleaseVerifier sg trustedRootJSON =
     (if trustedRootJSON = [] then Inl (Msg ''embedded Sigstore trusted root is required'')
      else (case sg_root sg trustedRootJSON of
        Inl e \<Rightarrow> Inl (Wrapf ''load Sigstore trusted root: '' e [])
      | Inr trustedRoot \<Rightarrow> (case sg_new_verifier sg trustedRoot 1 1 1 of
          Inl e \<Rightarrow> Inl (Wrapf ''configure Sigstore verifier: '' e [])
        | Inr inner \<Rightarrow> Inr inner)))"

definition checkEncryptionFloor :: "release_manifest \<Rightarrow> error option" where
  "checkEncryptionFloor m =
     (if mf_protocol m \<noteq> EHBPProtocol \<or> mf_suite m \<noteq> EHBPSuite \<or> mf_endpoint m \<noteq> ConfidentialEndpoint
      then Some (Msg ''release manifest advertises an unsupported body-encryption profile'') else None)"

text \<open>\<open>None\<close> is a nil verifier, or one without its inner verifier.\<close>

definition Release_Verify ::
    "('t, 'v, 'b, 'i) sigstore \<Rightarrow> 'v option \<Rightarrow> bytes \<Rightarrow> bytes \<Rightarrow> release_manifest result" where
  "Release_Verify sg v manifestJSON bundleJSON = (case v of
     None \<Rightarrow> Inl (Msg ''release verifier is not configured'')
   | Some inner \<Rightarrow>
      (if manifestJSON = [] \<or> bundleJSON = []
       then Inl (Msg ''release manifest and signature bundle are both required'')
       else if length manifestJSON > maxManifestBytes
       then Inl (Msg (''release manifest exceeds '' @ dec_nat maxManifestBytes @ '' bytes''))
       else (case sg_parse_bundle sg bundleJSON of
         Inl e \<Rightarrow> Inl (Wrapf ''decode signature bundle: '' e [])
       | Inr parsedBundle \<Rightarrow> (case sg_identity sg CertificateOIDCIssuer [] CertificateIdentity [] of
           Inl e \<Rightarrow> Inl (Wrapf ''build certificate identity policy: '' e [])
         | Inr identity \<Rightarrow> (case sg_verify sg inner parsedBundle manifestJSON identity of
             Some e \<Rightarrow> Inl (Wrapf ''verify release manifest signature: '' e [])
           | None \<Rightarrow> (case ParseManifest manifestJSON of
               Inl e \<Rightarrow> Inl e
             | Inr m \<Rightarrow>
                (if mf_repository m \<noteq> SourceRepository
                 then Inl (Msg (''release manifest names repository '' @ go_quote (mf_repository m)))
                 else (case checkEncryptionFloor m of Some e \<Rightarrow> Inl e | None \<Rightarrow> Inr m))))))))"

section \<open>The derived policy\<close>

text \<open>\<open>json.Marshal\<close> of strings, numbers and booleans cannot fail, so the encoding of the document is total.\<close>

definition enc_e2ee :: "e2ee_policy \<Rightarrow> string" where
  "enc_e2ee p = enc_object
    [(''protocol'', enc_string (e2ee_protocol p)), (''suite'', enc_string (e2ee_suite p)),
     (''endpoint'', enc_string (e2ee_endpoint p)),
     (''request_encrypted'', enc_bool (e2ee_request_encrypted p)),
     (''response_encrypted'', enc_bool (e2ee_response_encrypted p))]"

definition enc_release :: "release \<Rightarrow> string" where
  "enc_release r = enc_object
    [(''source_revision'', enc_string (rel_source_revision r)), (''pcr0'', enc_string (rel_pcr0 r)),
     (''pcr1'', enc_string (rel_pcr1 r)), (''pcr2'', enc_string (rel_pcr2 r))]"

definition policy_document :: "release list \<Rightarrow> bytes" where
  "policy_document releases = enc_object
    [(''schema_version'', dec_int PolicySchemaVersion),
     (''manifest_schema_version'', dec_int ManifestSchemaVersion),
     (''workload'', enc_string GatewayWorkload), (''profile'', enc_string GatewayProfile),
     (''e2ee'', enc_e2ee \<lparr>e2ee_protocol = EHBPProtocol, e2ee_suite = EHBPSuite,
        e2ee_endpoint = ConfidentialEndpoint, e2ee_request_encrypted = True, e2ee_response_encrypted = True\<rparr>),
     (''releases'', enc_array (map enc_release releases))]"

definition manifest_release :: "release_manifest \<Rightarrow> release" where
  "manifest_release m = zero_release\<lparr>rel_source_revision := mf_revision m, rel_pcr0 := mf_pcr0 m,
     rel_pcr1 := mf_pcr1 m, rel_pcr2 := mf_pcr2 m\<rparr>"

text \<open>The loop over the manifests; a nil one is an error.\<close>

fun manifest_releases :: "release_manifest option list \<Rightarrow> release list result" where
  "manifest_releases [] = Inr []"
| "manifest_releases (None # ms) = Inl (Msg ''verified release manifest is nil'')"
| "manifest_releases (Some m # ms) = (case manifest_releases ms of
     Inl e \<Rightarrow> Inl e | Inr rs \<Rightarrow> Inr (manifest_release m # rs))"

definition Release_Policy :: "release_manifest option list \<Rightarrow> policy result" where
  "Release_Policy manifests =
     (if manifests = [] then Inl (Msg ''at least one verified release manifest is required'')
      else (case manifest_releases manifests of
        Inl e \<Rightarrow> Inl e
      | Inr releases \<Rightarrow> ParsePolicy (policy_document releases)))"

section \<open>What verification establishes\<close>

text \<open>
  A manifest that verifies is valid, carries a signature of the pinned identity over exactly these
  bytes, names the pinned repository and advertises exactly the compiled-in encryption profile.
\<close>

definition floor_ok :: "release_manifest \<Rightarrow> bool" where
  "floor_ok m \<longleftrightarrow> mf_protocol m = EHBPProtocol \<and> mf_suite m = EHBPSuite \<and> mf_endpoint m = ConfidentialEndpoint"

definition signed_by_release_workflow :: "('t, 'v, 'b, 'i) sigstore \<Rightarrow> 'v \<Rightarrow> bytes \<Rightarrow> bytes \<Rightarrow> bool" where
  "signed_by_release_workflow sg inner manifestJSON bundleJSON \<longleftrightarrow>
     (\<exists>b i. sg_parse_bundle sg bundleJSON = Inr b \<and>
        sg_identity sg CertificateOIDCIssuer [] CertificateIdentity [] = Inr i \<and>
        sg_verify sg inner b manifestJSON i = None)"

lemma checkEncryptionFloor_iff: "checkEncryptionFloor m = None \<longleftrightarrow> floor_ok m"
  by (simp add: checkEncryptionFloor_def floor_ok_def)

lemma ParseManifest_bounds:
  "ParseManifest data = Inr m \<Longrightarrow> data \<noteq> [] \<and> length data \<le> maxManifestBytes"
  by (auto simp: ParseManifest_def split: if_splits)

lemma Release_Verify_iff:
  "Release_Verify sg v manifestJSON bundleJSON = Inr m \<longleftrightarrow>
     (\<exists>inner. v = Some inner \<and> bundleJSON \<noteq> [] \<and>
        signed_by_release_workflow sg inner manifestJSON bundleJSON \<and>
        ParseManifest manifestJSON = Inr m \<and> mf_repository m = SourceRepository \<and> floor_ok m)"
  by (auto simp: Release_Verify_def signed_by_release_workflow_def checkEncryptionFloor_iff [symmetric]
      split: option.splits sum.splits if_splits dest: ParseManifest_bounds)

definition verified_manifest :: "release_manifest \<Rightarrow> bool" where
  "verified_manifest m \<longleftrightarrow> valid_manifest m \<and> mf_repository m = SourceRepository \<and> floor_ok m"

lemma Release_Verify_verified:
  "Release_Verify sg v manifestJSON bundleJSON = Inr m \<Longrightarrow> verified_manifest m"
  by (auto simp: Release_Verify_iff verified_manifest_def dest: ParseManifest_valid)

section \<open>The derived policy pins the manifests' releases\<close>

lemma manifest_releases_iff:
  "manifest_releases ms = Inr rs \<longleftrightarrow> None \<notin> set ms \<and> rs = map (manifest_release \<circ> the) ms"
proof (induction ms arbitrary: rs rule: manifest_releases.induct)
  case (3 m ms)
  then show ?case by (cases "manifest_releases ms") (simp_all, blast+)
qed auto

lemma release_field_find:
  "find_field release_fields ''source_revision'' = Some (field rel_source_revision (\<lambda>x. rel_source_revision_update (\<lambda>_. x)) decode_string)"
  "find_field release_fields ''pcr0'' = Some (field rel_pcr0 (\<lambda>x. rel_pcr0_update (\<lambda>_. x)) decode_string)"
  "find_field release_fields ''pcr1'' = Some (field rel_pcr1 (\<lambda>x. rel_pcr1_update (\<lambda>_. x)) decode_string)"
  "find_field release_fields ''pcr2'' = Some (field rel_pcr2 (\<lambda>x. rel_pcr2_update (\<lambda>_. x)) decode_string)"
  by (simp_all add: release_fields_def find_field_def)

lemma e2ee_field_find:
  "find_field e2ee_fields ''protocol'' = Some (field e2ee_protocol (\<lambda>x. e2ee_protocol_update (\<lambda>_. x)) decode_string)"
  "find_field e2ee_fields ''suite'' = Some (field e2ee_suite (\<lambda>x. e2ee_suite_update (\<lambda>_. x)) decode_string)"
  "find_field e2ee_fields ''endpoint'' = Some (field e2ee_endpoint (\<lambda>x. e2ee_endpoint_update (\<lambda>_. x)) decode_string)"
  "find_field e2ee_fields ''request_encrypted'' = Some (field e2ee_request_encrypted (\<lambda>x. e2ee_request_encrypted_update (\<lambda>_. x)) decode_bool)"
  "find_field e2ee_fields ''response_encrypted'' = Some (field e2ee_response_encrypted (\<lambda>x. e2ee_response_encrypted_update (\<lambda>_. x)) decode_bool)"
  by (simp_all add: e2ee_fields_def find_field_def)

lemma policy_field_find:
  "find_field policy_fields ''schema_version'' = Some (field pol_schema_version (\<lambda>x. pol_schema_version_update (\<lambda>_. x)) decode_int)"
  "find_field policy_fields ''manifest_schema_version'' = Some (field pol_manifest_schema_version (\<lambda>x. pol_manifest_schema_version_update (\<lambda>_. x)) decode_int)"
  "find_field policy_fields ''workload'' = Some (field pol_workload (\<lambda>x. pol_workload_update (\<lambda>_. x)) decode_string)"
  "find_field policy_fields ''profile'' = Some (field pol_profile (\<lambda>x. pol_profile_update (\<lambda>_. x)) decode_string)"
  "find_field policy_fields ''e2ee'' = Some (field pol_e2ee (\<lambda>x. pol_e2ee_update (\<lambda>_. x)) (decode_struct True e2ee_fields))"
  "find_field policy_fields ''releases'' = Some (field pol_releases (\<lambda>x. pol_releases_update (\<lambda>_. x)) (decode_slice (decode_struct True release_fields) zero_release))"
  by (simp_all add: policy_fields_def find_field_def)

text \<open>Release texts a document can carry unchanged.\<close>

definition plain_release :: "release \<Rightarrow> bool" where
  "plain_release r \<longleftrightarrow> list_all plain_char (rel_source_revision r) \<and> list_all plain_char (rel_pcr0 r) \<and>
     list_all plain_char (rel_pcr1 r) \<and> list_all plain_char (rel_pcr2 r) \<and> rel_pcrs r = Map.empty"

lemma utf8_literals [simp]: "list_all plain_char s \<Longrightarrow> utf8_valid s"
  by (rule utf8_valid_plain)

lemma decodes_plain: "list_all plain_char s \<Longrightarrow> decodes k decode_string old (enc_string s) s"
  by (intro decodes_string utf8_valid_plain)

lemma decodes_release:
  assumes "plain_release r"
  shows "decodes (Suc k) (decode_struct True release_fields) zero_release (enc_release r) r"
proof -
  have "members_decode k True release_fields
      ([(''source_revision'', enc_string (rel_source_revision r))] @ [(''pcr0'', enc_string (rel_pcr0 r))] @
       [(''pcr1'', enc_string (rel_pcr1 r))] @ [(''pcr2'', enc_string (rel_pcr2 r))])
      zero_release (zero_release\<lparr>rel_source_revision := rel_source_revision r, rel_pcr0 := rel_pcr0 r,
        rel_pcr1 := rel_pcr1 r, rel_pcr2 := rel_pcr2 r\<rparr>)"
    by (rule members_decode_append release_field_find [THEN members_decode_put] decodes_plain |
      use assms in \<open>simp add: plain_release_def plain_char_def\<close>)+
  moreover have "zero_release\<lparr>rel_source_revision := rel_source_revision r, rel_pcr0 := rel_pcr0 r,
        rel_pcr1 := rel_pcr1 r, rel_pcr2 := rel_pcr2 r\<rparr> = r"
    using assms by (cases r) (simp add: zero_release_def plain_release_def)
  ultimately show ?thesis using decodes_struct unfolding enc_release_def by (metis append_Cons append_Nil)
qed

lemma plain_consts [simp]:
  "list_all plain_char EHBPProtocol" "list_all plain_char EHBPSuite" "list_all plain_char ConfidentialEndpoint"
  "list_all plain_char GatewayWorkload" "list_all plain_char GatewayProfile"
  by (simp_all add: policy_consts plain_char_def)

lemma decodes_e2ee: "decodes (Suc k) (decode_struct True e2ee_fields) zero_e2ee (enc_e2ee required_e2ee) required_e2ee"
proof -
  let ?r = "required_e2ee"
  have "members_decode k True e2ee_fields
      ([(''protocol'', enc_string (e2ee_protocol ?r))] @ [(''suite'', enc_string (e2ee_suite ?r))] @
       [(''endpoint'', enc_string (e2ee_endpoint ?r))] @ [(''request_encrypted'', enc_bool (e2ee_request_encrypted ?r))] @
       [(''response_encrypted'', enc_bool (e2ee_response_encrypted ?r))])
      zero_e2ee (zero_e2ee\<lparr>e2ee_protocol := e2ee_protocol ?r, e2ee_suite := e2ee_suite ?r,
        e2ee_endpoint := e2ee_endpoint ?r, e2ee_request_encrypted := e2ee_request_encrypted ?r,
        e2ee_response_encrypted := e2ee_response_encrypted ?r\<rparr>)"
    by (rule members_decode_append e2ee_field_find [THEN members_decode_put] decodes_plain decodes_bool |
      simp add: required_e2ee_def plain_char_def)+
  then have "members_decode k True e2ee_fields
      [(''protocol'', enc_string (e2ee_protocol ?r)), (''suite'', enc_string (e2ee_suite ?r)),
       (''endpoint'', enc_string (e2ee_endpoint ?r)), (''request_encrypted'', enc_bool (e2ee_request_encrypted ?r)),
       (''response_encrypted'', enc_bool (e2ee_response_encrypted ?r))] zero_e2ee ?r"
    by (simp add: zero_e2ee_def required_e2ee_def)
  then show ?thesis unfolding enc_e2ee_def by (rule decodes_struct)
qed

definition document_policy :: "release list \<Rightarrow> policy" where
  "document_policy rs = \<lparr>pol_schema_version = PolicySchemaVersion, pol_manifest_schema_version = ManifestSchemaVersion,
     pol_workload = GatewayWorkload, pol_profile = GatewayProfile, pol_e2ee = required_e2ee, pol_releases = rs\<rparr>"

lemma decodes_policy:
  assumes "list_all plain_release rs"
  shows "decodes (Suc (Suc (Suc k))) (decode_struct True policy_fields) zero_policy (policy_document rs) (document_policy rs)"
proof -
  have rel: "decodes (Suc (Suc k)) (decode_slice (decode_struct True release_fields) zero_release) []
      (enc_array (map enc_release rs)) rs"
    by (rule decodes_slice) (use assms in \<open>auto simp: list_all2_conv_all_nth list_all_length intro: decodes_release\<close>)
  have e: "decodes (Suc (Suc k)) (decode_struct True e2ee_fields) zero_e2ee (enc_e2ee required_e2ee) required_e2ee"
    by (rule decodes_e2ee)
  have "members_decode (Suc (Suc k)) True policy_fields
      ([(''schema_version'', dec_int PolicySchemaVersion)] @ [(''manifest_schema_version'', dec_int ManifestSchemaVersion)] @
       [(''workload'', enc_string GatewayWorkload)] @ [(''profile'', enc_string GatewayProfile)] @
       [(''e2ee'', enc_e2ee required_e2ee)] @ [(''releases'', enc_array (map enc_release rs))])
      zero_policy (zero_policy\<lparr>pol_schema_version := PolicySchemaVersion, pol_manifest_schema_version := ManifestSchemaVersion,
        pol_workload := GatewayWorkload, pol_profile := GatewayProfile, pol_e2ee := required_e2ee, pol_releases := rs\<rparr>)"
    by (rule members_decode_append policy_field_find [THEN members_decode_put] decodes_plain decodes_int rel e |
      simp add: plain_char_def zero_policy_def rel e policy_consts(1,2) in_int64_def)+
  then show ?thesis
    using decodes_struct unfolding policy_document_def
    by (simp add: zero_policy_def document_policy_def required_e2ee_def)
qed

text \<open>The size of the document stays within the limit of \<open>ParsePolicy\<close>.\<close>

lemma length_enc_commas: "length (enc_commas xs) \<le> sum_list (map (\<lambda>x. Suc (length x)) xs)"
  by (induction xs rule: enc_commas.induct) simp_all

lemma length_enc_plain: "list_all plain_char s \<Longrightarrow> length (enc_string s) = length s + 2"
  by (simp add: enc_string_def escape_plain)

lemma enc_literals [simp]: "list_all plain_char s \<Longrightarrow> enc_string s = [dquote] @ s @ [dquote]"
  by (simp add: enc_string_def escape_plain)

lemma length_enc_release:
  assumes "plain_release r" "length (rel_source_revision r) = 40"
    "length (rel_pcr0 r) = 96" "length (rel_pcr1 r) = 96" "length (rel_pcr2 r) = 96"
  shows "length (enc_release r) \<le> 400"
  using assms by (simp add: enc_release_def enc_object_def plain_release_def plain_char_def)

lemma length_policy_document:
  assumes "\<forall>r\<in>set rs. length (enc_release r) \<le> 400" "length rs \<le> 4"
  shows "length (policy_document rs) \<le> 3000"
proof -
  have "sum_list (map (\<lambda>x. Suc (length x)) (map enc_release rs)) \<le> sum_list (map (\<lambda>_. 401) rs)"
    unfolding map_map by (rule sum_list_mono) (use assms in auto)
  also have "\<dots> \<le> 1604" using assms(2) by (simp add: sum_list_triv)
  finally have "length (enc_array (map enc_release rs)) \<le> 1606"
    using length_enc_commas [of "map enc_release rs"] by (simp add: enc_array_def)
  then show ?thesis
    by (simp add: policy_document_def enc_object_def enc_e2ee_def enc_bool_def policy_consts dec_int_def plain_char_def
        dec_nat.simps)
qed

lemma ParsePolicy_document:
  assumes "list_all plain_release rs" "length (policy_document rs) \<le> 65536"
  shows "ParsePolicy (policy_document rs) = policy_validate (document_policy rs)"
proof -
  obtain v where v: "parses_to 3 (policy_document rs) v"
    "decode_struct True policy_fields zero_policy (policy_document rs) v = Inr (document_policy rs)"
    using decodes_policy [OF assms(1), of 0] by (auto simp: decodes_def numeral_3_eq_3)
  then have "DecodeStrict (decode_struct True policy_fields) zero_policy (policy_document rs) = Inr (document_policy rs)"
    using v(2) by (simp add: DecodeStrict_enc [OF v(1)] max_nesting_def)
  moreover have "policy_document rs \<noteq> []" using v(1) by (simp add: parses_to_def)
  ultimately show ?thesis using assms(2) by (simp add: ParsePolicy_def maxPolicyBytes_def)
qed

lemma hex_plain: "list_all is_lower_hex s \<Longrightarrow> list_all plain_char s"
  by (auto simp: list_all_iff is_lower_hex_def plain_char_def Let_def)

lemma manifest_release_plain:
  assumes "valid_manifest m"
  shows "plain_release (manifest_release m)" "length (enc_release (manifest_release m)) \<le> 400"
    "release_ok (manifest_release m)"
proof -
  note v = assms [unfolded valid_manifest_def valid_measurement_def]
  show p: "plain_release (manifest_release m)"
    using v by (simp add: plain_release_def manifest_release_def hex_plain zero_release_def)
  show "length (enc_release (manifest_release m)) \<le> 400"
    by (rule length_enc_release [OF p]) (use v in \<open>simp_all add: manifest_release_def\<close>)
  have "\<exists>d. decodePCR i s = Inr d" if "s \<in> {mf_pcr0 m, mf_pcr1 m, mf_pcr2 m}" for i s
    using that assms valid_measurement_decodes by (auto simp: valid_manifest_def)
  then show "release_ok (manifest_release m)"
    using v by (simp add: release_ok_def manifest_release_def sourceRevisionPattern_def is_ok_iff)
qed

definition manifest_pins :: "release_manifest \<Rightarrow> string \<times> string \<times> string \<times> string" where
  "manifest_pins m = (mf_revision m, mf_pcr0 m, mf_pcr1 m, mf_pcr2 m)"

lemma Release_Policy_iff:
  assumes "\<forall>m\<in>set ms. verified_manifest m"
  shows "is_ok (Release_Policy (map Some ms)) \<longleftrightarrow> ms \<noteq> [] \<and> length ms \<le> MaxPolicyReleases \<and> distinct (map mf_revision ms)"
    "Release_Policy (map Some ms) = Inr p \<Longrightarrow> wf_policy p \<and> map release_claims (pol_releases p) = map manifest_pins ms"
proof -
  let ?rs = "map manifest_release ms"
  have v: "valid_manifest m" if "m \<in> set ms" for m using assms(1) that by (simp add: verified_manifest_def)
  have plain: "list_all plain_release ?rs" using v manifest_release_plain(1) by (auto simp: list_all_iff)
  have ok: "list_all release_ok ?rs" using v manifest_release_plain(3) by (auto simp: list_all_iff)
  have "\<forall>r\<in>set ?rs. length (enc_release r) \<le> 400" using v manifest_release_plain(2) by auto
  from length_policy_document [OF this]
  have size: "length ms \<le> MaxPolicyReleases \<Longrightarrow> length (policy_document ?rs) \<le> 65536"
    by (simp add: MaxPolicyReleases_def)
  have parse: "ParsePolicy (policy_document ?rs) = policy_validate (document_policy ?rs)" if "length (policy_document ?rs) \<le> 65536"
    by (rule ParsePolicy_document [OF plain that])
  have rel: "manifest_releases (map Some ms) = Inr ?rs" by (simp add: manifest_releases_iff)
  have pol: "Release_Policy (map Some ms) = policy_validate (document_policy ?rs)"
    if "ms \<noteq> []" "length (policy_document ?rs) \<le> 65536"
    using that by (simp add: Release_Policy_def rel parse)
  have big: "\<not> is_ok (Release_Policy (map Some ms))" if "65536 < length (policy_document ?rs)"
    using that by (auto simp: Release_Policy_def rel ParsePolicy_def maxPolicyBytes_def is_ok_def)
  have rev_of: "rel_source_revision (manifest_release m) = mf_revision m" for m by (simp add: manifest_release_def)
  have dist: "distinct (map rel_source_revision ?rs) = distinct (map mf_revision ms)"
    by (simp add: rev_of comp_def)
  show "is_ok (Release_Policy (map Some ms)) \<longleftrightarrow> ms \<noteq> [] \<and> length ms \<le> MaxPolicyReleases \<and> distinct (map mf_revision ms)"
  proof (cases "ms = [] \<or> 65536 < length (policy_document ?rs)")
    case True
    then show ?thesis using big size by (auto simp: Release_Policy_def is_ok_def)
  next
    case False
    then show ?thesis
      using ok dist pol by (simp add: policy_validate_ok_iff document_policy_def)
  qed
  assume p: "Release_Policy (map Some ms) = Inr p"
  then have "ms \<noteq> []" "length (policy_document ?rs) \<le> 65536"
    using big by (auto simp: Release_Policy_def is_ok_def intro: leI)
  with pol p have "policy_validate (document_policy ?rs) = Inr p" by simp
  from policy_validate_Inr [OF this]
  show "wf_policy p \<and> map release_claims (pol_releases p) = map manifest_pins ms"
    by (simp add: document_policy_def release_claims_def manifest_pins_def manifest_release_def comp_def)
qed

section \<open>Properties\<close>

text \<open>C12: A manifest is accepted exactly when a bundle is there, the release workflow signed these bytes, they
  parse as a valid manifest of the source repository, and the release is not below the encryption floor.\<close>

theorem release_verified_iff:
  "Release_Verify sg v manifestJSON bundleJSON = Inr m \<longleftrightarrow>
     (\<exists>inner. v = Some inner \<and> bundleJSON \<noteq> [] \<and>
        signed_by_release_workflow sg inner manifestJSON bundleJSON \<and>
        ParseManifest manifestJSON = Inr m \<and> mf_repository m = SourceRepository \<and> floor_ok m)"
  by (rule Release_Verify_iff)

text \<open>C21: Deriving a policy from verified manifests fails exactly when there is none, there are more than four, or
  two share a revision; otherwise the policy is well-formed and pins exactly the manifests, in order.\<close>

theorem derived_policy_iff:
  assumes "list_all verified_manifest ms"
  shows "case Release_Policy (map Some ms) of
      Inl _ \<Rightarrow> ms = [] \<or> 4 < length ms \<or> \<not> distinct (map mf_revision ms)
    | Inr p \<Rightarrow> ms \<noteq> [] \<and> length ms \<le> 4 \<and> distinct (map mf_revision ms) \<and> wf_policy p \<and>
        map release_claims (pol_releases p) = map manifest_pins ms"
  using Release_Policy_iff [of ms] assms
  by (cases "Release_Policy (map Some ms)") (auto simp: list_all_iff is_ok_def MaxPolicyReleases_def)

end
