(* ===== verification/GoFS.thy ===== *)
theory GoFS
  imports Prelude
begin

text \<open>
  The part of the file system the SDK writes: files by path, and the temporary-file-and-rename
  idiom as a sequence of system calls, each of which may fail. \<open>run_ops\<close> also returns every
  state the disk goes through, so that a crash at any point is one of them.
\<close>

record fs_file =
  f_data :: bytes
  f_mode :: nat

abbreviation (input) mode_0600 :: nat where "mode_0600 \<equiv> 384"
abbreviation (input) mode_0644 :: nat where "mode_0644 \<equiv> 420"

type_synonym fs = "string \<Rightarrow> fs_file option"

datatype fs_op = Chmod string nat | WriteTo string bytes | SyncFile | CloseFile | Rename string string

text \<open>\<open>Err n e\<close>: the call fails with \<open>e\<close>; a write has then put \<open>n\<close> bytes in the file.\<close>

datatype outcome = Done | Err nat error

fun fs_attempt :: "fs_op \<Rightarrow> outcome \<Rightarrow> fs \<Rightarrow> fs" where
  "fs_attempt (Chmod p m) Done fs = fs(p := map_option (f_mode_update (\<lambda>_. m)) (fs p))"
| "fs_attempt (WriteTo p d) Done fs = fs(p := map_option (f_data_update (\<lambda>old. old @ d)) (fs p))"
| "fs_attempt (WriteTo p d) (Err n e) fs = fs(p := map_option (f_data_update (\<lambda>old. old @ take n d)) (fs p))"
| "fs_attempt (Rename p q) Done fs = (case fs p of None \<Rightarrow> fs | Some f \<Rightarrow> fs(q := Some f, p := None))"
| "fs_attempt _ _ fs = fs"

fun run_ops :: "(fs_op \<times> string) list \<Rightarrow> outcome list \<Rightarrow> fs \<Rightarrow> error option \<times> fs list" where
  "run_ops [] os fs = (None, [fs])"
| "run_ops ((op, what) # ops) os fs = (case os of
     Err n e # _ \<Rightarrow> (Some (Wrapf what e []), [fs, fs_attempt op (Err n e) fs])
   | _ \<Rightarrow> (case run_ops ops (tl os) (fs_attempt op Done fs) of (r, tr) \<Rightarrow> (r, fs # tr)))"

text \<open>
  What happens around one replacement of a file: the name \<open>os.CreateTemp\<close> makes or its
  error, the outcomes of the calls in order (a call without one succeeds), whether the deferred
  \<open>os.Remove\<close> of a left-over temporary file succeeds, and the outcome of \<open>os.MkdirAll\<close>.
\<close>

record fs_env =
  fe_mkdir :: "error option"
  fe_temp :: "string result"
  fe_outcomes :: "outcome list"
  fe_remove_ok :: bool

definition replace_with ::
    "fs_env \<Rightarrow> string \<Rightarrow> (string \<Rightarrow> (fs_op \<times> string) list) \<Rightarrow> fs \<Rightarrow> error option \<times> fs list" where
  "replace_with env creating ops fs = (case fe_temp env of
     Inl e \<Rightarrow> (Some (Wrapf creating e []), [fs])
   | Inr name \<Rightarrow> (case run_ops (ops name) (fe_outcomes env) (fs(name \<mapsto> \<lparr>f_data = [], f_mode = mode_0600\<rparr>)) of
       (r, tr) \<Rightarrow> (r, fs # tr @ [if fe_remove_ok env then (last tr)(name := None) else last tr])))"

text \<open>The name of a new temporary file is free and is not the target.\<close>

definition fresh_temp :: "fs_env \<Rightarrow> string \<Rightarrow> fs \<Rightarrow> bool" where
  "fresh_temp env path fs \<longleftrightarrow> (\<forall>name. fe_temp env = Inr name \<longrightarrow> fs name = None \<and> name \<noteq> path)"

lemma run_ops_nonempty [simp]: "snd (run_ops ops os fs) \<noteq> []"
  by (cases "(ops, os, fs)" rule: run_ops.cases) (auto split: list.splits outcome.splits prod.splits)

text \<open>Operations on the temporary file alone leave every other path as it was.\<close>

fun only_touches :: "string \<Rightarrow> fs_op \<Rightarrow> bool" where
  "only_touches n (Chmod p m) = (p = n)"
| "only_touches n (WriteTo p d) = (p = n)"
| "only_touches n (Rename p q) = (p = n \<and> q = n)"
| "only_touches n _ = True"

lemma fs_attempt_frame: "only_touches n op \<Longrightarrow> q \<noteq> n \<Longrightarrow> fs_attempt op oc fs q = fs q"
  by (cases "(op, oc, fs)" rule: fs_attempt.cases) (auto split: option.splits)

text \<open>
  A sequence that prepares the temporary file and ends with the rename: at every moment each path
  other than the temporary one holds what it held, until the rename puts the prepared file at the
  target.
\<close>

definition prepared :: "(fs_op \<times> string) list \<Rightarrow> fs \<Rightarrow> fs" where
  "prepared ops fs = fold (\<lambda>(op, _). fs_attempt op Done) ops fs"

lemma run_ops_atomic:
  assumes "\<forall>(op, w)\<in>set ops. only_touches name op" "name \<noteq> path"
    "run_ops (ops @ [(Rename name path, what)]) os fs = (r, tr)" "prepared ops fs name = Some f"
  shows "(\<forall>g\<in>set tr. (\<forall>q. q \<noteq> name \<longrightarrow> g q = fs q) \<or> (\<forall>q. q \<noteq> name \<longrightarrow> g q = (fs(path \<mapsto> f)) q)) \<and>
    (r = None \<longrightarrow> (\<forall>q. q \<noteq> name \<longrightarrow> last tr q = (fs(path \<mapsto> f)) q) \<and> last tr name = None) \<and>
    (r \<noteq> None \<longrightarrow> (\<forall>q. q \<noteq> name \<longrightarrow> last tr q = fs q))"
  using assms
proof (induction ops arbitrary: os fs r tr)
  case Nil
  then show ?case by (auto simp: prepared_def split: list.splits outcome.splits)
next
  case (Cons x ops)
  obtain op w where x: "x = (op, w)" by force
  have fr: "fs_attempt op oc fs q = fs q" if "q \<noteq> name" for oc q
    using fs_attempt_frame [of name op q oc fs] Cons.prems(1) that by (simp add: x)
  show ?case
  proof (cases "\<exists>n e os'. os = Err n e # os'")
    case True
    then show ?thesis using Cons.prems(3) fr by (auto simp: x)
  next
    case False
    obtain r' tr' where t: "run_ops (ops @ [(Rename name path, what)]) (tl os) (fs_attempt op Done fs) = (r', tr')"
      by force
    have rt: "r = r'" "tr = fs # tr'"
      using Cons.prems(3) t False by (auto simp: x split: list.splits outcome.splits)
    have ne: "tr' \<noteq> []" using run_ops_nonempty [of "ops @ [(Rename name path, what)]" "tl os" "fs_attempt op Done fs"] t
      by (metis snd_conv)
    have "prepared ops (fs_attempt op Done fs) name = Some f"
      using Cons.prems(4) by (simp add: prepared_def x)
    from Cons.IH [OF _ Cons.prems(2) t this] Cons.prems(1)
    have ih: "(\<forall>g\<in>set tr'. (\<forall>q. q \<noteq> name \<longrightarrow> g q = fs_attempt op Done fs q) \<or>
          (\<forall>q. q \<noteq> name \<longrightarrow> g q = ((fs_attempt op Done fs)(path \<mapsto> f)) q)) \<and>
        (r' = None \<longrightarrow> (\<forall>q. q \<noteq> name \<longrightarrow> last tr' q = ((fs_attempt op Done fs)(path \<mapsto> f)) q) \<and> last tr' name = None) \<and>
        (r' \<noteq> None \<longrightarrow> (\<forall>q. q \<noteq> name \<longrightarrow> last tr' q = fs_attempt op Done fs q))"
      by simp
    show ?thesis using ih ne unfolding rt by (simp add: fr cong: if_cong)
  qed
qed

text \<open>Crash atomicity of the whole idiom.\<close>

lemma replace_with_atomic:
  assumes "\<And>name. \<forall>x\<in>set (ops name). only_touches name (fst x)"
    "\<And>name. prepared (ops name) (fs(name \<mapsto> \<lparr>f_data = [], f_mode = mode_0600\<rparr>)) name = Some f"
    "fresh_temp env path fs"
    "replace_with env creating (\<lambda>name. ops name @ [(Rename name path, what)]) fs = (r, tr)"
  shows "\<forall>g\<in>set tr. g path = fs path \<or> g path = Some f"
    "r = None \<Longrightarrow> last tr = fs(path \<mapsto> f)"
    "r \<noteq> None \<Longrightarrow> fe_remove_ok env \<Longrightarrow> last tr = fs"
    "r \<noteq> None \<Longrightarrow> last tr path = fs path"
proof -
  have "(\<forall>g\<in>set tr. g path = fs path \<or> g path = Some f) \<and> (r = None \<longrightarrow> last tr = fs(path \<mapsto> f)) \<and>
      (r \<noteq> None \<longrightarrow> (fe_remove_ok env \<longrightarrow> last tr = fs) \<and> last tr path = fs path)"
  proof (cases "fe_temp env")
    case (Inl e)
    then show ?thesis using assms(4) by (auto simp: replace_with_def)
  next
    case (Inr name)
    then have fresh: "fs name = None" "name \<noteq> path" using assms(3) by (auto simp: fresh_temp_def)
    let ?fs = "fs(name \<mapsto> \<lparr>f_data = [], f_mode = mode_0600\<rparr>)"
    obtain r' tr' where run: "run_ops (ops name @ [(Rename name path, what)]) (fe_outcomes env) ?fs = (r', tr')"
      by force
    have rt: "r = r'" "tr = fs # tr' @ [if fe_remove_ok env then (last tr')(name := None) else last tr']"
      using assms(4) Inr run by (simp_all add: replace_with_def)
    have t: "\<forall>(op, w)\<in>set (ops name). only_touches name op" using assms(1) by fastforce
    note a = run_ops_atomic [OF t fresh(2) run assms(2)]
    have ne: "tr' \<noteq> []"
      using run_ops_nonempty [of "ops name @ [(Rename name path, what)]" "fe_outcomes env" ?fs] run
      by (metis snd_conv)
    have g: "g path = fs path \<or> g path = Some f" if "g \<in> set tr'" for g
      using a that fresh(2) by (metis fun_upd_other fun_upd_same)
    have "last tr' path = fs path \<or> last tr' path = Some f" using g ne by simp
    then have all: "\<forall>g\<in>set tr. g path = fs path \<or> g path = Some f"
      using g fresh(2) rt(2) by auto
    have ok: "last tr = fs(path \<mapsto> f)" if "r = None"
    proof
      fix q
      show "last tr q = (fs(path \<mapsto> f)) q"
        using a that rt fresh by (cases "q = name") auto
    qed
    have bad: "last tr = fs" if "r \<noteq> None" "fe_remove_ok env"
    proof
      fix q
      show "last tr q = fs q" using a that rt fresh by (cases "q = name") auto
    qed
    have "last tr path = fs path" if "r \<noteq> None" using a that rt fresh by auto
    with all ok bad show ?thesis by blast
  qed
  then show "\<forall>g\<in>set tr. g path = fs path \<or> g path = Some f"
    "r = None \<Longrightarrow> last tr = fs(path \<mapsto> f)" "r \<noteq> None \<Longrightarrow> fe_remove_ok env \<Longrightarrow> last tr = fs"
    "r \<noteq> None \<Longrightarrow> last tr path = fs path"
    by blast+
qed

end
