(* ===== verification/ReleaseCache.thy ===== *)
theory ReleaseCache
  imports ReleaseVerify GoFS
begin

text \<open>
  The release cache on disk (internal/release/cache.go) and the \<open>SignedRelease\<close> it stores
  (internal/release/source.go). A nil byte slice and an empty one are the same \<open>bytes\<close>: Go encodes the
  former as \<open>null\<close>, and both decode to an empty slice.
\<close>

record signed_release =
  sr_manifest :: bytes
  sr_bundle :: bytes

record cache_file =
  cf_schema_version :: int
  cf_releases :: "signed_release list"

definition cacheSchemaVersion :: int where "cacheSchemaVersion = 1"
definition maxCacheBytes :: nat where "maxCacheBytes = 8388608"

definition zero_signed :: signed_release where
  "zero_signed = \<lparr>sr_manifest = [], sr_bundle = []\<rparr>"

definition zero_cache_file :: cache_file where
  "zero_cache_file = \<lparr>cf_schema_version = 0, cf_releases = []\<rparr>"

definition signed_fields :: "signed_release fields" where
  "signed_fields =
    [(''manifest'', field sr_manifest (\<lambda>x. sr_manifest_update (\<lambda>_. x)) decode_bytes),
     (''bundle'', field sr_bundle (\<lambda>x. sr_bundle_update (\<lambda>_. x)) decode_bytes)]"

definition cache_file_fields :: "cache_file fields" where
  "cache_file_fields =
    [(''schema_version'', field cf_schema_version (\<lambda>x. cf_schema_version_update (\<lambda>_. x)) decode_int),
     (''releases'', field cf_releases (\<lambda>x. cf_releases_update (\<lambda>_. x))
        (decode_slice (decode_struct False signed_fields) zero_signed))]"

definition enc_signed :: "signed_release \<Rightarrow> string" where
  "enc_signed s = enc_object [(''manifest'', enc_bytes (sr_manifest s)), (''bundle'', enc_bytes (sr_bundle s))]"

definition enc_cache_file :: "cache_file \<Rightarrow> string" where
  "enc_cache_file c = enc_object
    [(''schema_version'', dec_int (cf_schema_version c)), (''releases'', enc_array (map enc_signed (cf_releases c)))]"

text \<open>A \<open>FileCache\<close> is its path.\<close>

definition NewFileCache :: "string \<Rightarrow> string result" where
  "NewFileCache path = (if path = [] then Inl (Msg ''release cache path is required'') else Inr path)"

text \<open>\<open>os.Open\<close> is the first argument: the reader a path opens to, or an error.\<close>

definition FileCache_Load :: "(string \<Rightarrow> reader result) \<Rightarrow> string \<Rightarrow> signed_release list result" where
  "FileCache_Load open_file path = (case open_file path of
     Inl e \<Rightarrow> (if error_is e NotExist then Inr [] else Inl (Wrapf ''open release cache: '' e []))
   | Inr rd \<Rightarrow> (case ReadAllLimited rd (int maxCacheBytes) of
       Inl e \<Rightarrow> Inl (Wrapf ''read release cache: '' e [])
     | Inr data \<Rightarrow> (case json_unmarshal (decode_struct False cache_file_fields) zero_cache_file data of
         Inl e \<Rightarrow> Inl (Wrapf ''decode release cache: '' e [])
       | Inr parsed \<Rightarrow>
          (if cf_schema_version parsed \<noteq> cacheSchemaVersion
           then Inl (Msg (''release cache schema_version must be '' @ dec_int cacheSchemaVersion))
           else Inr (cf_releases parsed)))))"

definition cache_file_ops :: "bytes \<Rightarrow> string \<Rightarrow> (fs_op \<times> string) list" where
  "cache_file_ops data name =
    [(WriteTo name data, ''write release cache: ''),
     (SyncFile, ''sync release cache: ''),
     (CloseFile, ''close release cache: ''),
     (Chmod name mode_0644, ''set release cache mode: '')]"

text \<open>The error and every state of the disk on the way.\<close>

definition FileCache_Store :: "fs_env \<Rightarrow> string \<Rightarrow> signed_release list \<Rightarrow> fs \<Rightarrow> error option \<times> fs list" where
  "FileCache_Store env path entries fs =
     (if entries = [] then (Some (Msg ''refusing to cache an empty release set''), [fs])
      else (let data = enc_cache_file \<lparr>cf_schema_version = cacheSchemaVersion, cf_releases = entries\<rparr> in
        if length data > maxCacheBytes
        then (Some (Msg (''release cache exceeds '' @ dec_nat maxCacheBytes @ '' bytes'')), [fs])
        else (case fe_mkdir env of
          Some e \<Rightarrow> (Some (Wrapf ''create release cache directory: '' e []), [fs])
        | None \<Rightarrow> replace_with env ''create release cache temporary file: ''
            (\<lambda>name. cache_file_ops data name @ [(Rename name path, ''replace release cache: '')]) fs)))"

text \<open>\<open>os.Open\<close> on the modelled disk; \<open>fault\<close> is an error other than the file being missing.\<close>

definition fs_open :: "error option \<Rightarrow> fs \<Rightarrow> string \<Rightarrow> reader result" where
  "fs_open fault fs path = (case fault of
     Some e \<Rightarrow> Inl e
   | None \<Rightarrow> (case fs path of None \<Rightarrow> Inl (Sent NotExist) | Some f \<Rightarrow> Inr [(f_data f, None)]))"

section \<open>What is stored is what is loaded\<close>

lemma signed_find:
  "find_field signed_fields ''manifest'' = Some (field sr_manifest (\<lambda>x. sr_manifest_update (\<lambda>_. x)) decode_bytes)"
  "find_field signed_fields ''bundle'' = Some (field sr_bundle (\<lambda>x. sr_bundle_update (\<lambda>_. x)) decode_bytes)"
  by (simp_all add: signed_fields_def find_field_def)

lemma cache_file_find:
  "find_field cache_file_fields ''schema_version'' = Some (field cf_schema_version (\<lambda>x. cf_schema_version_update (\<lambda>_. x)) decode_int)"
  "find_field cache_file_fields ''releases'' = Some (field cf_releases (\<lambda>x. cf_releases_update (\<lambda>_. x))
     (decode_slice (decode_struct False signed_fields) zero_signed))"
  by (simp_all add: cache_file_fields_def find_field_def)

lemma decodes_signed: "decodes (Suc k) (decode_struct False signed_fields) zero_signed (enc_signed s) s"
proof -
  have "members_decode k False signed_fields
      ([(''manifest'', enc_bytes (sr_manifest s))] @ [(''bundle'', enc_bytes (sr_bundle s))])
      zero_signed (zero_signed\<lparr>sr_manifest := sr_manifest s, sr_bundle := sr_bundle s\<rparr>)"
    by (rule members_decode_append signed_find [THEN members_decode_put] decodes_bytes | simp add: plain_char_def)+
  moreover have "zero_signed\<lparr>sr_manifest := sr_manifest s, sr_bundle := sr_bundle s\<rparr> = s"
    by (cases s) (simp add: zero_signed_def)
  ultimately show ?thesis using decodes_struct unfolding enc_signed_def by (metis append_Cons append_Nil)
qed

lemma decodes_cache_file:
  assumes "in_int64 (cf_schema_version c)"
  shows "decodes (Suc (Suc (Suc k))) (decode_struct False cache_file_fields) zero_cache_file (enc_cache_file c) c"
proof -
  have rel: "decodes (Suc (Suc k)) (decode_slice (decode_struct False signed_fields) zero_signed) []
      (enc_array (map enc_signed (cf_releases c))) (cf_releases c)"
    by (rule decodes_slice) (auto simp: list_all2_conv_all_nth intro: decodes_signed)
  have "members_decode (Suc (Suc k)) False cache_file_fields
      ([(''schema_version'', dec_int (cf_schema_version c))] @ [(''releases'', enc_array (map enc_signed (cf_releases c)))])
      zero_cache_file (zero_cache_file\<lparr>cf_schema_version := cf_schema_version c, cf_releases := cf_releases c\<rparr>)"
    by (rule members_decode_append cache_file_find [THEN members_decode_put] decodes_int rel |
      simp add: plain_char_def zero_cache_file_def rel assms)+
  moreover have "zero_cache_file\<lparr>cf_schema_version := cf_schema_version c, cf_releases := cf_releases c\<rparr> = c"
    by (cases c) (simp add: zero_cache_file_def)
  ultimately show ?thesis using decodes_struct unfolding enc_cache_file_def by (metis append_Cons append_Nil)
qed

lemma cache_file_prepared:
  "prepared (cache_file_ops data name) (fs(name \<mapsto> \<lparr>f_data = [], f_mode = mode_0600\<rparr>)) name =
     Some \<lparr>f_data = data, f_mode = mode_0644\<rparr>"
  by (simp add: prepared_def cache_file_ops_def)

lemma cache_file_touches: "\<forall>x\<in>set (cache_file_ops data name). only_touches name (fst x)"
  by (auto simp: cache_file_ops_def)

lemma FileCache_Load_stored:
  assumes "length (enc_cache_file \<lparr>cf_schema_version = cacheSchemaVersion, cf_releases = es\<rparr>) \<le> maxCacheBytes"
    "fs path = Some \<lparr>f_data = enc_cache_file \<lparr>cf_schema_version = cacheSchemaVersion, cf_releases = es\<rparr>, f_mode = m\<rparr>"
  shows "FileCache_Load (fs_open None fs) path = Inr es"
proof -
  let ?c = "\<lparr>cf_schema_version = cacheSchemaVersion, cf_releases = es\<rparr>"
  have "in_int64 (cf_schema_version ?c)" by (simp add: cacheSchemaVersion_def in_int64_def)
  from json_unmarshal_decodes [OF decodes_cache_file [OF this, of 0]]
  have "json_unmarshal (decode_struct False cache_file_fields) zero_cache_file (enc_cache_file ?c) = Inr ?c"
    by (simp add: max_nesting_def)
  moreover have "ReadAllLimited [(enc_cache_file ?c, None)] (int maxCacheBytes) = Inr (enc_cache_file ?c)"
    using assms(1) by (subst ReadAllLimited_iff) (simp_all add: maxCacheBytes_def)
  ultimately show ?thesis by (simp add: FileCache_Load_def fs_open_def assms(2))
qed

lemma FileCache_Store_crash:
  assumes "fresh_temp env path fs" "FileCache_Store env path es fs = (r, tr)"
  shows "\<forall>g\<in>set tr. g path = fs path \<or> FileCache_Load (fs_open None g) path = Inr es"
    "r = None \<Longrightarrow> FileCache_Load (fs_open None (last tr)) path = Inr es"
    "r \<noteq> None \<Longrightarrow> last tr path = fs path"
proof -
  let ?data = "enc_cache_file \<lparr>cf_schema_version = cacheSchemaVersion, cf_releases = es\<rparr>"
  have "(\<forall>g\<in>set tr. g path = fs path \<or> FileCache_Load (fs_open None g) path = Inr es) \<and>
      (r = None \<longrightarrow> FileCache_Load (fs_open None (last tr)) path = Inr es) \<and> (r \<noteq> None \<longrightarrow> last tr path = fs path)"
  proof (cases "es = [] \<or> length ?data > maxCacheBytes \<or> fe_mkdir env \<noteq> None")
    case True
    then show ?thesis using assms(2) by (auto simp: FileCache_Store_def Let_def split: if_splits option.splits)
  next
    case False
    then have len: "length ?data \<le> maxCacheBytes" by simp
    from False assms(2) have w: "replace_with env ''create release cache temporary file: ''
        (\<lambda>name. cache_file_ops ?data name @ [(Rename name path, ''replace release cache: '')]) fs = (r, tr)"
      by (auto simp: FileCache_Store_def Let_def)
    note a = replace_with_atomic [OF cache_file_touches cache_file_prepared assms(1) w]
    have load: "FileCache_Load (fs_open None g) path = Inr es"
      if "g path = Some \<lparr>f_data = ?data, f_mode = mode_0644\<rparr>" for g
      by (rule FileCache_Load_stored [OF len]) (rule that)
    have "FileCache_Load (fs_open None (last tr)) path = Inr es" if "r = None"
      using a(2) [OF that] by (intro load) simp
    then show ?thesis using a(1,4) load by blast
  qed
  then show "\<forall>g\<in>set tr. g path = fs path \<or> FileCache_Load (fs_open None g) path = Inr es"
    "r = None \<Longrightarrow> FileCache_Load (fs_open None (last tr)) path = Inr es"
    "r \<noteq> None \<Longrightarrow> last tr path = fs path"
    by blast+
qed

lemma FileCache_Load_frame:
  "fs path = gs path \<Longrightarrow> FileCache_Load (fs_open fault fs) path = FileCache_Load (fs_open fault gs) path"
  by (cases fault) (simp_all add: FileCache_Load_def fs_open_def)

section \<open>The cache as the release source sees it\<close>

text \<open>
  The \<open>Cache\<close> interface of the source: \<open>Load\<close> and \<open>Store\<close> over an opaque state. The laws are what an
  offline start relies on; they hold as long as the store may rely on \<open>ready\<close>.
\<close>

record 'c cache_ops =
  co_load :: "'c \<Rightarrow> signed_release list result"
  co_store :: "signed_release list \<Rightarrow> 'c \<Rightarrow> error option \<times> 'c"

locale release_cache =
  fixes ops :: "'c cache_ops" and ready :: "'c \<Rightarrow> bool"
  assumes store_ok: "ready c \<Longrightarrow> co_store ops es c = (None, c') \<Longrightarrow> co_load ops c' = Inr es"
    and store_failed: "ready c \<Longrightarrow> co_store ops es c = (Some e, c') \<Longrightarrow> co_load ops c' = co_load ops c"
begin

lemma after_store:
  "ready c \<Longrightarrow> co_store ops es c = (r, c') \<Longrightarrow> co_load ops c' = (if r = None then Inr es else co_load ops c)"
  using store_ok store_failed by (cases r) auto

end

text \<open>A \<open>FileCache\<close>: its state is the disk and what surrounds the next store.\<close>

definition file_cache :: "string \<Rightarrow> (fs_env \<times> fs) cache_ops" where
  "file_cache path = \<lparr>co_load = (\<lambda>(env, fs). FileCache_Load (fs_open None fs) path),
     co_store = (\<lambda>es (env, fs). case FileCache_Store env path es fs of (r, tr) \<Rightarrow> (r, (env, last tr)))\<rparr>"

interpretation file_cache: release_cache "file_cache path" "\<lambda>(env, fs). fresh_temp env path fs" for path
proof
  fix c :: "fs_env \<times> fs" and es c'
  assume r: "case c of (env, fs) \<Rightarrow> fresh_temp env path fs" and s: "co_store (file_cache path) es c = (None, c')"
  then show "co_load (file_cache path) c' = Inr es"
    using FileCache_Store_crash(2) by (auto simp: file_cache_def split: prod.splits)
next
  fix c :: "fs_env \<times> fs" and es e c'
  assume r: "case c of (env, fs) \<Rightarrow> fresh_temp env path fs" and s: "co_store (file_cache path) es c = (Some e, c')"
  obtain env fs tr where c: "c = (env, fs)" "FileCache_Store env path es fs = (Some e, tr)" "c' = (env, last tr)"
    using s by (cases c) (auto simp: file_cache_def split: prod.splits)
  with r have "last tr path = fs path" using FileCache_Store_crash(3) [of env path fs es "Some e" tr] by simp
  then have "FileCache_Load (fs_open None (last tr)) path = FileCache_Load (fs_open None fs) path"
    by (rule FileCache_Load_frame)
  then show "co_load (file_cache path) c' = co_load (file_cache path) c"
    by (simp add: file_cache_def c)
qed

section \<open>Properties\<close>

text \<open>C33: Storing in the release cache is atomic: at every point the path holds the old file or one that loads as
  exactly the stored entries, and the latter at the end exactly when storing reported success.\<close>

theorem cache_store_atomic:
  assumes "fresh_temp env path fs"
  shows "case FileCache_Store env path entries fs of (r, disks) \<Rightarrow>
    list_all (\<lambda>disk. disk path = fs path \<or> FileCache_Load (fs_open None disk) path = Inr entries) disks \<and>
    (if r = None then FileCache_Load (fs_open None (last disks)) path = Inr entries else last disks path = fs path)"
  using FileCache_Store_crash [OF assms, of entries]
  by (cases "FileCache_Store env path entries fs") (auto simp: list_all_iff)

definition spare_disk :: fs_env where
  "spare_disk = \<lparr>fe_mkdir = None, fe_temp = Inr ''tmp'', fe_outcomes = [], fe_remove_ok = False\<rparr>"

theorem cache_store_atomic_witness:
  "case FileCache_Store spare_disk ''cache'' [\<lparr>sr_manifest = ''m'', sr_bundle = ''b''\<rparr>] Map.empty of (r, disks) \<Rightarrow>
     r = None \<and> FileCache_Load (fs_open None (last disks)) ''cache'' = Inr [\<lparr>sr_manifest = ''m'', sr_bundle = ''b''\<rparr>]"
proof -
  have f: "fresh_temp spare_disk ''cache'' Map.empty" by (simp add: fresh_temp_def spare_disk_def)
  have "length (enc_cache_file \<lparr>cf_schema_version = cacheSchemaVersion, cf_releases = [\<lparr>sr_manifest = ''m'', sr_bundle = ''b''\<rparr>]\<rparr>) \<le> 1000"
    by code_simp
  then have "fst (FileCache_Store spare_disk ''cache'' [\<lparr>sr_manifest = ''m'', sr_bundle = ''b''\<rparr>] Map.empty) = None"
    by (simp add: FileCache_Store_def Let_def spare_disk_def replace_with_def cache_file_ops_def maxCacheBytes_def)
  then show ?thesis using cache_store_atomic [OF f, of "[\<lparr>sr_manifest = ''m'', sr_bundle = ''b''\<rparr>]"] by (auto split: prod.splits)
qed

end
