(* ===== verification/ReleaseSource.thy ===== *)
theory ReleaseSource
  imports ReleaseCache GoHttp
begin

text \<open>
  Discovery of signed releases (internal/release/source.go): which URLs may be requested, the release
  listing, the fetch loop, the cache fallback and the derived policy. The network is a transport over a
  world \<open>'w\<close>, the sigstore packages a parameter, the cache a \<open>cache_ops\<close> over a state \<open>'c\<close>.
  The embedded trusted root is a file of the build and an argument of \<open>NewSource\<close>. Contexts are not
  modelled: a cancelled one is a transport that answers with an error.
\<close>

definition DefaultRepository :: string where "DefaultRepository = ''dappnode/dappnode-nexus-gateway''"
definition DefaultReleaseCount :: int where "DefaultReleaseCount = 3"
definition manifestSuffix :: string where "manifestSuffix = ''.release.json''"
definition bundleSuffix :: string where "bundleSuffix = ''.release.json.sigstore.json''"
definition maxReleaseListBytes :: int where "maxReleaseListBytes = 1048576"
definition maxBundleBytes :: int where "maxBundleBytes = 524288"
definition maxAssetsPerRelease :: nat where "maxAssetsPerRelease = 32"
definition maxRedirects :: nat where "maxRedirects = 5"

definition allowedDownloadHosts :: "string list" where
  "allowedDownloadHosts =
     [''api.github.com'', ''github.com'', ''objects.githubusercontent.com'', ''release-assets.githubusercontent.com'']"

record ('v, 'c) source =
  src_repository :: string
  src_count :: nat
  src_client :: http_client
  src_verifier :: 'v
  src_cache :: "'c cache_ops option"

section \<open>URLs\<close>

definition checkDownloadURL :: "string \<Rightarrow> error option" where
  "checkDownloadURL rawURL = (case ParseRequestURI rawURL of
     Inl e \<Rightarrow> Some (Wrapf ''invalid release URL: '' e [])
   | Inr parsed \<Rightarrow>
      (if url_scheme parsed \<noteq> ''https'' \<or> url_user parsed
       then Some (Msg ''release URLs must be HTTPS without credentials'')
       else if Hostname parsed \<notin> set allowedDownloadHosts
       then Some (Msg (''release host '' @ go_quote (Hostname parsed) @ '' is not allowed''))
       else None))"

definition allowGitHubRedirects :: redirect_check where
  "allowGitHubRedirects u via =
     (if via \<ge> maxRedirects then Some (Msg (''stopped after '' @ dec_nat maxRedirects @ '' redirects''))
      else checkDownloadURL u)"

text \<open>\<open>URL.EscapedPath\<close>.\<close>

definition validEncodedPath :: "string \<Rightarrow> bool" where
  "validEncodedPath = list_all (\<lambda>c. c \<in> set ''!$&()*+,;=:@[]%'' \<or> c = CHR 0x27 \<or> \<not> shouldEscape EncodePath c)"

definition EscapedPath :: "url \<Rightarrow> string" where
  "EscapedPath u =
     (if url_raw_path u \<noteq> [] \<and> validEncodedPath (url_raw_path u) \<and>
         url_unescape EncodePath (url_raw_path u) = Inr (url_path u) then url_raw_path u
      else if url_path u = ''*'' then ''*''
      else url_escape EncodePath (url_path u))"

definition redact :: "string \<Rightarrow> string" where
  "redact rawURL = (case ParseRequestURI rawURL of
     Inl _ \<Rightarrow> ''release URL'' | Inr parsed \<Rightarrow> Hostname parsed @ EscapedPath parsed)"

definition repository_char :: "char \<Rightarrow> bool" where
  "repository_char c \<longleftrightarrow> in_range 97 122 c \<or> in_range 65 90 c \<or> in_range 48 57 c
     \<or> c = CHR ''-'' \<or> c = CHR ''_'' \<or> c = CHR ''.''"

definition validRepository :: "string \<Rightarrow> bool" where
  "validRepository value = (case cut_byte CHR ''/'' value of (owner, name, found) \<Rightarrow>
     if \<not> found \<or> owner = [] \<or> name = [] \<or> CHR ''/'' \<in> set name then False
     else list_all (list_all repository_char) [owner, name])"

definition NewSource ::
    "('t, 'v, 'b, 'i) sigstore \<Rightarrow> bytes \<Rightarrow> string \<Rightarrow> int \<Rightarrow> http_client option \<Rightarrow> ('v, 'c) source result" where
  "NewSource sg trustedRootJSON repository count client =
     (let repo = (if repository = [] then DefaultRepository else repository) in
      if \<not> validRepository repo
      then Inl (Msg (''invalid repository '' @ go_quote repo @ '', want owner/name''))
      else (let n = (if count = 0 then DefaultReleaseCount else count) in
        if n < 1 \<or> n > int MaxPolicyReleases
        then Inl (Msg (''release count must be between 1 and '' @ dec_nat MaxPolicyReleases))
        else (case NewReleaseVerifier sg trustedRootJSON of
          Inl e \<Rightarrow> Inl e
        | Inr verifier \<Rightarrow>
           (let guarded = (case client of None \<Rightarrow> \<lparr>hc_check_redirect = None\<rparr> | Some c \<Rightarrow> c)
                  \<lparr>hc_check_redirect := Some allowGitHubRedirects\<rparr>
            in Inr \<lparr>src_repository = repo, src_count = nat n, src_client = guarded,
                  src_verifier = verifier, src_cache = None\<rparr>))))"

definition WithCache :: "('v, 'c) source \<Rightarrow> 'c cache_ops option \<Rightarrow> ('v, 'c) source" where
  "WithCache s cache = s\<lparr>src_cache := cache\<rparr>"

section \<open>Downloading\<close>

text \<open>
  What \<open>http.NewRequest\<close> can still refuse in a URL that \<open>checkDownloadURL\<close> accepts: unlike
  \<open>ParseRequestURI\<close> it splits off a fragment, whose escapes it checks.
\<close>

definition new_request_error :: "string \<Rightarrow> error option" where
  "new_request_error rawURL = (case cut_byte CHR ''#'' rawURL of (_, frag, _) \<Rightarrow>
     (case url_unescape EncodePath frag of Inl e \<Rightarrow> Some e | Inr _ \<Rightarrow> None))"

definition release_request :: "string \<Rightarrow> http_request" where
  "release_request rawURL =
     (let h0 = header_set [] ''Accept'' ''application/json'';
          h1 = header_set h0 ''User-Agent'' ''nexus-proxy/1'';
          h2 = header_set h1 ''X-GitHub-Api-Version'' ''2022-11-28''
      in \<lparr>req_method = ''GET'', req_url = rawURL, req_header = h2, req_body = []\<rparr>)"

definition read_download :: "string \<Rightarrow> int \<Rightarrow> http_response \<Rightarrow> bytes result" where
  "read_download rawURL limit response =
     (if resp_status response \<noteq> 200
      then Inl (Msg (redact rawURL @ '' returned HTTP '' @ dec_int (resp_status response)))
      else (case parse_media_type (header_get (resp_header response) ''Content-Type'') of
        Some mediaType \<Rightarrow>
          (if mediaType \<noteq> ''application/json'' \<and> mediaType \<noteq> ''application/octet-stream''
           then Inl (Msg (redact rawURL @ '' returned unexpected content type '' @ go_quote mediaType))
           else (case ReadAllLimited (resp_body response) limit of
             Inl e \<Rightarrow> Inl (Wrapf (''read '' @ redact rawURL @ '': '') e []) | Inr body \<Rightarrow> Inr body))
      | None \<Rightarrow> (case ReadAllLimited (resp_body response) limit of
             Inl e \<Rightarrow> Inl (Wrapf (''read '' @ redact rawURL @ '': '') e []) | Inr body \<Rightarrow> Inr body)))"

definition download :: "'w transport \<Rightarrow> ('v, 'c) source \<Rightarrow> string \<Rightarrow> int \<Rightarrow> 'w \<Rightarrow> bytes result \<times> 'w" where
  "download tr s rawURL limit w = (case checkDownloadURL rawURL of
     Some e \<Rightarrow> (Inl e, w)
   | None \<Rightarrow> (case new_request_error rawURL of
       Some e \<Rightarrow> (Inl (Wrapf ''create release request: '' e []), w)
     | None \<Rightarrow> (case http_do tr (src_client s) (release_request rawURL) w of
         (Inl e, w') \<Rightarrow> (Inl (Wrapf (''request '' @ redact rawURL @ '': '') e []), w')
       | (Inr response, w') \<Rightarrow> (read_download rawURL limit response, w'))))"

section \<open>The listing\<close>

record asset =
  as_name :: string
  as_url :: string

record release_listing =
  rl_draft :: bool
  rl_prerelease :: bool
  rl_published_at :: string
  rl_assets :: "asset list"

record candidate =
  ca_manifest_url :: string
  ca_bundle_url :: string
  ca_published_at :: string

definition zero_asset :: asset where "zero_asset = \<lparr>as_name = [], as_url = []\<rparr>"

definition zero_listing :: release_listing where
  "zero_listing = \<lparr>rl_draft = False, rl_prerelease = False, rl_published_at = [], rl_assets = []\<rparr>"

definition asset_fields :: "asset fields" where
  "asset_fields =
    [(''name'', field as_name (\<lambda>x. as_name_update (\<lambda>_. x)) decode_string),
     (''browser_download_url'', field as_url (\<lambda>x. as_url_update (\<lambda>_. x)) decode_string)]"

definition listing_fields :: "release_listing fields" where
  "listing_fields =
    [(''draft'', field rl_draft (\<lambda>x. rl_draft_update (\<lambda>_. x)) decode_bool),
     (''prerelease'', field rl_prerelease (\<lambda>x. rl_prerelease_update (\<lambda>_. x)) decode_bool),
     (''published_at'', field rl_published_at (\<lambda>x. rl_published_at_update (\<lambda>_. x)) decode_string),
     (''assets'', field rl_assets (\<lambda>x. rl_assets_update (\<lambda>_. x))
        (decode_slice (decode_struct False asset_fields) zero_asset))]"

text \<open>The inner loop over the assets: the last asset with a suffix wins.\<close>

fun asset_urls :: "asset list \<Rightarrow> string \<Rightarrow> string \<Rightarrow> string \<times> string" where
  "asset_urls [] manifestURL bundleURL = (manifestURL, bundleURL)"
| "asset_urls (a # as) manifestURL bundleURL =
     (if has_suffix (as_name a) bundleSuffix then asset_urls as manifestURL (as_url a)
      else if has_suffix (as_name a) manifestSuffix then asset_urls as (as_url a) bundleURL
      else asset_urls as manifestURL bundleURL)"

fun listing_candidates :: "release_listing list \<Rightarrow> candidate list" where
  "listing_candidates [] = []"
| "listing_candidates (l # ls) =
     (if rl_draft l \<or> rl_prerelease l \<or> length (rl_assets l) > maxAssetsPerRelease then listing_candidates ls
      else (case asset_urls (rl_assets l) [] [] of (manifestURL, bundleURL) \<Rightarrow>
        (if manifestURL = [] \<or> bundleURL = [] then listing_candidates ls
         else \<lparr>ca_manifest_url = manifestURL, ca_bundle_url = bundleURL, ca_published_at = rl_published_at l\<rparr>
                # listing_candidates ls)))"

text \<open>
  \<open>sort.SliceStable\<close> with the order of the source, newest first. The result of a stable sort does not
  depend on its algorithm; \<open>newest_first_sorted\<close>, \<open>newest_first_mset\<close> and
  \<open>newest_first_stable\<close> state what determines it.
\<close>

fun insert_newest :: "candidate \<Rightarrow> candidate list \<Rightarrow> candidate list" where
  "insert_newest c [] = [c]"
| "insert_newest c (x # xs) =
     (if ca_published_at c < ca_published_at x then x # insert_newest c xs else c # x # xs)"

fun newest_first :: "candidate list \<Rightarrow> candidate list" where
  "newest_first [] = []"
| "newest_first (c # cs) = insert_newest c (newest_first cs)"

definition listing_url :: "('v, 'c) source \<Rightarrow> string" where
  "listing_url s = ''https://api.github.com/repos/'' @ src_repository s @ ''/releases?per_page='' @ dec_nat (src_count s * 3)"

definition listReleases :: "'w transport \<Rightarrow> ('v, 'c) source \<Rightarrow> 'w \<Rightarrow> candidate list result \<times> 'w" where
  "listReleases tr s w = (case download tr s (listing_url s) maxReleaseListBytes w of
     (Inl e, w') \<Rightarrow> (Inl (Wrapf ''list Gateway releases: '' e []), w')
   | (Inr body, w') \<Rightarrow>
      (case json_unmarshal (decode_slice (decode_struct False listing_fields) zero_listing) [] body of
        Inl e \<Rightarrow> (Inl (Wrapf ''decode Gateway release listing: '' e []), w')
      | Inr listings \<Rightarrow>
         (case listing_candidates listings of
           [] \<Rightarrow> (Inl (Msg ''no release carries both a manifest and a signature bundle''), w')
         | c # cs \<Rightarrow> (Inr (newest_first (c # cs)), w'))))"

section \<open>Fetching, the cache, the policy\<close>

text \<open>The two downloads of one candidate and its verification.\<close>

definition fetch_candidate ::
    "('t, 'v, 'b, 'i) sigstore \<Rightarrow> 'w transport \<Rightarrow> ('v, 'c) source \<Rightarrow> candidate \<Rightarrow> 'w \<Rightarrow>
     (signed_release \<times> release_manifest) result \<times> 'w" where
  "fetch_candidate sg tr s c w = (case download tr s (ca_manifest_url c) (int maxManifestBytes) w of
     (Inl e, w1) \<Rightarrow> (Inl e, w1)
   | (Inr manifestBytes, w1) \<Rightarrow> (case download tr s (ca_bundle_url c) maxBundleBytes w1 of
       (Inl e, w2) \<Rightarrow> (Inl e, w2)
     | (Inr bundleBytes, w2) \<Rightarrow> (case Release_Verify sg (Some (src_verifier s)) manifestBytes bundleBytes of
         Inl e \<Rightarrow> (Inl e, w2)
       | Inr m \<Rightarrow> (Inr (\<lparr>sr_manifest = manifestBytes, sr_bundle = bundleBytes\<rparr>, m), w2))))"

text \<open>The loop, with what has been accepted so far and the joined errors; it stops at the count.\<close>

fun fetch_loop ::
    "('t, 'v, 'b, 'i) sigstore \<Rightarrow> 'w transport \<Rightarrow> ('v, 'c) source \<Rightarrow> candidate list \<Rightarrow>
     (signed_release \<times> release_manifest) list \<Rightarrow> error option \<Rightarrow> 'w \<Rightarrow>
     (signed_release \<times> release_manifest) list \<times> error option \<times> 'w" where
  "fetch_loop sg tr s [] accepted firstErr w = (accepted, firstErr, w)"
| "fetch_loop sg tr s (c # cs) accepted firstErr w = (case fetch_candidate sg tr s c w of
     (Inl e, w') \<Rightarrow> fetch_loop sg tr s cs accepted (Some (join_error firstErr e)) w'
   | (Inr x, w') \<Rightarrow>
      (if Suc (length accepted) = src_count s then (accepted @ [x], firstErr, w')
       else fetch_loop sg tr s cs (accepted @ [x]) firstErr w'))"

definition source_store :: "('v, 'c) source \<Rightarrow> signed_release list \<Rightarrow> 'c \<Rightarrow> 'c" where
  "source_store s entries c = (case src_cache s of
     None \<Rightarrow> c
   | Some cache \<Rightarrow> (if entries = [] then c else snd (co_store cache entries c)))"

definition source_fetch ::
    "('t, 'v, 'b, 'i) sigstore \<Rightarrow> 'w transport \<Rightarrow> ('v, 'c) source \<Rightarrow> 'w \<Rightarrow> 'c \<Rightarrow>
     release_manifest list result \<times> 'w \<times> 'c" where
  "source_fetch sg tr s w c = (case listReleases tr s w of
     (Inl e, w') \<Rightarrow> (Inl e, w', c)
   | (Inr listed, w') \<Rightarrow> (case fetch_loop sg tr s listed [] None w' of
       (accepted, firstErr, w'') \<Rightarrow>
         (if accepted = []
          then (Inl (Wrapf ''fetch signed Gateway releases: ''
                 (case firstErr of None \<Rightarrow> Msg ''no signed releases found'' | Some e \<Rightarrow> e) []), w'', c)
          else (Inr (map snd accepted), w'', source_store s (map fst accepted) c))))"

fun verify_entries ::
    "('t, 'v, 'b, 'i) sigstore \<Rightarrow> ('v, 'c) source \<Rightarrow> signed_release list \<Rightarrow> release_manifest list \<Rightarrow>
     release_manifest list result" where
  "verify_entries sg s [] manifests = Inr manifests"
| "verify_entries sg s (e # es) manifests =
     (case Release_Verify sg (Some (src_verifier s)) (sr_manifest e) (sr_bundle e) of
       Inl err \<Rightarrow> Inl (Wrapf ''cached release failed verification: '' err [])
     | Inr m \<Rightarrow>
        (if Suc (length manifests) = src_count s then Inr (manifests @ [m])
         else verify_entries sg s es (manifests @ [m])))"

definition source_cached :: "('t, 'v, 'b, 'i) sigstore \<Rightarrow> ('v, 'c) source \<Rightarrow> 'c \<Rightarrow> release_manifest list result" where
  "source_cached sg s c = (case src_cache s of
     None \<Rightarrow> Inl (Msg ''no release cache configured'')
   | Some cache \<Rightarrow> (case co_load cache c of
       Inl e \<Rightarrow> Inl e
     | Inr entries \<Rightarrow>
        (if entries = [] then Inl (Msg ''release cache is empty'') else verify_entries sg s entries [])))"

definition Source_Policy ::
    "('t, 'v, 'b, 'i) sigstore \<Rightarrow> 'w transport \<Rightarrow> ('v, 'c) source \<Rightarrow> 'w \<Rightarrow> 'c \<Rightarrow> policy result \<times> 'w \<times> 'c" where
  "Source_Policy sg tr s w c = (case source_fetch sg tr s w c of
     (Inr manifests, w', c') \<Rightarrow> (Release_Policy (map Some manifests), w', c')
   | (Inl fetchErr, w', c') \<Rightarrow> (case source_cached sg s c' of
       Inl cacheErr \<Rightarrow>
         (Inl (Wrapf [] fetchErr ('' (cached releases unusable: '' @ error_text cacheErr @ '')'')), w', c')
     | Inr cached \<Rightarrow> (Release_Policy (map Some cached), w', c')))"

end
