(* ===== verification/ReleaseSafety.thy ===== *)
theory ReleaseSafety
  imports ReleaseSource "HOL-Library.Multiset"
begin

text \<open>
  What the release source guarantees whatever the network, the listing and the cache contain: the
  order of the candidates, the hosts that are asked, the origin of every pinned release, and that an
  offline start rebuilds the policy of the last successful fetch.
\<close>

section \<open>The order of the candidates\<close>

lemma insert_newest_mset [simp]: "mset (insert_newest c xs) = add_mset c (mset xs)"
  by (induction xs) auto

lemma newest_first_mset: "mset (newest_first cs) = mset cs"
  by (induction cs) auto

abbreviation (input) not_newer :: "candidate \<Rightarrow> candidate \<Rightarrow> bool" where
  "not_newer a b \<equiv> \<not> ca_published_at a < ca_published_at b"

lemma insert_newest_sorted:
  "sorted_wrt not_newer xs \<Longrightarrow> sorted_wrt not_newer (insert_newest c xs)"
proof (induction xs)
  case (Cons x xs)
  have s: "set (insert_newest c xs) = insert c (set xs)"
    using insert_newest_mset [of c xs] by (metis set_mset_add_mset_insert set_mset_mset)
  show ?case
  proof (cases "ca_published_at c < ca_published_at x")
    case True
    with Cons s show ?thesis by (auto dest: less_asym)
  next
    case False
    have "not_newer c y" if "y \<in> set xs" for y
      using Cons.prems that False by (simp add: not_less) (meson order_trans)
    with Cons False show ?thesis by auto
  qed
qed simp

lemma newest_first_sorted: "sorted_wrt not_newer (newest_first cs)"
  by (induction cs) (simp_all add: insert_newest_sorted)

lemma insert_newest_stable:
  "filter (\<lambda>x. ca_published_at x = k) (insert_newest c xs) = filter (\<lambda>x. ca_published_at x = k) (c # xs)"
  by (induction xs) auto

lemma newest_first_stable:
  "filter (\<lambda>x. ca_published_at x = k) (newest_first cs) = filter (\<lambda>x. ca_published_at x = k) cs"
  by (induction cs) (auto simp: insert_newest_stable simp del: insert_newest.simps)

section \<open>Only allowed hosts are asked\<close>

text \<open>
  A property of the world that every request to an acceptable URL keeps is kept by the whole of
  \<open>Source_Policy\<close>: with the log of requests as the world, this says which URLs are asked.
\<close>

definition keeps_world :: "'w transport \<Rightarrow> ('w \<Rightarrow> bool) \<Rightarrow> bool" where
  "keeps_world tr P \<longleftrightarrow> (\<forall>req w. P w \<longrightarrow> checkDownloadURL (req_url req) = None \<longrightarrow> P (snd (tr req w)))"

definition guarded :: "('v, 'c) source \<Rightarrow> bool" where
  "guarded s \<longleftrightarrow> hc_check_redirect (src_client s) = Some allowGitHubRedirects"

lemma client_hops_keeps:
  assumes "keeps_world tr P" "P w" "checkDownloadURL (req_url req) = None"
  shows "P (snd (snd (client_hops n tr allowGitHubRedirects req via w)))"
  using assms(2,3)
proof (induction n arbitrary: req via w)
  case (Suc n)
  obtain r w1 where t: "tr req w = (r, w1)" by force
  have "P (snd (tr req w))" using assms(1) Suc.prems unfolding keeps_world_def by blast
  with t have w1: "P w1" by simp
  show ?case
  proof (cases r)
    case (Inr wr)
    show ?thesis
    proof (cases "wr_redirect wr")
      case (Some u)
      show ?thesis
      proof (cases "allowGitHubRedirects u (Suc via)")
        case None
        then have "checkDownloadURL u = None" by (simp add: allowGitHubRedirects_def split: if_splits)
        with Suc.IH [OF w1, of "req\<lparr>req_url := u\<rparr>" "Suc via"] None Some Inr t show ?thesis
          by (auto split: prod.splits)
      qed (use w1 t Inr Some in simp)
    qed (use w1 t Inr in simp)
  qed (use w1 t in simp)
qed simp

lemma download_keeps:
  assumes "keeps_world tr P" "guarded s" "P w" "download tr s u limit w = (r, w')"
  shows "P w'"
proof (cases "checkDownloadURL u = None \<and> new_request_error u = None")
  case True
  then have "checkDownloadURL (req_url (release_request u)) = None"
    by (simp add: release_request_def Let_def)
  from client_hops_keeps [OF assms(1,3) this, of 11 0] assms(2,4) True show ?thesis
    by (auto simp: download_def http_do_def client_do_def client_check_def guarded_def split: prod.splits sum.splits)
next
  case False
  then show ?thesis using assms(3,4) by (auto simp: download_def split: option.splits)
qed

lemma listReleases_keeps:
  assumes "keeps_world tr P" "guarded s" "P w" "listReleases tr s w = (r, w')"
  shows "P w'"
proof -
  obtain b w1 where d: "download tr s (listing_url s) maxReleaseListBytes w = (b, w1)" by force
  with assms(4) have "w' = w1"
    by (auto simp: listReleases_def split: sum.splits list.splits)
  with download_keeps [OF assms(1-3) d] show ?thesis by simp
qed

lemma fetch_candidate_keeps:
  assumes "keeps_world tr P" "guarded s" "P w" "fetch_candidate sg tr s c w = (r, w')"
  shows "P w'"
proof -
  obtain b1 w1 where d1: "download tr s (ca_manifest_url c) (int maxManifestBytes) w = (b1, w1)" by force
  have w1: "P w1" by (rule download_keeps [OF assms(1-3) d1])
  obtain b2 w2 where d2: "download tr s (ca_bundle_url c) maxBundleBytes w1 = (b2, w2)" by force
  have "P w2" by (rule download_keeps [OF assms(1,2) w1 d2])
  with w1 show ?thesis using assms(4) d1 d2 by (auto simp: fetch_candidate_def split: sum.splits)
qed

lemma fetch_loop_keeps:
  "keeps_world tr P \<Longrightarrow> guarded s \<Longrightarrow> P w \<Longrightarrow> fetch_loop sg tr s cs accepted err w = (r, e, w') \<Longrightarrow> P w'"
  by (induction cs arbitrary: accepted err w)
     (auto split: prod.splits sum.splits if_splits dest: fetch_candidate_keeps)

lemma Source_Policy_keeps:
  assumes "keeps_world tr P" "guarded s" "P w" "Source_Policy sg tr s w c = (r, w', c')"
  shows "P w'"
proof -
  obtain l w1 where l: "listReleases tr s w = (l, w1)" by force
  have w1: "P w1" by (rule listReleases_keeps [OF assms(1-3) l])
  show ?thesis
  proof (cases l)
    case (Inl e)
    then show ?thesis using assms(4) l w1 by (auto simp: Source_Policy_def source_fetch_def split: sum.splits)
  next
    case (Inr listed)
    obtain acc err w2 where f: "fetch_loop sg tr s listed [] None w1 = (acc, err, w2)" by (metis prod_cases3)
    from fetch_loop_keeps [OF assms(1,2) w1 f] show ?thesis
      using assms(4) l Inr f by (auto simp: Source_Policy_def source_fetch_def split: sum.splits if_splits)
  qed
qed

lemma NewSource_guarded:
  assumes "NewSource sg root repo n client = Inr s"
  shows "guarded s" "1 \<le> src_count s" "src_count s \<le> MaxPolicyReleases" "src_cache s = None"
  using assms by (auto simp: NewSource_def Let_def guarded_def split: if_splits sum.splits)

lemma WithCache_guarded [simp]:
  "guarded (WithCache s c) = guarded s" "src_count (WithCache s c) = src_count s"
  "src_verifier (WithCache s c) = src_verifier s" "src_cache (WithCache s c) = c"
  by (simp_all add: WithCache_def guarded_def)

section \<open>Every accepted release is signed\<close>

definition accepted_entry :: "('t, 'v, 'b, 'i) sigstore \<Rightarrow> ('v, 'c) source \<Rightarrow> signed_release \<times> release_manifest \<Rightarrow> bool" where
  "accepted_entry sg s x \<longleftrightarrow>
     Release_Verify sg (Some (src_verifier s)) (sr_manifest (fst x)) (sr_bundle (fst x)) = Inr (snd x)"

lemma fetch_candidate_accepted:
  "fetch_candidate sg tr s c w = (Inr x, w') \<Longrightarrow> accepted_entry sg s x"
  by (auto simp: fetch_candidate_def accepted_entry_def split: prod.splits sum.splits)

text \<open>What a candidate must satisfy to be accepted, every accepted one satisfies.\<close>

lemma fetch_loop_all:
  assumes "\<And>c w x w'. fetch_candidate sg tr s c w = (Inr x, w') \<Longrightarrow> Q x"
    "fetch_loop sg tr s cs acc err w = (acc', err', w')" "length acc < src_count s" "list_all Q acc"
  shows "list_all Q acc' \<and> length acc' \<le> src_count s"
  using assms(2-4)
proof (induction cs arbitrary: acc err w)
  case (Cons c cs)
  obtain r w1 where c: "fetch_candidate sg tr s c w = (r, w1)" by force
  show ?case
  proof (cases r)
    case (Inl e)
    then show ?thesis using Cons c by simp
  next
    case (Inr x)
    then have "list_all Q (acc @ [x])" using Cons.prems(3) assms(1) c by simp
    then show ?thesis using Cons c Inr by (cases "Suc (length acc) = src_count s") auto
  qed
qed simp

text \<open>The releases a fetch hands to the cache: some, not too many, each within the download limits.\<close>

definition within_limits :: "signed_release \<Rightarrow> bool" where
  "within_limits e \<longleftrightarrow> length (sr_manifest e) \<le> maxManifestBytes \<and> int (length (sr_bundle e)) \<le> maxBundleBytes"

definition cacheable :: "('v, 'c) source \<Rightarrow> signed_release list \<Rightarrow> bool" where
  "cacheable s es \<longleftrightarrow> es \<noteq> [] \<and> length es \<le> src_count s \<and> list_all within_limits es"

lemma download_length: "download tr s u limit w = (Inr d, w') \<Longrightarrow> int (length d) \<le> limit"
  by (auto simp: download_def read_download_def split: option.splits prod.splits sum.splits if_splits
      dest: ReadAllLimited_length)

lemma fetch_candidate_limits: "fetch_candidate sg tr s c w = (Inr x, w') \<Longrightarrow> within_limits (fst x)"
  by (fastforce simp: fetch_candidate_def within_limits_def split: prod.splits sum.splits dest: download_length)

lemma source_fetch_accepted:
  assumes "source_fetch sg tr s w c = (Inr ms, w', c')" "1 \<le> src_count s"
  obtains acc where "ms = map snd acc" "list_all (accepted_entry sg s) acc" "cacheable s (map fst acc)"
    "c' = source_store s (map fst acc) c"
proof -
  obtain listed w1 where l: "listReleases tr s w = (Inr listed, w1)"
    using assms(1) by (auto simp: source_fetch_def split: prod.splits sum.splits)
  obtain acc err w2 where f: "fetch_loop sg tr s listed [] None w1 = (acc, err, w2)" by (metis prod_cases3)
  have "list_all (\<lambda>x. accepted_entry sg s x \<and> within_limits (fst x)) acc \<and> length acc \<le> src_count s"
    by (rule fetch_loop_all [OF _ f]) (use assms(2) in \<open>auto dest: fetch_candidate_accepted fetch_candidate_limits\<close>)
  with that [of acc] assms(1) l f show ?thesis
    by (auto simp: source_fetch_def cacheable_def list_all_iff split: if_splits)
qed

lemma verify_entries_accepted:
  assumes "verify_entries sg s es ms = Inr ms'" "length ms < src_count s"
    "\<forall>m\<in>set ms. \<exists>e. accepted_entry sg s (e, m)"
  shows "(\<forall>m\<in>set ms'. \<exists>e. accepted_entry sg s (e, m)) \<and> length ms' \<le> src_count s \<and>
    (es \<noteq> [] \<or> ms \<noteq> [] \<longrightarrow> ms' \<noteq> [])"
  using assms
proof (induction es arbitrary: ms)
  case (Cons e es)
  obtain m where v: "Release_Verify sg (Some (src_verifier s)) (sr_manifest e) (sr_bundle e) = Inr m"
    using Cons.prems(1) by (auto split: sum.splits)
  then have all: "\<forall>x\<in>set (ms @ [m]). \<exists>e. accepted_entry sg s (e, x)"
    using Cons.prems(3) by (auto simp: accepted_entry_def)
  show ?case
  proof (cases "Suc (length ms) = src_count s")
    case True
    then show ?thesis using Cons.prems v all by auto
  next
    case False
    then show ?thesis using Cons.IH [OF _ _ all] Cons.prems v by auto
  qed
qed simp

lemma verify_entries_stored:
  assumes "list_all (accepted_entry sg s) acc" "length ms + length acc \<le> src_count s"
  shows "verify_entries sg s (map fst acc) ms = Inr (ms @ map snd acc)"
  using assms
proof (induction acc arbitrary: ms)
  case (Cons x acc)
  show ?case
  proof (cases "Suc (length ms) = src_count s")
    case True
    with Cons.prems(2) have "length acc = 0" unfolding list.size by linarith
    then have "acc = []" by simp
    then show ?thesis using Cons.prems True by (simp add: accepted_entry_def)
  next
    case False
    then show ?thesis using Cons by (simp add: accepted_entry_def)
  qed
qed simp

text \<open>
  Every policy the source derives is well formed and pins, in order, the releases of verified
  manifests, each signed by the release workflow.
\<close>

lemma accepted_verified: "accepted_entry sg s (e, m) \<Longrightarrow> verified_manifest m"
  by (auto simp: accepted_entry_def dest: Release_Verify_verified)

lemma Source_Policy_signed:
  assumes "Source_Policy sg tr s w c = (Inr p, w', c')" "1 \<le> src_count s" "src_count s \<le> MaxPolicyReleases"
  obtains ms where "wf_policy p" "map release_claims (pol_releases p) = map manifest_pins ms" "ms \<noteq> []"
    "length ms \<le> src_count s" "\<forall>m\<in>set ms. \<exists>e. accepted_entry sg s (e, m)"
proof -
  have "\<exists>ms. Release_Policy (map Some ms) = Inr p \<and> ms \<noteq> [] \<and> length ms \<le> src_count s \<and>
      (\<forall>m\<in>set ms. \<exists>e. accepted_entry sg s (e, m))"
  proof (cases "source_fetch sg tr s w c")
    case (fields r w1 c1)
    show ?thesis
    proof (cases r)
      case (Inr ms)
      then obtain acc where a: "ms = map snd acc" "list_all (accepted_entry sg s) acc" "cacheable s (map fst acc)"
        using source_fetch_accepted [of sg tr s w c ms w1 c1] fields assms(2) by metis
      have "Release_Policy (map Some ms) = Inr p" using assms(1) fields Inr by (simp add: Source_Policy_def)
      moreover have "\<exists>e. accepted_entry sg s (e, m)" if m: "m \<in> set ms" for m
        using m a(1,2) by (auto simp: list_all_iff)
      moreover have "ms \<noteq> []" "length ms \<le> src_count s" using a(1,3) by (simp_all add: cacheable_def)
      ultimately show ?thesis by blast
    next
      case (Inl e)
      then obtain ms where ms: "source_cached sg s c1 = Inr ms" "Release_Policy (map Some ms) = Inr p"
        using assms(1) fields by (auto simp: Source_Policy_def split: sum.splits)
      then obtain es where "es \<noteq> []" "verify_entries sg s es [] = Inr ms"
        by (auto simp: source_cached_def split: option.splits sum.splits if_splits)
      with verify_entries_accepted [of sg s es "[]" ms] assms(2) ms(2) show ?thesis by auto
    qed
  qed
  then obtain ms where ms: "Release_Policy (map Some ms) = Inr p" "ms \<noteq> []" "length ms \<le> src_count s"
    "\<forall>m\<in>set ms. \<exists>e. accepted_entry sg s (e, m)" by blast
  then have "\<forall>m\<in>set ms. verified_manifest m" using accepted_verified by blast
  from Release_Policy_iff(2) [OF this ms(1)] ms(3) assms(3) that ms show ?thesis by auto
qed

section \<open>Starting offline\<close>

context release_cache begin

text \<open>A successful fetch leaves a cache that reproduces its manifests, if the store succeeded.\<close>

lemma cached_after_fetch:
  assumes "source_fetch sg tr s w c = (Inr ms, w', c')" "1 \<le> src_count s" "src_cache s = Some ops" "ready c"
    "\<forall>es. cacheable s es \<longrightarrow> fst (co_store ops es c) = None"
  shows "source_cached sg s c' = Inr ms"
proof -
  obtain acc where a: "ms = map snd acc" "list_all (accepted_entry sg s) acc" "cacheable s (map fst acc)"
    "c' = source_store s (map fst acc) c"
    using source_fetch_accepted [OF assms(1,2)] by metis
  obtain c1 where st: "co_store ops (map fst acc) c = (None, c1)"
    using assms(5) a(3) by (metis prod.collapse)
  have "acc \<noteq> []" "length acc \<le> src_count s" using a(3) by (simp_all add: cacheable_def)
  moreover have "co_load ops c' = Inr (map fst acc)"
    using calculation(1) a(4) st assms(3) after_store [OF assms(4) st] by (simp add: source_store_def)
  ultimately show ?thesis
    using a(1) verify_entries_stored [OF a(2), of "[]"] assms(3) by (simp add: source_cached_def)
qed

lemma offline_start:
  assumes "source_fetch sg tr s w c = (Inr ms, w', c')" "1 \<le> src_count s" "src_cache s = Some ops" "ready c"
    "\<forall>es. cacheable s es \<longrightarrow> fst (co_store ops es c) = None" "source_fetch sg tr2 s w2 c' = (Inl e, w3, c'')"
  shows "fst (Source_Policy sg tr2 s w2 c') = fst (Source_Policy sg tr s w c)"
proof -
  have "c'' = c'" using assms(6)
    by (auto simp: source_fetch_def split: prod.splits sum.splits if_splits)
  then show ?thesis
    using cached_after_fetch [OF assms(1-5)] assms(1,6) by (simp add: Source_Policy_def)
qed

end

section \<open>The file cache as that cache\<close>

text \<open>A disk on which every call succeeds.\<close>

definition working_disk :: "fs_env \<Rightarrow> bool" where
  "working_disk env \<longleftrightarrow> fe_mkdir env = None \<and> is_ok (fe_temp env) \<and> fe_outcomes env = []"

lemma length_b64: "length (b64_std_encode d) \<le> 2 * length d + 4"
  unfolding b64_std_encode_def by (induction b64_std_char "''=''" d rule: b64_encode.induct) auto

lemma length_enc_signed: "length (enc_signed e) \<le> 2 * length (sr_manifest e) + 2 * length (sr_bundle e) + 40"
  using length_b64 [of "sr_manifest e"] length_b64 [of "sr_bundle e"]
  by (simp add: enc_signed_def enc_object_def enc_bytes_def plain_char_def)

lemma dec_one: "length (dec_nat (Suc 0)) = 1"
  by (subst dec_nat.simps) simp

lemma enc_cache_file_length:
  assumes "cacheable s es" "src_count s \<le> MaxPolicyReleases"
  shows "length (enc_cache_file \<lparr>cf_schema_version = cacheSchemaVersion, cf_releases = es\<rparr>) \<le> maxCacheBytes"
proof -
  have e: "length (enc_signed e) \<le> 1179700" if "e \<in> set es" for e
    using length_enc_signed [of e] assms(1) that
    by (auto simp: cacheable_def list_all_iff within_limits_def maxManifestBytes_def maxBundleBytes_def)
  have "length (enc_array (map enc_signed es)) \<le> 2 + sum_list (map (\<lambda>e. Suc (length (enc_signed e))) es)"
    using length_enc_commas [of "map enc_signed es"] by (simp add: enc_array_def o_def)
  also have "\<dots> \<le> 2 + sum_list (map (\<lambda>e. 1179701) es)"
    using e by (intro add_left_mono sum_list_mono) simp
  also have "\<dots> \<le> 2 + 4 * 1179701"
    using assms by (simp add: sum_list_triv cacheable_def MaxPolicyReleases_def)
  finally show ?thesis
    using dec_one by (simp add: enc_cache_file_def enc_object_def plain_char_def cacheSchemaVersion_def maxCacheBytes_def dec_int_def)
qed

lemma FileCache_Store_works:
  assumes "es \<noteq> []" "length (enc_cache_file \<lparr>cf_schema_version = cacheSchemaVersion, cf_releases = es\<rparr>) \<le> maxCacheBytes"
    "working_disk env"
  shows "fst (FileCache_Store env path es disk) = None"
  using assms
  by (auto simp: FileCache_Store_def working_disk_def is_ok_def replace_with_def cache_file_ops_def split: sum.splits)

section \<open>Properties\<close>

text \<open>The candidates are tried newest first; releases published at the same time keep the order of
  the listing, and none is lost or duplicated.\<close>

theorem releases_newest_first:
  "sorted_wrt not_newer (newest_first cs) \<and> mset (newest_first cs) = mset cs \<and>
   filter (\<lambda>x. ca_published_at x = k) (newest_first cs) = filter (\<lambda>x. ca_published_at x = k) cs"
  by (simp add: newest_first_sorted newest_first_mset newest_first_stable)

text \<open>The transport that also writes down the URL of every request.\<close>

definition recording :: "'w transport \<Rightarrow> (string list \<times> 'w) transport" where
  "recording tr req lw = (case tr req (snd lw) of (r, w') \<Rightarrow> (r, (fst lw @ [req_url req], w')))"

lemma recording_keeps: "keeps_world (recording tr) (\<lambda>lw. list_all (\<lambda>u. checkDownloadURL u = None) (fst lw))"
  by (auto simp: keeps_world_def recording_def split: prod.splits)


lemma checkDownloadURL_None:
  "checkDownloadURL u = None \<longleftrightarrow> (\<exists>p. ParseRequestURI u = Inr p \<and> url_scheme p = ''https'' \<and> \<not> url_user p \<and>
     Hostname p \<in> {''api.github.com'', ''github.com'', ''objects.githubusercontent.com'', ''release-assets.githubusercontent.com''})"
  by (auto simp: checkDownloadURL_def allowedDownloadHosts_def split: sum.splits)

text \<open>C9: Whatever the release listing and the redirects say, deriving a policy sends requests only to URLs whose
  scheme is https, that carry no user information and whose host is api.github.com, github.com,
  objects.githubusercontent.com or release-assets.githubusercontent.com.\<close>

theorem only_allowed_urls_requested:
  assumes "NewSource sg root repo n client = Inr s"
  shows "case Source_Policy sg (recording tr) (WithCache s cache) ([], w) c of
    (r, (urls, w'), c') \<Rightarrow> list_all (\<lambda>u. \<exists>p. ParseRequestURI u = Inr p \<and> url_scheme p = ''https'' \<and> \<not> url_user p \<and>
      Hostname p \<in> {''api.github.com'', ''github.com'', ''objects.githubusercontent.com'', ''release-assets.githubusercontent.com''}) urls"
  using Source_Policy_keeps [OF recording_keeps, of "WithCache s cache" "([], w)" sg tr c] NewSource_guarded(1) [OF assms]
  unfolding checkDownloadURL_None by (auto split: prod.splits)

text \<open>C6: Every policy the source derives, from the network or from the cache, is valid and pins exactly
  the releases of at most \<open>count\<close> manifests, each of which the release workflow signed.\<close>

theorem derived_policy_is_signed:
  assumes "NewSource sg root repo n client = Inr s"
  shows "case Source_Policy sg tr (WithCache s cache) w c of
     (Inl e, _) \<Rightarrow> True
   | (Inr p, _) \<Rightarrow> wf_policy p \<and> (\<exists>signed. signed \<noteq> [] \<and> length signed \<le> src_count s \<and>
       list_all (accepted_entry sg s) signed \<and> map release_claims (pol_releases p) = map (manifest_pins \<circ> snd) signed)"
proof -
  have "wf_policy p \<and> (\<exists>signed. signed \<noteq> [] \<and> length signed \<le> src_count s \<and>
      list_all (accepted_entry sg s) signed \<and> map release_claims (pol_releases p) = map (manifest_pins \<circ> snd) signed)"
    if sp: "Source_Policy sg tr (WithCache s cache) w c = (Inr p, w', c')" for p w' c'
  proof -
    obtain ms where ms: "wf_policy p" "map release_claims (pol_releases p) = map manifest_pins ms" "ms \<noteq> []"
      "length ms \<le> src_count s" "\<forall>m\<in>set ms. \<exists>e. accepted_entry sg (WithCache s cache) (e, m)"
      using Source_Policy_signed [OF sp] NewSource_guarded [OF assms] by auto
    then obtain f where "\<forall>m\<in>set ms. accepted_entry sg (WithCache s cache) (f m, m)" by metis
    then have "list_all (accepted_entry sg s) (map (\<lambda>m. (f m, m)) ms)"
      by (simp add: list_all_iff accepted_entry_def)
    with ms show ?thesis by (intro conjI exI [of _ "map (\<lambda>m. (f m, m)) ms"]) simp_all
  qed
  then show ?thesis by (auto split: prod.splits sum.splits)
qed

text \<open>C17: On a working disk an offline start rebuilds the policy of the last successful fetch: when the
  next fetch fails, the policy comes from the cache file and is the one the fetch gave.\<close>

theorem offline_start_same_policy:
  assumes "NewSource sg root repo n client = Inr s0" "s = WithCache s0 (Some (file_cache path))"
    "working_disk env" "fresh_temp env path disk"
    "source_fetch sg tr s w (env, disk) = (Inr ms, w1, c1)" "source_fetch sg tr' s w' c1 = (Inl e, w2, c2)"
  shows "fst (Source_Policy sg tr' s w' c1) = fst (Source_Policy sg tr s w (env, disk))"
proof (rule file_cache.offline_start [OF assms(5) _ _ _ _ assms(6)])
  note s0 = NewSource_guarded [OF assms(1)]
  show "1 \<le> src_count s" "src_cache s = Some (file_cache path)" using s0 by (simp_all add: assms(2))
  show "case (env, disk) of (env, fs) \<Rightarrow> fresh_temp env path fs" using assms(4) by simp
  show "\<forall>es. cacheable s es \<longrightarrow> fst (co_store (file_cache path) es (env, disk)) = None"
  proof (intro allI impI)
    fix es assume "cacheable s es"
    then have "es \<noteq> []" "length (enc_cache_file \<lparr>cf_schema_version = cacheSchemaVersion, cf_releases = es\<rparr>) \<le> maxCacheBytes"
      using enc_cache_file_length [of s es] s0 assms(2) by (simp_all add: cacheable_def)
    from FileCache_Store_works [OF this assms(3), of path disk]
    show "fst (co_store (file_cache path) es (env, disk)) = None"
      by (cases "FileCache_Store env path es disk") (simp add: file_cache_def)
  qed
qed

text \<open>C32: Following redirects during a download ends: a download makes at most \<open>maxRedirects\<close> requests, and more
  hops than that would change nothing.\<close>

theorem downloads_end:
  assumes "NewSource sg root repo n client = Inr s" "maxRedirects \<le> fuel"
  shows "client_hops fuel tr (client_check (src_client s)) req 0 w = client_do tr (src_client s) req w \<and>
    length (fst (snd (client_do tr (src_client s) req w))) \<le> maxRedirects"
proof -
  have c: "client_check (src_client s) = allowGitHubRedirects"
    using assms(1) by (auto simp: NewSource_def Let_def client_check_def split: if_splits sum.splits)
  have r: "refuses_from maxRedirects allowGitHubRedirects" by (simp add: refuses_from_def allowGitHubRedirects_def)
  have p: "0 < maxRedirects" "maxRedirects \<le> 11" by (simp_all add: maxRedirects_def)
  have f: "client_hops fuel tr allowGitHubRedirects req 0 w = client_hops 11 tr allowGitHubRedirects req 0 w"
    by (rule client_hops_fuel [OF r]) (use assms(2) p in simp_all)
  obtain x us w' where h: "client_hops 11 tr allowGitHubRedirects req 0 w = (x, us, w')" by (metis prod_cases3)
  from client_hops_length [OF r p(1) h] show ?thesis by (simp add: client_do_def c f h)
qed

end
