(* ===== verification/Sse.thy ===== *)
theory Sse
  imports GoText GoIO
begin

text \<open>
  Splitting at a byte, and the tracker that watches a stream of server-sent events for its
  terminating \<open>data: [DONE]\<close> line (\<open>sseDoneTracker\<close> of internal/proxy/handler.go).
\<close>

section \<open>Splitting\<close>

text \<open>\<open>strings.Split\<close> at a separator of one byte.\<close>

fun split_byte :: "char \<Rightarrow> string \<Rightarrow> string list" where
  "split_byte sep [] = [[]]"
| "split_byte sep (c # s) =
     (if c = sep then [] # split_byte sep s
      else (case split_byte sep s of [] \<Rightarrow> [[c]] | p # ps \<Rightarrow> (c # p) # ps))"

lemma split_byte_nonempty [simp]: "split_byte sep s \<noteq> []"
  by (induction s) (auto split: list.splits)

lemma split_byte_plain: "sep \<notin> set p \<Longrightarrow> split_byte sep p = [p]"
  by (induction p) auto

lemma split_byte_sep: "sep \<notin> set p \<Longrightarrow> split_byte sep (p @ sep # s) = p # split_byte sep s"
  by (induction p) auto

lemma split_byte_parts: "p \<in> set (split_byte sep s) \<Longrightarrow> sep \<notin> set p"
  by (induction s arbitrary: p) (auto split: if_splits list.splits)

section \<open>The tracker\<close>

definition maxSSELineTracking :: nat where "maxSSELineTracking = 1048576"
definition done_line :: string where "done_line = ''data: [DONE]''"

record tracker =
  tk_line :: bytes
  tk_too_long :: bool
  tk_done :: bool

definition newSSEDoneTracker :: tracker where
  "newSSEDoneTracker = \<lparr>tk_line = [], tk_too_long = False, tk_done = False\<rparr>"

definition finishLine :: "tracker \<Rightarrow> tracker" where
  "finishLine t = \<lparr>tk_line = [], tk_too_long = False,
     tk_done = tk_done t \<or> (\<not> tk_too_long t \<and> trim_space (tk_line t) = done_line)\<rparr>"

definition tracker_byte :: "tracker \<Rightarrow> char \<Rightarrow> tracker" where
  "tracker_byte t current =
     (if current = CHR 0x0A then finishLine t
      else if tk_too_long t then t
      else if length (tk_line t) = maxSSELineTracking then t\<lparr>tk_line := [], tk_too_long := True\<rparr>
      else t\<lparr>tk_line := tk_line t @ [current]\<rparr>)"

definition tracker_write :: "bytes \<Rightarrow> tracker \<Rightarrow> tracker" where
  "tracker_write data t = foldl tracker_byte t data"

definition tracker_finish :: "tracker \<Rightarrow> tracker" where
  "tracker_finish t = (if tk_line t \<noteq> [] \<or> tk_too_long t then finishLine t else t)"

section \<open>What the tracker recognises\<close>

text \<open>
  The reference: some line of the stream, the last one with or without its newline, is no longer than
  the bound and is \<open>data: [DONE]\<close> up to white space around it.
\<close>

definition is_done :: "string \<Rightarrow> bool" where
  "is_done ln \<longleftrightarrow> length ln \<le> maxSSELineTracking \<and> trim_space ln = done_line"

definition stream_done :: "bytes \<Rightarrow> bool" where
  "stream_done s \<longleftrightarrow> (\<exists>ln\<in>set (split_byte CHR 0x0A s). is_done ln)"

lemma tracker_write_append: "tracker_write (a @ b) t = tracker_write b (tracker_write a t)"
  by (simp add: tracker_write_def)

lemma tracker_write_concat: "foldl (\<lambda>t d. tracker_write d t) t ds = tracker_write (concat ds) t"
  by (induction ds arbitrary: t) (simp_all add: tracker_write_append, simp add: tracker_write_def)

text \<open>The state after a part of a line, given what was seen before.\<close>

definition in_line :: "bool \<Rightarrow> string \<Rightarrow> tracker" where
  "in_line d p = (if length p \<le> maxSSELineTracking then \<lparr>tk_line = p, tk_too_long = False, tk_done = d\<rparr>
     else \<lparr>tk_line = [], tk_too_long = True, tk_done = d\<rparr>)"

lemma in_line_Nil: "in_line d [] = \<lparr>tk_line = [], tk_too_long = False, tk_done = d\<rparr>"
  by (simp add: in_line_def)

lemma tracker_byte_in_line: "c \<noteq> CHR 0x0A \<Longrightarrow> tracker_byte (in_line d p) c = in_line d (p @ [c])"
  by (auto simp: tracker_byte_def in_line_def)

lemma tracker_newline: "tracker_byte (in_line d p) (CHR 0x0A) = in_line (d \<or> is_done p) []"
  by (auto simp: tracker_byte_def in_line_def finishLine_def is_done_def)

lemma tracker_finish_in_line: "tk_done (tracker_finish (in_line d p)) \<longleftrightarrow> d \<or> is_done p"
proof -
  have "\<not> is_done []" by (simp add: is_done_def trim_space_def done_line_def)
  then show ?thesis by (auto simp: tracker_finish_def in_line_def finishLine_def is_done_def)
qed

lemma tracker_write_line:
  "tk_done (tracker_finish (tracker_write s (in_line d p))) \<longleftrightarrow>
     d \<or> (case split_byte CHR 0x0A s of [] \<Rightarrow> False | q # qs \<Rightarrow> is_done (p @ q) \<or> (\<exists>ln\<in>set qs. is_done ln))"
proof (induction s arbitrary: d p)
  case Nil
  then show ?case by (simp add: tracker_write_def tracker_finish_in_line)
next
  case (Cons c s)
  obtain q qs where q: "split_byte CHR 0x0A s = q # qs"
    using split_byte_nonempty by (cases "split_byte CHR 0x0A s") blast+
  have step: "tracker_write (c # s) t = tracker_write s (tracker_byte t c)" for t c by (simp add: tracker_write_def)
  show ?case
  proof (cases "c = CHR 0x0A")
    case True
    then show ?thesis by (simp add: step tracker_newline Cons.IH q)
  next
    case False
    then show ?thesis by (simp add: step tracker_byte_in_line Cons.IH q)
  qed
qed

lemma tracker_recognises:
  "tk_done (tracker_finish (tracker_write s newSSEDoneTracker)) \<longleftrightarrow> stream_done s"
proof -
  have n: "newSSEDoneTracker = in_line False []" by (simp add: newSSEDoneTracker_def in_line_Nil)
  show ?thesis unfolding n tracker_write_line by (auto simp: stream_done_def split: list.split)
qed

text \<open>The tracker's memory is bounded whatever the stream.\<close>

lemma tracker_byte_bound: "length (tk_line t) \<le> maxSSELineTracking \<Longrightarrow> length (tk_line (tracker_byte t c)) \<le> maxSSELineTracking"
  by (auto simp: tracker_byte_def finishLine_def)

lemma tracker_write_bound:
  "length (tk_line t) \<le> maxSSELineTracking \<Longrightarrow> length (tk_line (tracker_write s t)) \<le> maxSSELineTracking"
proof (induction s arbitrary: t)
  case (Cons c s)
  from Cons.IH [OF tracker_byte_bound [OF Cons.prems]] show ?case by (simp add: tracker_write_def)
qed (simp add: tracker_write_def)

section \<open>Properties\<close>

text \<open>C34: However a stream is cut into writes, the tracker reports the end exactly when the whole stream has a
  line with the terminating event.\<close>

theorem tracker_recognises_stream:
  "tk_done (tracker_finish (foldl (\<lambda>t d. tracker_write d t) newSSEDoneTracker ds)) \<longleftrightarrow> stream_done (concat ds)"
  by (simp add: tracker_write_concat tracker_recognises)

text \<open>The tracker never buffers more than \<open>maxSSELineTracking\<close> bytes, whatever is written to it.\<close>

theorem tracker_bounded:
  "length (tk_line (foldl (\<lambda>t d. tracker_write d t) newSSEDoneTracker ds)) \<le> maxSSELineTracking"
  by (simp add: tracker_write_concat tracker_write_bound newSSEDoneTracker_def)

end
