(* ===== verification/Store.thy ===== *)
theory Store
  imports Ledger JsonStruct GoFS
begin

text \<open>
  Persistence of the ledger (internal/ledger/store.go): the JSON state file, \<open>Open\<close>,
  \<open>Flush\<close> and \<open>writeFileAtomic\<close>. A \<open>persistedAttestation\<close> is the attestation record itself,
  whose \<open>at_document\<close> and \<open>at_manifest\<close> are the two members the code adds to it.
\<close>

definition stateSchemaVersion :: int where "stateSchemaVersion = 1"
definition maxStateBytes :: nat where "maxStateBytes = 33554432"

record persisted_state =
  ps_schema_version :: int
  ps_written_at :: time
  ps_verified_total :: "64 word"
  ps_rejected_total :: "64 word"
  ps_encrypted_total :: "64 word"
  ps_failed_total :: "64 word"
  ps_attestations :: "attestation list"
  ps_requests :: "request list"

section \<open>The JSON forms\<close>

definition zero_check :: check where
  "zero_check = \<lparr>ck_name = [], ck_passed = False, ck_detail = []\<rparr>"

definition check_fields :: "check fields" where
  "check_fields =
    [(''name'', field ck_name (\<lambda>x. ck_name_update (\<lambda>_. x)) decode_string),
     (''passed'', field ck_passed (\<lambda>x. ck_passed_update (\<lambda>_. x)) decode_bool),
     (''detail'', field ck_detail (\<lambda>x. ck_detail_update (\<lambda>_. x)) decode_string)]"

definition enc_check :: "check \<Rightarrow> string" where
  "enc_check c = enc_object [(''name'', enc_string (ck_name c)), (''passed'', enc_bool (ck_passed c)),
     (''detail'', enc_string (ck_detail c))]"

definition attestation_fields :: "attestation fields" where
  "attestation_fields =
    [(''id'', field at_id (\<lambda>x. at_id_update (\<lambda>_. x)) decode_string),
     (''outcome'', field at_outcome (\<lambda>x. at_outcome_update (\<lambda>_. x)) decode_string),
     (''verified_at'', field at_verified_at (\<lambda>x. at_verified_at_update (\<lambda>_. x)) decode_time),
     (''failure'', field at_failure (\<lambda>x. at_failure_update (\<lambda>_. x)) decode_string),
     (''attested_at'', field at_attested_at (\<lambda>x. at_attested_at_update (\<lambda>_. x)) decode_time),
     (''expires_at'', field at_expires_at (\<lambda>x. at_expires_at_update (\<lambda>_. x)) decode_time),
     (''module_id'', field at_module_id (\<lambda>x. at_module_id_update (\<lambda>_. x)) decode_string),
     (''hpke_public_key'', field at_hpke_public_key (\<lambda>x. at_hpke_public_key_update (\<lambda>_. x)) decode_string),
     (''nonce'', field at_nonce (\<lambda>x. at_nonce_update (\<lambda>_. x)) decode_string),
     (''pcr0'', field at_pcr0 (\<lambda>x. at_pcr0_update (\<lambda>_. x)) decode_string),
     (''pcr1'', field at_pcr1 (\<lambda>x. at_pcr1_update (\<lambda>_. x)) decode_string),
     (''pcr2'', field at_pcr2 (\<lambda>x. at_pcr2_update (\<lambda>_. x)) decode_string),
     (''source_revision'', field at_source_revision (\<lambda>x. at_source_revision_update (\<lambda>_. x)) decode_string),
     (''workload'', field at_workload (\<lambda>x. at_workload_update (\<lambda>_. x)) decode_string),
     (''profile'', field at_profile (\<lambda>x. at_profile_update (\<lambda>_. x)) decode_string),
     (''root_fingerprint'', field at_root_fingerprint (\<lambda>x. at_root_fingerprint_update (\<lambda>_. x)) decode_string),
     (''checks'', field at_checks (\<lambda>x. at_checks_update (\<lambda>_. x))
        (decode_slice (decode_struct False check_fields) zero_check)),
     (''document_bytes'', field at_document_bytes (\<lambda>x. at_document_bytes_update (\<lambda>_. x)) decode_int),
     (''document'', field at_document (\<lambda>x. at_document_update (\<lambda>_. x)) decode_bytes),
     (''manifest'', field at_manifest (\<lambda>x. at_manifest_update (\<lambda>_. x)) decode_raw)]"

text \<open>A time field: left out when zero and the field is \<open>omitzero\<close>.\<close>

definition time_member :: "bool \<Rightarrow> string \<Rightarrow> time \<Rightarrow> (string \<times> string) list result" where
  "time_member omit k t = (if omit \<and> t = 0 then Inr [] else rbind (enc_time t) (\<lambda>tx. Inr [(k, tx)]))"

definition text_member :: "string \<Rightarrow> string \<Rightarrow> (string \<times> string) list" where
  "text_member k s = member_if (s \<noteq> []) k (enc_string s)"

definition raw_member :: "string \<Rightarrow> bytes \<Rightarrow> (string \<times> string) list result" where
  "raw_member k m = (if m = [] then Inr [] else rbind (json_compact m) (\<lambda>tx. Inr [(k, tx)]))"

definition enc_attestation :: "attestation \<Rightarrow> string result" where
  "enc_attestation a =
     rbind (time_member False ''verified_at'' (at_verified_at a)) (\<lambda>verified.
     rbind (time_member True ''attested_at'' (at_attested_at a)) (\<lambda>attested.
     rbind (time_member True ''expires_at'' (at_expires_at a)) (\<lambda>expires.
     rbind (raw_member ''manifest'' (at_manifest a)) (\<lambda>manifest.
     Inr (enc_object (
       [(''id'', enc_string (at_id a))] @ [(''outcome'', enc_string (at_outcome a))] @ verified @
       text_member ''failure'' (at_failure a) @ attested @ expires @
       text_member ''module_id'' (at_module_id a) @ text_member ''hpke_public_key'' (at_hpke_public_key a) @
       text_member ''nonce'' (at_nonce a) @ text_member ''pcr0'' (at_pcr0 a) @ text_member ''pcr1'' (at_pcr1 a) @
       text_member ''pcr2'' (at_pcr2 a) @ text_member ''source_revision'' (at_source_revision a) @
       text_member ''workload'' (at_workload a) @ text_member ''profile'' (at_profile a) @
       text_member ''root_fingerprint'' (at_root_fingerprint a) @
       member_if (at_checks a \<noteq> []) ''checks'' (enc_array (map enc_check (at_checks a))) @
       member_if (at_document_bytes a \<noteq> 0) ''document_bytes'' (dec_int (at_document_bytes a)) @
       member_if (at_document a \<noteq> []) ''document'' (enc_bytes (at_document a)) @ manifest))))))"

definition request_fields :: "request fields" where
  "request_fields =
    [(''id'', field rq_id (\<lambda>x. rq_id_update (\<lambda>_. x)) decode_string),
     (''started_at'', field rq_started_at (\<lambda>x. rq_started_at_update (\<lambda>_. x)) decode_time),
     (''duration_ms'', field rq_duration_ms (\<lambda>x. rq_duration_ms_update (\<lambda>_. x)) decode_int),
     (''attestation_id'', field rq_attestation_id (\<lambda>x. rq_attestation_id_update (\<lambda>_. x)) decode_string),
     (''outcome'', field rq_outcome (\<lambda>x. rq_outcome_update (\<lambda>_. x)) decode_string),
     (''failure'', field rq_failure (\<lambda>x. rq_failure_update (\<lambda>_. x)) decode_string),
     (''status_code'', field rq_status_code (\<lambda>x. rq_status_code_update (\<lambda>_. x)) decode_int),
     (''request_bytes'', field rq_request_bytes (\<lambda>x. rq_request_bytes_update (\<lambda>_. x)) decode_int),
     (''response_bytes'', field rq_response_bytes (\<lambda>x. rq_response_bytes_update (\<lambda>_. x)) decode_int),
     (''streaming'', field rq_streaming (\<lambda>x. rq_streaming_update (\<lambda>_. x)) decode_bool)]"

definition enc_request :: "request \<Rightarrow> string result" where
  "enc_request r =
     rbind (time_member False ''started_at'' (rq_started_at r)) (\<lambda>started.
     Inr (enc_object (
       [(''id'', enc_string (rq_id r))] @ started @ [(''duration_ms'', dec_int (rq_duration_ms r))] @
       text_member ''attestation_id'' (rq_attestation_id r) @ [(''outcome'', enc_string (rq_outcome r))] @
       text_member ''failure'' (rq_failure r) @
       member_if (rq_status_code r \<noteq> 0) ''status_code'' (dec_int (rq_status_code r)) @
       [(''request_bytes'', dec_int (rq_request_bytes r))] @ [(''response_bytes'', dec_int (rq_response_bytes r))] @
       [(''streaming'', enc_bool (rq_streaming r))])))"

definition state_fields :: "persisted_state fields" where
  "state_fields =
    [(''schema_version'', field ps_schema_version (\<lambda>x. ps_schema_version_update (\<lambda>_. x)) decode_int),
     (''written_at'', field ps_written_at (\<lambda>x. ps_written_at_update (\<lambda>_. x)) decode_time),
     (''verified_total'', field ps_verified_total (\<lambda>x. ps_verified_total_update (\<lambda>_. x)) decode_uint64),
     (''rejected_total'', field ps_rejected_total (\<lambda>x. ps_rejected_total_update (\<lambda>_. x)) decode_uint64),
     (''encrypted_total'', field ps_encrypted_total (\<lambda>x. ps_encrypted_total_update (\<lambda>_. x)) decode_uint64),
     (''failed_total'', field ps_failed_total (\<lambda>x. ps_failed_total_update (\<lambda>_. x)) decode_uint64),
     (''attestations'', field ps_attestations (\<lambda>x. ps_attestations_update (\<lambda>_. x))
        (decode_slice (decode_struct False attestation_fields) zero_attestation)),
     (''requests'', field ps_requests (\<lambda>x. ps_requests_update (\<lambda>_. x))
        (decode_slice (decode_struct False request_fields) zero_request))]"

text \<open>The request slice is nil when it is empty, so it is written as \<open>null\<close>.\<close>

definition enc_state :: "persisted_state \<Rightarrow> bytes result" where
  "enc_state s =
     rbind (time_member False ''written_at'' (ps_written_at s)) (\<lambda>written.
     rbind (enc_all (map enc_attestation (ps_attestations s))) (\<lambda>atts.
     rbind (enc_all (map enc_request (ps_requests s))) (\<lambda>reqs.
     Inr (enc_object (
       [(''schema_version'', dec_int (ps_schema_version s))] @ written @
       [(''verified_total'', enc_uint64 (ps_verified_total s))] @
       [(''rejected_total'', enc_uint64 (ps_rejected_total s))] @
       [(''encrypted_total'', enc_uint64 (ps_encrypted_total s))] @
       [(''failed_total'', enc_uint64 (ps_failed_total s))] @
       [(''attestations'', enc_array atts)] @
       [(''requests'', if ps_requests s = [] then ''null'' else enc_array reqs)])))))"

definition zero_state :: persisted_state where
  "zero_state = \<lparr>ps_schema_version = 0, ps_written_at = 0, ps_verified_total = 0, ps_rejected_total = 0,
     ps_encrypted_total = 0, ps_failed_total = 0, ps_attestations = [], ps_requests = []\<rparr>"

section \<open>Loading\<close>

text \<open>\<open>os.ReadFile\<close>: \<open>fault\<close> is an error other than the file being missing.\<close>

definition os_read_file :: "error option \<Rightarrow> fs \<Rightarrow> string \<Rightarrow> bytes result" where
  "os_read_file fault fs path = (case fault of
     Some e \<Rightarrow> Inl e
   | None \<Rightarrow> (case fs path of None \<Rightarrow> Inl (Sent NotExist) | Some f \<Rightarrow> Inr (f_data f)))"

definition loadFrom :: "bytes result \<Rightarrow> ledger \<Rightarrow> ledger" where
  "loadFrom contents l = (case contents of
     Inl _ \<Rightarrow> l
   | Inr data \<Rightarrow>
     (if data = [] \<or> length data > maxStateBytes then l
      else (case json_unmarshal (decode_struct False state_fields) zero_state data of
        Inl _ \<Rightarrow> l
      | Inr s \<Rightarrow>
        (if ps_schema_version s \<noteq> stateSchemaVersion then l
         else l\<lparr>l_verified_total := ps_verified_total s, l_rejected_total := ps_rejected_total s,
             l_encrypted_total := ps_encrypted_total s, l_failed_total := ps_failed_total s,
             l_attestations := foldl (\<lambda>acc x. appendCapped acc x maxAttestations) (l_attestations l) (ps_attestations s),
             l_requests := foldl (\<lambda>acc x. appendCapped acc x maxRequests) (l_requests l) (ps_requests s)\<rparr>))))"

definition OpenLedger :: "fs_env \<Rightarrow> error option \<Rightarrow> string \<Rightarrow> fs \<Rightarrow> ledger result" where
  "OpenLedger env fault path fs =
     (if path = [] then Inl (Msg ''ledger state path is required'')
      else (case fe_mkdir env of
        Some e \<Rightarrow> Inl (Wrapf ''create ledger state directory: '' e [])
      | None \<Rightarrow> Inr (loadFrom (os_read_file fault fs path)
          (NewLedger\<lparr>l_store := Some \<lparr>st_path = path, st_dirty = False\<rparr>\<rparr>))))"

section \<open>Writing\<close>

definition snapshotForDisk :: "time \<Rightarrow> ledger \<Rightarrow> persisted_state" where
  "snapshotForDisk now l = \<lparr>ps_schema_version = stateSchemaVersion, ps_written_at = now,
     ps_verified_total = l_verified_total l, ps_rejected_total = l_rejected_total l,
     ps_encrypted_total = l_encrypted_total l, ps_failed_total = l_failed_total l,
     ps_attestations = l_attestations l, ps_requests = l_requests l\<rparr>"

definition ledger_file_ops :: "bytes \<Rightarrow> string \<Rightarrow> (fs_op \<times> string) list" where
  "ledger_file_ops data name =
    [(Chmod name mode_0600, ''set ledger state permissions: ''),
     (WriteTo name data, ''write ledger state: ''),
     (SyncFile, ''sync ledger state: ''),
     (CloseFile, ''close ledger state: '')]"

definition writeFileAtomic :: "fs_env \<Rightarrow> string \<Rightarrow> bytes \<Rightarrow> fs \<Rightarrow> error option \<times> fs list" where
  "writeFileAtomic env path data fs =
     replace_with env ''create ledger temp file: ''
       (\<lambda>name. ledger_file_ops data name @ [(Rename name path, ''replace ledger state: '')]) fs"

definition clear_dirty :: "ledger \<Rightarrow> ledger" where
  "clear_dirty l = (case l_store l of None \<Rightarrow> l | Some s \<Rightarrow> l\<lparr>l_store := Some (s\<lparr>st_dirty := False\<rparr>)\<rparr>)"

definition Flush :: "fs_env \<Rightarrow> time \<Rightarrow> ledger option \<Rightarrow> fs \<Rightarrow> error option \<times> ledger option \<times> fs list" where
  "Flush env now lo fs = (case lo of
     None \<Rightarrow> (None, None, [fs])
   | Some l \<Rightarrow> (case l_store l of
       None \<Rightarrow> (None, Some l, [fs])
     | Some s \<Rightarrow>
       (if \<not> st_dirty s then (None, Some l, [fs])
        else (let l1 = clear_dirty l in
          (case enc_state (snapshotForDisk now l1) of
            Inl e \<Rightarrow> (Some (Wrapf ''encode ledger state: '' e []), Some (markDirty l1), [fs])
          | Inr data \<Rightarrow> (case writeFileAtomic env (st_path s) data fs of
              (Some e, tr) \<Rightarrow> (Some e, Some (markDirty l1), tr)
            | (None, tr) \<Rightarrow> (None, Some l1, tr)))))))"

end
