(* ===== verification/Handler.thy ===== *)
theory Handler
  imports Sse Store JsonUtil GoHttp
begin

unbundle bit_operations_syntax

text \<open>
  The local OpenAI-compatible HTTP surface (internal/proxy/handler.go and
  internal/proxy/verification.go). The world \<open>'w\<close> holds what the handler shares with its
  environment: the clock, the random source, the confidential client behind \<open>sender\<close> and the ledger.
  \<open>panic(http.ErrAbortHandler)\<close> is the result \<open>Aborted\<close>. Log lines are not modelled.
\<close>

definition LocalChatEndpoint :: string where "LocalChatEndpoint = ''/v1/chat/completions''"
definition LocalHealthEndpoint :: string where "LocalHealthEndpoint = ''/healthz''"
definition LocalModelsEndpoint :: string where "LocalModelsEndpoint = ''/v1/models''"
definition LocalVerificationUI :: string where "LocalVerificationUI = ''/verification''"
definition LocalVerificationAPI :: string where "LocalVerificationAPI = ''/v1/verification''"
definition LocalVerificationDocument :: string where "LocalVerificationDocument = ''/v1/verification/document''"
definition envelopeSchemaVersion :: int where "envelopeSchemaVersion = 1"
definition maxRequestBytes :: int where "maxRequestBytes = 10485760"
definition maxNormalResponse :: int where "maxNormalResponse = 67108864"
definition stream_buffer :: nat where "stream_buffer = 32768"

lemmas local_endpoints = LocalChatEndpoint_def LocalHealthEndpoint_def LocalModelsEndpoint_def
  LocalVerificationUI_def LocalVerificationAPI_def LocalVerificationDocument_def

section \<open>The response writer\<close>

text \<open>
  \<open>http.ResponseWriter\<close>: the header map, the status and headers once they are sent, the body bytes
  delivered, how many of them are flushed, and the outcomes of the coming writes: \<open>Some (n, e)\<close> is a
  write that delivers \<open>n\<close> bytes and fails with \<open>e\<close>; when the script is used up, writes succeed.
\<close>

record response_writer =
  rw_header :: header
  rw_sent :: "(int \<times> header) option"
  rw_body :: bytes
  rw_flushed :: nat
  rw_can_flush :: bool
  rw_faults :: "(nat \<times> error) option list"

definition rw_set :: "string \<Rightarrow> string \<Rightarrow> response_writer \<Rightarrow> response_writer" where
  "rw_set k v rw = rw\<lparr>rw_header := header_set (rw_header rw) k v\<rparr>"

definition rw_write_header :: "int \<Rightarrow> response_writer \<Rightarrow> response_writer" where
  "rw_write_header status rw = (case rw_sent rw of
     Some _ \<Rightarrow> rw | None \<Rightarrow> rw\<lparr>rw_sent := Some (status, rw_header rw)\<rparr>)"

definition rw_write :: "bytes \<Rightarrow> response_writer \<Rightarrow> error option \<times> response_writer" where
  "rw_write data rw0 = (let rw = rw_write_header 200 rw0 in case rw_faults rw of
     Some (n, e) # fs \<Rightarrow> (Some e, rw\<lparr>rw_body := rw_body rw @ take n data, rw_faults := fs\<rparr>)
   | _ \<Rightarrow> (None, rw\<lparr>rw_body := rw_body rw @ data, rw_faults := tl (rw_faults rw)\<rparr>))"

definition rw_flush :: "response_writer \<Rightarrow> response_writer" where
  "rw_flush rw = (if rw_can_flush rw then rw\<lparr>rw_flushed := length (rw_body rw)\<rparr> else rw)"

definition fresh_writer :: "response_writer \<Rightarrow> bool" where
  "fresh_writer rw \<longleftrightarrow> rw_sent rw = None \<and> rw_body rw = [] \<and> rw_header rw = []"

text \<open>\<open>http.NotFound\<close>.\<close>

definition NotFound :: "response_writer \<Rightarrow> response_writer" where
  "NotFound rw = snd (rw_write (''404 page not found'' @ [CHR 0x0A])
     (rw_write_header 404 (rw_set ''X-Content-Type-Options'' ''nosniff''
       (rw_set ''Content-Type'' ''text/plain; charset=utf-8'' rw))))"

definition error_body :: "string \<Rightarrow> string \<Rightarrow> bytes" where
  "error_body message errorType =
     enc_object [(''error'', enc_object [(''message'', enc_string message), (''type'', enc_string errorType)])] @ [CHR 0x0A]"

definition writeOpenAIError :: "int \<Rightarrow> string \<Rightarrow> string \<Rightarrow> response_writer \<Rightarrow> response_writer" where
  "writeOpenAIError status message errorType rw =
     snd (rw_write (error_body message errorType) (rw_write_header status (rw_set ''Content-Type'' ''application/json'' rw)))"

section \<open>Requests and the handler\<close>

text \<open>\<open>lr_gone\<close>: whether the request's context is done when a stream ends.\<close>

record local_request =
  lr_method :: string
  lr_path :: string
  lr_raw_query :: string
  lr_header :: header
  lr_body :: reader
  lr_gone :: bool

type_synonym 'w upstream_do = "string \<Rightarrow> string \<Rightarrow> string \<Rightarrow> bytes \<Rightarrow> 'w \<Rightarrow> (http_response result \<times> string) \<times> 'w"

record 'w handler =
  h_sender :: "'w upstream_do"
  h_now :: "'w \<Rightarrow> time \<times> 'w"
  h_new_id :: "'w \<Rightarrow> string result \<times> 'w"
  h_ledger :: "'w \<Rightarrow> ledger option"
  h_set_ledger :: "ledger option \<Rightarrow> 'w \<Rightarrow> 'w"
  h_gateway_origin :: string
  h_verification_ui :: bool
  h_catalog :: "('w \<Rightarrow> (int \<times> bytes) result \<times> 'w) option"
  h_page :: bytes

datatype serve_end = Returned | Aborted

definition randomUUID :: "(nat \<Rightarrow> 'w \<Rightarrow> bytes result \<times> 'w) \<Rightarrow> 'w \<Rightarrow> string result \<times> 'w" where
  "randomUUID random w = (case random 16 w of
     (Inl e, w') \<Rightarrow> (Inl e, w')
   | (Inr value0, w') \<Rightarrow>
      (let byte = (\<lambda>n m k. char_of (unat (((of_char n :: 8 word) AND m) OR k)));
           value1 = value0[6 := byte (value0 ! 6) 0x0f 0x40];
           value = value1[8 := byte (value1 ! 8) 0x3f 0x80];
           raw = hex_encode value
       in (Inr (take 8 raw @ ''-'' @ take 4 (drop 8 raw) @ ''-'' @ take 4 (drop 12 raw) @ ''-'' @
              take 4 (drop 16 raw) @ ''-'' @ take 12 (drop 20 raw)), w')))"

definition enc_envelope :: "string \<Rightarrow> time \<Rightarrow> bytes \<Rightarrow> bytes result" where
  "enc_envelope requestID issued body = rbind (json_compact body) (\<lambda>request.
     Inr (enc_object
       [(''schema_version'', dec_int envelopeSchemaVersion), (''request_id'', enc_string requestID),
        (''issued_at'', enc_string (format_rfc3339nano issued)), (''request'', request)]))"

section \<open>Response headers\<close>

definition isEventStream :: "string \<Rightarrow> bool" where
  "isEventStream contentType = (case parse_media_type contentType of
     None \<Rightarrow> False | Some mediaType \<Rightarrow> to_lower mediaType = ''text/event-stream'')"

definition isHopByHopHeader :: "string \<Rightarrow> bool" where
  "isHopByHopHeader h \<longleftrightarrow> h \<in> set [''Connection'', ''Keep-Alive'', ''Proxy-Authenticate'', ''Proxy-Authorization'',
     ''Te'', ''Trailer'', ''Transfer-Encoding'', ''Upgrade'']"

definition allowedResponseHeader :: "string \<Rightarrow> bool" where
  "allowedResponseHeader h = (let lower = to_lower h in
     lower = ''retry-after'' \<or> lower = ''request-id'' \<or> lower = ''x-request-id'' \<or> lower = ''openai-request-id''
     \<or> has_prefix lower ''x-ratelimit-'')"

definition connection_headers :: "header \<Rightarrow> string list" where
  "connection_headers source =
     map (\<lambda>item. canonical_key (trim_space item)) (concat (map (split_byte CHR '','') (header_values source ''Connection'')))"

definition copies_header :: "header \<Rightarrow> string \<Rightarrow> bool" where
  "copies_header source canonical \<longleftrightarrow>
     \<not> (isHopByHopHeader canonical \<or> canonical = ''Content-Length'' \<or>
        canonical = ''Ehbp-Response-Nonce'' \<or> canonical = ''Ehbp-Encapsulated-Key'') \<and>
     canonical \<notin> set (connection_headers source) \<and> allowedResponseHeader canonical"

fun copy_headers :: "header \<Rightarrow> header \<Rightarrow> header \<Rightarrow> header" where
  "copy_headers source [] destination = destination"
| "copy_headers source ((key, values) # rest) destination =
     (let canonical = canonical_key key in
      copy_headers source rest
        (if copies_header source canonical
         then foldl (\<lambda>d v. header_add d canonical v) destination values else destination))"

definition copyResponseHeaders :: "header \<Rightarrow> header \<Rightarrow> header" where
  "copyResponseHeaders destination source = copy_headers source source destination"

section \<open>Forwarding\<close>

text \<open>The common head of a forwarded response.\<close>

definition forward_head :: "string \<Rightarrow> http_response \<Rightarrow> response_writer \<Rightarrow> response_writer" where
  "forward_head contentType response rw =
     rw_write_header (resp_status response)
       (rw_set ''Cache-Control'' ''no-store'' (rw_set ''Content-Type'' contentType
         (rw\<lparr>rw_header := copyResponseHeaders (rw_header rw) (resp_header response)\<rparr>)))"

definition invalid_response :: "response_writer \<Rightarrow> response_writer" where
  "invalid_response = writeOpenAIError 502 ''confidential Gateway returned an invalid response'' ''api_error''"

definition forwardNormal :: "http_response \<Rightarrow> request \<Rightarrow> response_writer \<Rightarrow> request \<times> response_writer" where
  "forwardNormal response record rw = (case ReadAllLimited (resp_body response) maxNormalResponse of
     Inl e \<Rightarrow> (record\<lparr>rq_failure := ''authenticated response could not be read''\<rparr>, invalid_response rw)
   | Inr body0 \<Rightarrow> (let body = trim_space body0 in
       if \<not> IsJSONObject body
       then (record\<lparr>rq_failure := ''authenticated response was not one complete JSON object''\<rparr>, invalid_response rw)
       else (record\<lparr>rq_outcome := OutcomeEncrypted, rq_response_bytes := int (length body)\<rparr>,
             snd (rw_write body (forward_head ''application/json'' response rw)))))"

definition script_size :: "reader \<Rightarrow> nat" where
  "script_size rd = (\<Sum>(bs, e)\<leftarrow>rd. Suc (length bs))"

lemma read_script_size: "read n rd = ((bs, None), rd') \<Longrightarrow> 0 < n \<Longrightarrow> script_size rd' < script_size rd"
  by (cases rd) (auto simp: script_size_def split: if_splits)

text \<open>
  The loop over the stream. \<open>bufio.Reader.Read\<close> hands a buffer that is at least as large as its own
  straight to the body, so each round is one read of the body. The writes and flushes of a round
  happen only when it delivered bytes.
\<close>

definition stream_deliver :: "bytes \<Rightarrow> response_writer \<Rightarrow> error option \<times> response_writer" where
  "stream_deliver bs rw = (if bs = [] then (None, rw) else (case rw_write bs rw of
     (Some e, rw') \<Rightarrow> (Some e, rw') | (None, rw') \<Rightarrow> (None, rw_flush rw')))"

definition stream_count :: "bytes \<Rightarrow> request \<Rightarrow> request" where
  "stream_count bs record = (if bs = [] then record
     else record\<lparr>rq_response_bytes := int64 (rq_response_bytes record + int (length bs))\<rparr>)"

definition stream_failure :: "bool \<Rightarrow> error \<Rightarrow> string" where
  "stream_failure gone err =
     (if error_is err EOF then ''authenticated event stream ended without a terminating [DONE]''
      else if gone then ''local client disconnected mid-stream''
      else ''authenticated event stream failed mid-response'')"

function stream_loop ::
    "bool \<Rightarrow> reader \<Rightarrow> tracker \<Rightarrow> request \<Rightarrow> response_writer \<Rightarrow> request \<times> response_writer \<times> serve_end" where
  "stream_loop gone rd t record rw = (case read stream_buffer rd of ((bs, e), rd') \<Rightarrow>
     (let record1 = stream_count bs record; t1 = (if bs = [] then t else tracker_write bs t) in
      case stream_deliver bs rw of
        (Some _, rw1) \<Rightarrow> (record1\<lparr>rq_failure := ''local client disconnected mid-stream''\<rparr>, rw1, Returned)
      | (None, rw1) \<Rightarrow>
         (case e of
            None \<Rightarrow> stream_loop gone rd' t1 record1 rw1
          | Some err \<Rightarrow>
             (if tk_done (tracker_finish t1) then (record1\<lparr>rq_outcome := OutcomeEncrypted\<rparr>, rw1, Returned)
              else (record1\<lparr>rq_failure := stream_failure gone err\<rparr>, rw1, Aborted)))))"
  by pat_completeness auto
termination
  by (relation "measure (\<lambda>(gone, rd, t, record, rw). script_size rd)")
     (auto simp: stream_buffer_def intro: read_script_size [OF sym])

declare stream_loop.simps [simp del]

definition forwardEventStream ::
    "bool \<Rightarrow> http_response \<Rightarrow> request \<Rightarrow> response_writer \<Rightarrow> request \<times> response_writer \<times> serve_end" where
  "forwardEventStream gone response record rw =
     stream_loop gone (resp_body response) newSSEDoneTracker record (forward_head ''text/event-stream'' response rw)"

section \<open>The chat endpoint\<close>

text \<open>The checks before anything is prepared: an error reply, or the trimmed body.\<close>

definition check_chat_request :: "local_request \<Rightarrow> (int \<times> string) + bytes" where
  "check_chat_request r =
     (if lr_method r \<noteq> ''POST'' then Inl (405, ''method must be POST'')
      else if parse_media_type (header_get (lr_header r) ''Content-Type'') \<noteq> Some ''application/json''
      then Inl (415, ''Content-Type must be application/json'')
      else (case ReadAllLimited (lr_body r) maxRequestBytes of
        Inl e \<Rightarrow> Inl (413, ''request body exceeds the 10 MiB limit'')
      | Inr body0 \<Rightarrow> (let body = trim_space body0 in
          if \<not> IsJSONObject body then Inl (400, ''request body must be one JSON object'') else Inr body)))"

definition body_forbidden :: "int \<Rightarrow> bool" where
  "body_forbidden status \<longleftrightarrow> status < 200 \<or> status > 599 \<or> (status \<ge> 300 \<and> status \<le> 399) \<or> status = 204 \<or> status = 205"

text \<open>What happens to the outcome of \<open>Do\<close>: the completed record, the reply and how it ends.\<close>

definition forward_outcome ::
    "bool \<Rightarrow> http_response result \<Rightarrow> request \<Rightarrow> response_writer \<Rightarrow> request \<times> response_writer \<times> serve_end" where
  "forward_outcome gone res record rw = (case res of
     Inl e \<Rightarrow> (record\<lparr>rq_failure := ''Gateway attestation or encrypted exchange failed''\<rparr>,
        writeOpenAIError 502 ''confidential Gateway verification or exchange failed'' ''api_error'' rw, Returned)
   | Inr response \<Rightarrow>
      (let record1 = record\<lparr>rq_status_code := resp_status response\<rparr> in
       if body_forbidden (resp_status response)
       then (record1\<lparr>rq_failure := ''Gateway returned a status that forbids a body''\<rparr>, invalid_response rw, Returned)
       else if isEventStream (header_get (resp_header response) ''Content-Type'')
       then forwardEventStream gone response (record1\<lparr>rq_streaming := True\<rparr>) rw
       else (case forwardNormal response record1 rw of (record2, rw') \<Rightarrow> (record2, rw', Returned))))"

definition initial_record :: "string \<Rightarrow> time \<Rightarrow> nat \<Rightarrow> request" where
  "initial_record requestID started n = zero_request\<lparr>rq_id := requestID, rq_started_at := started,
     rq_outcome := OutcomeFailed, rq_request_bytes := int n\<rparr>"

definition preparation_failed :: "response_writer \<Rightarrow> response_writer" where
  "preparation_failed = writeOpenAIError 500 ''local proxy failed to prepare request'' ''api_error''"

text \<open>From the call of \<open>Do\<close> to the deferred recording, which also runs when the handler panics.\<close>

definition exchange_and_record ::
    "'w handler \<Rightarrow> local_request \<Rightarrow> string \<Rightarrow> nat \<Rightarrow> bytes \<Rightarrow> response_writer \<Rightarrow> 'w \<Rightarrow> response_writer \<times> serve_end \<times> 'w" where
  "exchange_and_record h r requestID n envelope rw w = (case h_now h w of (started, w1) \<Rightarrow>
     (case h_sender h (header_get (lr_header r) ''Authorization'') (header_get (lr_header r) ''Accept'')
            (header_get (lr_header r) ''User-Agent'') envelope w1 of ((res, attestationID), w2) \<Rightarrow>
       (case forward_outcome (lr_gone r) res
              ((initial_record requestID started n)\<lparr>rq_attestation_id := attestationID\<rparr>) rw of (record, rw', en) \<Rightarrow>
         (case h_now h w2 of (finished, w3) \<Rightarrow>
           (rw', en, h_set_ledger h
              (RecordRequest (record\<lparr>rq_duration_ms := quot (time_sub finished started) millisecond\<rparr>) (h_ledger h w3)) w3)))))"

definition serveChat :: "'w handler \<Rightarrow> local_request \<Rightarrow> response_writer \<Rightarrow> 'w \<Rightarrow> response_writer \<times> serve_end \<times> 'w" where
  "serveChat h r rw w = (case check_chat_request r of
     Inl (status, message) \<Rightarrow>
       (writeOpenAIError status message ''invalid_request_error''
          (if lr_method r \<noteq> ''POST'' then rw_set ''Allow'' ''POST'' rw else rw), Returned, w)
   | Inr body \<Rightarrow> (case h_new_id h w of
       (Inl e, w1) \<Rightarrow> (preparation_failed rw, Returned, w1)
     | (Inr requestID, w1) \<Rightarrow> (case h_now h w1 of (issued, w2) \<Rightarrow>
         (case enc_envelope requestID issued body of
           Inl e \<Rightarrow> (preparation_failed rw, Returned, w2)
         | Inr envelope \<Rightarrow> exchange_and_record h r requestID (length body) envelope rw w2))))"

section \<open>The other routes\<close>

definition serveHealth :: "local_request \<Rightarrow> response_writer \<Rightarrow> response_writer" where
  "serveHealth r rw =
     (if lr_method r \<noteq> ''GET''
      then writeOpenAIError 405 ''method must be GET'' ''invalid_request_error'' (rw_set ''Allow'' ''GET'' rw)
      else snd (rw_write (enc_object [(''status'', enc_string ''ok'')] @ [CHR 0x0A])
        (rw_write_header 200 (rw_set ''Content-Type'' ''application/json'' rw))))"

definition serveModels :: "'w handler \<Rightarrow> local_request \<Rightarrow> response_writer \<Rightarrow> 'w \<Rightarrow> response_writer \<times> 'w" where
  "serveModels h r rw w = (case h_catalog h of
     None \<Rightarrow> (NotFound rw, w)
   | Some catalog_fetch \<Rightarrow>
      (if lr_method r \<noteq> ''GET''
       then (writeOpenAIError 405 ''method must be GET'' ''invalid_request_error'' (rw_set ''Allow'' ''GET'' rw), w)
       else (case catalog_fetch w of
         (Inl e, w') \<Rightarrow> (writeOpenAIError 502 ''could not read the model catalog from the Gateway'' ''api_error'' rw, w')
       | (Inr (status, body), w') \<Rightarrow>
          (snd (rw_write body (rw_write_header status (rw_set ''Content-Type'' ''application/json'' rw))), w'))))"

text \<open>The reply \<open>allowVerification\<close> gives when it refuses.\<close>

definition allowVerification :: "'w handler \<Rightarrow> local_request \<Rightarrow> response_writer \<Rightarrow> 'w \<Rightarrow> response_writer option" where
  "allowVerification h r rw w =
     (if \<not> h_verification_ui h \<or> h_ledger h w = None then Some (NotFound rw)
      else if lr_method r \<noteq> ''GET''
      then Some (writeOpenAIError 405 ''method must be GET'' ''invalid_request_error'' (rw_set ''Allow'' ''GET'' rw))
      else None)"

definition serveVerificationUI :: "'w handler \<Rightarrow> local_request \<Rightarrow> response_writer \<Rightarrow> 'w \<Rightarrow> response_writer" where
  "serveVerificationUI h r rw w = (case allowVerification h r rw w of
     Some rw' \<Rightarrow> rw'
   | None \<Rightarrow> snd (rw_write (h_page h) (rw_write_header 200
       (rw_set ''Referrer-Policy'' ''no-referrer'' (rw_set ''X-Content-Type-Options'' ''nosniff''
         (rw_set ''Content-Security-Policy''
            (''default-src '' @ [CHR 0x27] @ ''none'' @ [CHR 0x27] @ ''; style-src '' @ [CHR 0x27] @ ''unsafe-inline'' @
             [CHR 0x27] @ ''; script-src '' @ [CHR 0x27] @ ''unsafe-inline'' @ [CHR 0x27] @ ''; connect-src '' @
             [CHR 0x27] @ ''self'' @ [CHR 0x27])
           (rw_set ''Content-Type'' ''text/html; charset=utf-8'' rw)))))))"

text \<open>\<open>json.Marshal\<close> of the snapshot behind the gateway's name; the slices are never nil here.\<close>

definition enc_view :: "string \<Rightarrow> snapshot \<Rightarrow> bytes result" where
  "enc_view gateway s =
     rbind (time_member False ''generated_at'' (sn_generated_at s)) (\<lambda>generated.
     rbind (case sn_current s of None \<Rightarrow> Inr [] | Some a \<Rightarrow> rbind (enc_attestation a) (\<lambda>tx. Inr [(''current'', tx)])) (\<lambda>current.
     rbind (enc_all (map enc_attestation (sn_attestations s))) (\<lambda>atts.
     rbind (enc_all (map enc_request (sn_requests s))) (\<lambda>reqs.
     Inr (enc_object (
       [(''gateway'', enc_string gateway)] @ [(''status'', enc_string (sn_status s))] @ generated @
       [(''verified_total'', enc_uint64 (sn_verified_total s))] @
       [(''rejected_total'', enc_uint64 (sn_rejected_total s))] @
       [(''encrypted_total'', enc_uint64 (sn_encrypted_total s))] @
       [(''failed_total'', enc_uint64 (sn_failed_total s))] @
       [(''persistent'', enc_bool (sn_persistent s))] @ current @
       [(''attestations'', enc_array atts)] @ [(''requests'', enc_array reqs)]))))))"

definition serveVerificationAPI :: "'w handler \<Rightarrow> local_request \<Rightarrow> response_writer \<Rightarrow> 'w \<Rightarrow> response_writer \<times> 'w" where
  "serveVerificationAPI h r rw w = (case allowVerification h r rw w of
     Some rw' \<Rightarrow> (rw', w)
   | None \<Rightarrow> (case h_now h w of (now, w1) \<Rightarrow>
       (let rw1 = rw_write_header 200 (rw_set ''X-Content-Type-Options'' ''nosniff''
              (rw_set ''Content-Type'' ''application/json'' rw))
        in (case enc_view (h_gateway_origin h) (Snapshot now (the (h_ledger h w))) of
             Inl e \<Rightarrow> (rw1, w1)
           | Inr body \<Rightarrow> (snd (rw_write (body @ [CHR 0x0A]) rw1), w1)))))"

text \<open>\<open>url.Values.Get\<close> of the parsed query.\<close>

fun query_unescape :: "string \<Rightarrow> string option" where
  "query_unescape [] = Some []"
| "query_unescape (c # s) =
     (if c = CHR ''%'' then
        (case s of a # b # t \<Rightarrow>
           (case (hex_val a, hex_val b) of
              (Some x, Some y) \<Rightarrow> map_option (Cons (char_of (16 * x + y))) (query_unescape t)
            | _ \<Rightarrow> None)
         | _ \<Rightarrow> None)
      else map_option (Cons (if c = CHR ''+'' then CHR '' '' else c)) (query_unescape s))"

definition query_pair :: "string \<Rightarrow> (string \<times> string) option" where
  "query_pair part =
     (if part = [] \<or> CHR '';'' \<in> set part then None
      else (case cut_byte CHR ''='' part of (k, v, _) \<Rightarrow>
        (case (query_unescape k, query_unescape v) of (Some k', Some v') \<Rightarrow> Some (k', v') | _ \<Rightarrow> None)))"

definition query_get :: "string \<Rightarrow> string \<Rightarrow> string" where
  "query_get raw k = (case map_of (List.map_filter query_pair (split_byte CHR ''&'' raw)) k of None \<Rightarrow> [] | Some v \<Rightarrow> v)"

definition serveVerificationDocument ::
    "'w handler \<Rightarrow> local_request \<Rightarrow> response_writer \<Rightarrow> 'w \<Rightarrow> response_writer" where
  "serveVerificationDocument h r rw w = (case allowVerification h r rw w of
     Some rw' \<Rightarrow> rw'
   | None \<Rightarrow> (let ident = query_get (lr_raw_query r) ''id'' in
      (case Document ident (the (h_ledger h w)) of
        None \<Rightarrow> writeOpenAIError 404 ''no retained evidence for that attestation'' ''invalid_request_error'' rw
      | Some (document, manifest) \<Rightarrow>
         (let rw1 = rw_set ''X-Content-Type-Options'' ''nosniff'' rw in
          if query_get (lr_raw_query r) ''part'' = ''manifest''
          then snd (rw_write manifest (rw_write_header 200
            (rw_set ''Content-Disposition'' (''attachment; filename='' @ [dquote] @ ''nexus-manifest-'' @ ident @ ''.json'' @ [dquote])
              (rw_set ''Content-Type'' ''application/json'' rw1))))
          else snd (rw_write document (rw_write_header 200
            (rw_set ''Content-Disposition'' (''attachment; filename='' @ [dquote] @ ''nexus-attestation-'' @ ident @ ''.cose'' @ [dquote])
              (rw_set ''Content-Type'' ''application/octet-stream'' rw1))))))))"

section \<open>Dispatch\<close>

definition ServeHTTP :: "'w handler \<Rightarrow> local_request \<Rightarrow> response_writer \<Rightarrow> 'w \<Rightarrow> response_writer \<times> serve_end \<times> 'w" where
  "ServeHTTP h r rw0 w =
     (let rw = rw_set ''Cache-Control'' ''no-store'' rw0; path = lr_path r in
      if path = LocalHealthEndpoint then (serveHealth r rw, Returned, w)
      else if path = LocalVerificationUI then (serveVerificationUI h r rw w, Returned, w)
      else if path = LocalVerificationAPI
      then (case serveVerificationAPI h r rw w of (rw', w') \<Rightarrow> (rw', Returned, w'))
      else if path = LocalVerificationDocument then (serveVerificationDocument h r rw w, Returned, w)
      else if path = LocalModelsEndpoint then (case serveModels h r rw w of (rw', w') \<Rightarrow> (rw', Returned, w'))
      else if path \<noteq> LocalChatEndpoint then (NotFound rw, Returned, w)
      else serveChat h r rw w)"

definition NewHandler :: "'w upstream_do option \<Rightarrow> ('w \<Rightarrow> time \<times> 'w) \<Rightarrow> (nat \<Rightarrow> 'w \<Rightarrow> bytes result \<times> 'w) \<Rightarrow> bytes \<Rightarrow>
    ('w \<Rightarrow> ledger option) \<Rightarrow> (ledger option \<Rightarrow> 'w \<Rightarrow> 'w) \<Rightarrow> 'w handler result" where
  "NewHandler upstream now random page led set_led = (case upstream of
     None \<Rightarrow> Inl (Msg ''confidential upstream is required'')
   | Some f \<Rightarrow> Inr \<lparr>h_sender = f, h_now = now, h_new_id = randomUUID random, h_ledger = led, h_set_ledger = set_led,
       h_gateway_origin = [], h_verification_ui = False, h_catalog = None, h_page = page\<rparr>)"

definition WithVerification :: "string \<Rightarrow> 'w handler \<Rightarrow> 'w handler" where
  "WithVerification gatewayOrigin h = h\<lparr>h_gateway_origin := gatewayOrigin, h_verification_ui := True\<rparr>"

definition WithModelCatalog :: "('w \<Rightarrow> (int \<times> bytes) result \<times> 'w) option \<Rightarrow> 'w handler \<Rightarrow> 'w handler" where
  "WithModelCatalog source h = h\<lparr>h_catalog := source\<rparr>"

end
