(* ===== verification/HandlerSafety.thy ===== *)
theory HandlerSafety
  imports Handler
begin

text \<open>
  What the local HTTP surface guarantees: what a stream delivers and when it counts as a success, which
  response headers pass, that every exchange leaves exactly one ledger entry, and that an entry holds
  nothing of a request's content.
\<close>

section \<open>Writers\<close>

lemma rw_write_header_simps [simp]:
  "rw_body (rw_write_header s rw) = rw_body rw" "rw_faults (rw_write_header s rw) = rw_faults rw"
  "rw_header (rw_write_header s rw) = rw_header rw" "rw_sent (rw_write_header s rw) \<noteq> None"
  by (auto simp: rw_write_header_def split: option.splits)

lemma rw_set_simps [simp]:
  "rw_body (rw_set k v rw) = rw_body rw" "rw_faults (rw_set k v rw) = rw_faults rw" "rw_sent (rw_set k v rw) = rw_sent rw"
  by (simp_all add: rw_set_def)

lemma rw_write_body:
  "rw_write d rw = (r, rw') \<Longrightarrow> (\<exists>k. rw_body rw' = rw_body rw @ take k d) \<and> (r = None \<longrightarrow> rw_body rw' = rw_body rw @ d)"
  by (auto simp: rw_write_def Let_def split: list.splits option.splits intro: exI [of _ "length d"])

lemma rw_write_sent: "rw_sent (snd (rw_write d rw)) = rw_sent (rw_write_header 200 rw)"
  by (simp add: rw_write_def Let_def split: list.splits option.splits)

lemma rw_flush_simps [simp]: "rw_body (rw_flush rw) = rw_body rw" "rw_faults (rw_flush rw) = rw_faults rw" "rw_sent (rw_flush rw) = rw_sent rw"
  by (simp_all add: rw_flush_def)

lemma stream_deliver_body:
  "stream_deliver bs rw = (r, rw') \<Longrightarrow> (\<exists>k. rw_body rw' = rw_body rw @ take k bs) \<and> (r = None \<longrightarrow> rw_body rw' = rw_body rw @ bs)"
  by (auto simp: stream_deliver_def split: if_splits prod.splits option.splits dest: rw_write_body)

section \<open>Streams\<close>

lemma drain_read:
  assumes "read n rd = ((bs, e), rd')" "0 < n"
  shows "drain rd = (case e of None \<Rightarrow> (bs @ fst (drain rd'), snd (drain rd'))
    | Some err \<Rightarrow> (bs, if err = Sent EOF then None else Some err))"
proof (cases rd)
  case Nil
  then show ?thesis using assms by auto
next
  case (Cons x r)
  obtain b f where x: "x = (b, f)" by force
  show ?thesis
  proof (cases "length b \<le> n")
    case True
    then show ?thesis using assms Cons x by (auto split: option.splits prod.splits)
  next
    case False
    then have "bs = take n b" "e = None" "rd' = (drop n b, f) # r" using assms(1) Cons x by auto
    then show ?thesis using Cons x by (cases f) (auto split: prod.splits)
  qed
qed

lemma stream_count_simps [simp]: "rq_outcome (stream_count bs rec) = rq_outcome rec"
  by (simp add: stream_count_def)

lemma tracker_write_cond: "(if bs = [] then t else tracker_write bs t) = tracker_write bs t"
  by (simp add: tracker_write_def)

lemma stream_loop_step:
  assumes "read stream_buffer rd = ((bs, e), rd')" "stream_deliver bs rw = (er, rw1)"
  shows "stream_loop gone rd t rc rw = (case er of
      Some _ \<Rightarrow> ((stream_count bs rc)\<lparr>rq_failure := ''local client disconnected mid-stream''\<rparr>, rw1, Returned)
    | None \<Rightarrow> (case e of
        None \<Rightarrow> stream_loop gone rd' (tracker_write bs t) (stream_count bs rc) rw1
      | Some err \<Rightarrow>
         (if tk_done (tracker_finish (tracker_write bs t))
          then ((stream_count bs rc)\<lparr>rq_outcome := OutcomeEncrypted\<rparr>, rw1, Returned)
          else ((stream_count bs rc)\<lparr>rq_failure := stream_failure gone err\<rparr>, rw1, Aborted))))"
  by (subst stream_loop.simps) (simp add: assms tracker_write_cond Let_def)

lemma stream_induct:
  assumes "\<And>rd t rc rw. (\<And>bs rd' rw1. read stream_buffer rd = ((bs, None), rd') \<Longrightarrow> stream_deliver bs rw = (None, rw1) \<Longrightarrow>
     P rd' (tracker_write bs t) (stream_count bs rc) rw1) \<Longrightarrow> P rd t rc rw"
  shows "P rd t rc rw"
proof (induction "script_size rd" arbitrary: rd t rc rw rule: less_induct)
  case less
  show ?case
    by (rule assms, rule less) (simp add: read_script_size stream_buffer_def)
qed

text \<open>
  What a stream delivers is a prefix of what the upstream sent before its first error; the exchange
  counts as encrypted only when all of it has been delivered and it contains the terminator, and it
  is aborted only when all of it has been delivered and it does not.
\<close>

lemma stream_loop_safe:
  assumes "stream_loop gone rd t rc rw = (rc', rw', en)" "rq_outcome rc \<noteq> OutcomeEncrypted"
  shows "(\<exists>k. rw_body rw' = rw_body rw @ take k (fst (drain rd))) \<and>
    (rq_outcome rc' = OutcomeEncrypted \<longrightarrow> en = Returned \<and> rw_body rw' = rw_body rw @ fst (drain rd) \<and>
       tk_done (tracker_finish (tracker_write (fst (drain rd)) t))) \<and>
    (en = Aborted \<longrightarrow> rw_body rw' = rw_body rw @ fst (drain rd) \<and>
       \<not> tk_done (tracker_finish (tracker_write (fst (drain rd)) t)))"
  using assms
proof (induction rd t rc rw rule: stream_induct)
  case (1 rd t rc rw)
  obtain bs e rd' where r: "read stream_buffer rd = ((bs, e), rd')" by (metis surj_pair)
  obtain er rw1 where d: "stream_deliver bs rw = (er, rw1)" by force
  have dr: "drain rd = (case e of None \<Rightarrow> (bs @ fst (drain rd'), snd (drain rd'))
      | Some err \<Rightarrow> (bs, if err = Sent EOF then None else Some err))"
    by (rule drain_read [OF r]) (simp add: stream_buffer_def)
  note loop = "1.prems"(1) [unfolded stream_loop_step [OF r d]] and body = stream_deliver_body [OF d]
  show ?case
  proof (cases er)
    case (Some err)
    with loop have res: "rw' = rw1" "en = Returned" "rq_outcome rc' = rq_outcome rc" by auto
    obtain k where k: "rw_body rw1 = rw_body rw @ take k bs" using body by blast
    have "\<exists>j. take k bs = take j (fst (drain rd))"
      by (rule exI [of _ "min k (length bs)"]) (use dr in \<open>cases e; auto simp: min_def\<close>)
    then show ?thesis using "1.prems"(2) res k by auto
  next
    case None
    then have b: "rw_body rw1 = rw_body rw @ bs" using body by simp
    show ?thesis
    proof (cases e)
      case (Some err)
      then have "fst (drain rd) = bs" using dr by simp
      then show ?thesis
        using loop None Some b "1.prems"(2) by (auto split: if_splits intro: exI [of _ "length bs"])
    next
      case e: None
      have "stream_loop gone rd' (tracker_write bs t) (stream_count bs rc) rw1 = (rc', rw', en)"
        using loop None e by simp
      note ih = "1.IH" [OF r [unfolded e] d [unfolded None] this]
      have all: "fst (drain rd) = bs @ fst (drain rd')" using dr e by simp
      obtain k where "rw_body rw' = rw_body rw1 @ take k (fst (drain rd'))" using ih "1.prems"(2) by auto
      then have "rw_body rw' = rw_body rw @ take (length bs + k) (fst (drain rd))" using b all by simp
      then have ex: "\<exists>k. rw_body rw' = rw_body rw @ take k (fst (drain rd))" ..
      show ?thesis
        by (intro conjI ex) (use ih "1.prems"(2) b all in \<open>auto simp: tracker_write_append\<close>)
    qed
  qed
qed

text \<open>
  The pieces in which a stream is written to the local client, one write each, and that the local client's
  connection takes the first \<open>k\<close> writes. The exchange counts as encrypted exactly when every piece was taken and
  the stream has its terminator.
\<close>

function stream_pieces :: "reader \<Rightarrow> bytes list" where
  "stream_pieces rd = (case read stream_buffer rd of ((bs, e), rd') \<Rightarrow>
     (if bs = [] then [] else [bs]) @ (case e of None \<Rightarrow> stream_pieces rd' | Some _ \<Rightarrow> []))"
  by pat_completeness auto
termination
  by (relation "measure script_size") (auto simp: stream_buffer_def intro: read_script_size [OF sym])

declare stream_pieces.simps [simp del]

definition writes_succeed :: "nat \<Rightarrow> response_writer \<Rightarrow> bool" where
  "writes_succeed k rw \<longleftrightarrow> list_all (\<lambda>f. f = None) (take k (rw_faults rw))"

lemma stream_pieces_all: "concat (stream_pieces rd) = fst (drain rd)"
proof (induction rd rule: stream_pieces.induct)
  case (1 rd)
  obtain bs e rd' where r: "read stream_buffer rd = ((bs, e), rd')" by (metis surj_pair)
  have dr: "drain rd = (case e of None \<Rightarrow> (bs @ fst (drain rd'), snd (drain rd'))
      | Some err \<Rightarrow> (bs, if err = Sent EOF then None else Some err))"
    by (rule drain_read [OF r]) (simp add: stream_buffer_def)
  show ?case
  proof (cases e)
    case None
    with 1 [OF r [symmetric] refl] dr r show ?thesis by (subst stream_pieces.simps) simp
  next
    case (Some err)
    with dr r show ?thesis by (subst stream_pieces.simps) simp
  qed
qed

lemma writes_succeed_Suc:
  "writes_succeed (Suc k) rw \<longleftrightarrow> (case rw_faults rw of Some f # fs \<Rightarrow> False | _ \<Rightarrow> list_all (\<lambda>f. f = None) (take k (tl (rw_faults rw))))"
  by (auto simp: writes_succeed_def split: list.split option.split)

lemma rw_write_succeeds: "fst (rw_write d rw) = None \<longleftrightarrow> writes_succeed 1 rw"
  by (auto simp: rw_write_def writes_succeed_Suc Let_def split: list.split option.split)

lemma stream_deliver_succeeds:
  assumes "stream_deliver bs rw = (er, rw1)"
  shows "writes_succeed (length (if bs = [] then [] else [bs]) + k) rw \<longleftrightarrow> er = None \<and> writes_succeed k rw1"
  using assms by (auto simp: stream_deliver_def rw_write_def writes_succeed_Suc writes_succeed_def Let_def
      split: list.splits option.splits if_splits)

lemma stream_loop_encrypted:
  assumes "stream_loop gone rd t rc rw = (rc', rw', en)" "rq_outcome rc \<noteq> OutcomeEncrypted"
  shows "rq_outcome rc' = OutcomeEncrypted \<longleftrightarrow> writes_succeed (length (stream_pieces rd)) rw \<and>
     tk_done (tracker_finish (tracker_write (fst (drain rd)) t))"
  using assms
proof (induction rd t rc rw rule: stream_induct)
  case (1 rd t rc rw)
  obtain bs e rd' where r: "read stream_buffer rd = ((bs, e), rd')" by (metis surj_pair)
  obtain er rw1 where d: "stream_deliver bs rw = (er, rw1)" by force
  have dr: "drain rd = (case e of None \<Rightarrow> (bs @ fst (drain rd'), snd (drain rd'))
      | Some err \<Rightarrow> (bs, if err = Sent EOF then None else Some err))"
    by (rule drain_read [OF r]) (simp add: stream_buffer_def)
  note loop = "1.prems"(1) [unfolded stream_loop_step [OF r d]]
  have p: "stream_pieces rd = (if bs = [] then [] else [bs]) @ (case e of None \<Rightarrow> stream_pieces rd' | Some _ \<Rightarrow> [])"
    using r by (subst stream_pieces.simps) simp
  have w: "writes_succeed (length (stream_pieces rd)) rw \<longleftrightarrow> er = None \<and>
      writes_succeed (length (case e of None \<Rightarrow> stream_pieces rd' | Some _ \<Rightarrow> [])) rw1"
    unfolding p length_append by (rule stream_deliver_succeeds [OF d])
  show ?case
  proof (cases er)
    case (Some err)
    with loop w "1.prems"(2) show ?thesis by auto
  next
    case er: None
    show ?thesis
    proof (cases e)
      case (Some err)
      with loop er w dr "1.prems"(2) show ?thesis by (auto simp: writes_succeed_def split: if_splits)
    next
      case e: None
      have "stream_loop gone rd' (tracker_write bs t) (stream_count bs rc) rw1 = (rc', rw', en)" using loop er e by simp
      from "1.IH" [OF r [unfolded e] d [unfolded er] this] "1.prems"(2) w er e dr show ?thesis
        by (simp add: tracker_write_append)
    qed
  qed
qed

section \<open>Response headers\<close>

definition header_keys :: "header \<Rightarrow> string set" where
  "header_keys h = fst ` set h"

lemma header_keys_assoc: "fst ` set (assoc_set k v m) = insert k (fst ` set m)"
  by (induction k v m rule: assoc_set.induct) (simp_all add: insert_commute)

lemma header_keys_set [simp]: "header_keys (header_set h k v) = insert (canonical_key k) (header_keys h)"
  by (simp add: header_keys_def header_set_def header_keys_assoc)

lemma header_keys_add: "header_keys (header_add h k v) = insert (canonical_key k) (header_keys h)"
  by (simp add: header_keys_def header_add_def header_keys_assoc)

lemma canonical_char_idem: "(if up then upper_char else lower_char) ((if up then upper_char else lower_char) c) = (if up then upper_char else lower_char) c"
  by (auto simp: upper_char_def lower_char_def)

lemma case_char_dash: "(if up then upper_char c else lower_char c) = CHR ''-'' \<longleftrightarrow> c = CHR ''-''"
proof
  assume a: "(if up then upper_char c else lower_char c) = CHR ''-''"
  show "c = CHR ''-''"
  proof (rule ccontr)
    assume "c \<noteq> CHR ''-''"
    with a have "ord_of c - 32 = 45 \<and> 97 \<le> ord_of c \<or> ord_of c + 32 = 45 \<and> 65 \<le> ord_of c"
      by (auto simp: upper_char_def lower_char_def char_of_eq_iff take_bit_nat_eq_self split: if_splits)
    then show False by auto
  qed
qed (simp add: upper_char_def lower_char_def)

lemma canonical_chars_idem: "canonical_chars up (canonical_chars up s) = canonical_chars up s"
proof (induction s arbitrary: up)
  case (Cons c s)
  then show ?case using case_char_dash [of up c] canonical_char_idem [of up c] by (cases up) simp_all
qed simp

lemma case_char_token: "header_token_char c \<Longrightarrow> header_token_char (if up then upper_char c else lower_char c)"
proof -
  assume c: "header_token_char c"
  have letter: "header_token_char d" if "65 \<le> ord_of d \<and> ord_of d \<le> 90 \<or> 97 \<le> ord_of d \<and> ord_of d \<le> 122" for d
    using that unfolding header_token_char_def by blast
  have "header_token_char (upper_char c)"
    using c by (cases "97 \<le> ord_of c \<and> ord_of c \<le> 122") (auto simp: upper_char_def take_bit_nat_eq_self intro: letter)
  moreover have "header_token_char (lower_char c)"
    using c by (cases "65 \<le> ord_of c \<and> ord_of c \<le> 90") (auto simp: lower_char_def take_bit_nat_eq_self intro: letter)
  ultimately show ?thesis by simp
qed

lemma canonical_chars_token: "list_all header_token_char s \<Longrightarrow> list_all header_token_char (canonical_chars up s)"
  by (induction s arbitrary: up) (simp_all add: case_char_token)

lemma canonical_key_idem [simp]: "canonical_key (canonical_key k) = canonical_key k"
  by (simp add: canonical_key_def canonical_chars_idem canonical_chars_token)

lemma header_keys_foldl:
  "header_keys (foldl (\<lambda>d v. header_add d k v) d vs) \<subseteq> insert (canonical_key k) (header_keys d)"
proof (induction vs arbitrary: d)
  case (Cons v vs)
  from Cons.IH [of "header_add d k v"] show ?case by (auto simp: header_keys_add)
qed auto

lemma copy_headers_keys:
  "header_keys (copy_headers source hs d) \<subseteq> header_keys d \<union> {k. copies_header source k}"
proof (induction hs arbitrary: d)
  case (Cons x hs)
  obtain k vs where x: "x = (k, vs)" by force
  show ?case
  proof (cases "copies_header source (canonical_key k)")
    case True
    have "header_keys (foldl (\<lambda>d v. header_add d (canonical_key k) v) d vs) \<subseteq> header_keys d \<union> {k. copies_header source k}"
      using header_keys_foldl [of "canonical_key k" d vs] True by auto
    with Cons.IH True x show ?thesis by (force simp: Let_def)
  next
    case False
    with Cons.IH x show ?thesis by (simp add: Let_def)
  qed
qed simp

text \<open>The headers a forwarded response may carry.\<close>

definition forwardable :: "header \<Rightarrow> string \<Rightarrow> bool" where
  "forwardable source k \<longleftrightarrow> k \<in> {''Cache-Control'', ''Content-Type''} \<or> copies_header source k"

lemma canonical_literals [simp]:
  "canonical_key ''Content-Type'' = ''Content-Type''" "canonical_key ''Cache-Control'' = ''Cache-Control''"
  "canonical_key ''Allow'' = ''Allow''"
  by (simp_all add: canonical_key_def header_token_char_def upper_char_def lower_char_def)

lemma forward_head_sent:
  assumes "rw_sent rw = None" "\<forall>k\<in>header_keys (rw_header rw). forwardable (resp_header response) k"
  obtains h where "rw_sent (forward_head ct response rw) = Some (resp_status response, h)"
    "\<forall>k\<in>header_keys h. forwardable (resp_header response) k"
proof -
  let ?h = "header_set (header_set (copyResponseHeaders (rw_header rw) (resp_header response)) ''Content-Type'' ct)
    ''Cache-Control'' ''no-store''"
  have s: "rw_sent (forward_head ct response rw) = Some (resp_status response, ?h)"
    using assms(1) by (simp add: forward_head_def rw_write_header_def rw_set_def)
  have "header_keys (copyResponseHeaders (rw_header rw) (resp_header response)) \<subseteq>
      header_keys (rw_header rw) \<union> {k. copies_header (resp_header response) k}"
    unfolding copyResponseHeaders_def by (rule copy_headers_keys)
  then have "\<forall>k\<in>header_keys ?h. forwardable (resp_header response) k"
    using assms(2) by (auto simp: forwardable_def)
  with s that show ?thesis by blast
qed

lemma stream_deliver_sent: "rw_sent rw \<noteq> None \<Longrightarrow> rw_sent (snd (stream_deliver bs rw)) = rw_sent rw"
  by (auto simp: stream_deliver_def rw_write_def rw_write_header_def rw_flush_def Let_def split: list.splits option.splits)

lemma stream_loop_sent:
  "stream_loop gone rd t rc rw = (rc', rw', en) \<Longrightarrow> rw_sent rw \<noteq> None \<Longrightarrow> rw_sent rw' = rw_sent rw"
proof (induction rd t rc rw rule: stream_induct)
  case (1 rd t rc rw)
  obtain bs e rd' where r: "read stream_buffer rd = ((bs, e), rd')" by (metis surj_pair)
  obtain er rw1 where d: "stream_deliver bs rw = (er, rw1)" by force
  have s: "rw_sent rw1 = rw_sent rw" using stream_deliver_sent [OF "1.prems"(2), of bs] d by simp
  note loop = "1.prems"(1) [unfolded stream_loop_step [OF r d]]
  show ?case
  proof (cases "er = None \<and> e = None")
    case True
    then have "stream_loop gone rd' (tracker_write bs t) (stream_count bs rc) rw1 = (rc', rw', en)" using loop by simp
    moreover have "read stream_buffer rd = ((bs, None), rd')" "stream_deliver bs rw = (None, rw1)" using True r d by simp_all
    ultimately show ?thesis using "1.IH" s "1.prems"(2) by metis
  next
    case False
    then have "rw' = rw1" using loop by (auto split: option.splits if_splits)
    with s show ?thesis by simp
  qed
qed

text \<open>Whatever of an upstream's response reaches the local client passed the list of allowed headers.\<close>

lemma forward_outcome_headers:
  assumes "forward_outcome gone (Inr response) rc rw = (rc', rw', en)" "rw_sent rw = None"
    "\<forall>k\<in>header_keys (rw_header rw). forwardable (resp_header response) k"
  obtains status hd where "rw_sent rw' = Some (status, hd)" "\<forall>k\<in>header_keys hd. forwardable (resp_header response) k"
proof -
  have err: "\<exists>status hd. rw_sent (writeOpenAIError n m y rw) = Some (status, hd) \<and>
      (\<forall>k\<in>header_keys hd. forwardable (resp_header response) k)" for n m y
    using assms(2,3) by (simp add: writeOpenAIError_def rw_write_sent rw_write_header_def rw_set_def forwardable_def)
  have ok: "\<exists>status hd. rw_sent (snd (rw_write d (forward_head ct response rw))) = Some (status, hd) \<and>
      (\<forall>k\<in>header_keys hd. forwardable (resp_header response) k)" for d ct
    using forward_head_sent [OF assms(2,3), of ct]
    by (metis option.simps(5) rw_write_header_def rw_write_sent)
  have st: "\<exists>status hd. rw_sent rw' = Some (status, hd) \<and> (\<forall>k\<in>header_keys hd. forwardable (resp_header response) k)"
    if "forwardEventStream gone response rc1 rw = (rc', rw', en)" for rc1
  proof -
    obtain hd where "rw_sent (forward_head ''text/event-stream'' response rw) = Some (resp_status response, hd)"
      "\<forall>k\<in>header_keys hd. forwardable (resp_header response) k"
      using forward_head_sent [OF assms(2,3)] by blast
    then show ?thesis
      using stream_loop_sent [of gone "resp_body response" newSSEDoneTracker rc1] that
      by (simp add: forwardEventStream_def)
  qed
  consider (bad) "rw' = invalid_response rw" | (normal) d where "rw' = snd (rw_write d (forward_head ''application/json'' response rw))"
    | (stream) rc1 where "forwardEventStream gone response rc1 rw = (rc', rw', en)"
    using assms(1) unfolding forward_outcome_def forwardNormal_def
    by (simp add: Let_def split: if_splits sum.splits prod.splits) blast
  then have "\<exists>status hd. rw_sent rw' = Some (status, hd) \<and> (\<forall>k\<in>header_keys hd. forwardable (resp_header response) k)"
  proof cases
    case bad
    show ?thesis unfolding bad invalid_response_def by (rule err)
  next
    case (normal d)
    show ?thesis unfolding normal by (rule ok)
  next
    case stream
    then show ?thesis by (rule st)
  qed
  then show ?thesis using that by blast
qed

section \<open>When an exchange counts as encrypted\<close>

text \<open>
  The response was complete: a body-carrying status, and either a stream that contains the terminator or
  a body, within the bound, that is one JSON object.
\<close>

definition event_response :: "http_response \<Rightarrow> bool" where
  "event_response response = isEventStream (header_get (resp_header response) ''Content-Type'')"

definition complete_response :: "http_response \<Rightarrow> bool" where
  "complete_response response \<longleftrightarrow> \<not> body_forbidden (resp_status response) \<and>
     (if event_response response then stream_done (fst (drain (resp_body response)))
      else (\<exists>d. drain (resp_body response) = (d, None) \<and> int (length d) \<le> maxNormalResponse \<and> IsJSONObject (trim_space d)))"

text \<open>What the local client is sent of a complete response.\<close>

definition delivered_body :: "http_response \<Rightarrow> bytes" where
  "delivered_body response =
     (if event_response response then fst (drain (resp_body response)) else trim_space (fst (drain (resp_body response))))"

lemma read_normal: "ReadAllLimited rd maxNormalResponse = Inr d \<longleftrightarrow> drain rd = (d, None) \<and> int (length d) \<le> maxNormalResponse"
  by (rule ReadAllLimited_iff) (simp_all add: maxNormalResponse_def)

lemma forwardNormal_outcome:
  assumes "forwardNormal response rc rw = (rc', rw')" "rq_outcome rc \<noteq> OutcomeEncrypted"
  shows "rq_outcome rc' = OutcomeEncrypted \<longleftrightarrow> (\<exists>d. drain (resp_body response) = (d, None) \<and>
      int (length d) \<le> maxNormalResponse \<and> IsJSONObject (trim_space d))"
proof (cases "ReadAllLimited (resp_body response) maxNormalResponse")
  case (Inl e)
  then have "\<nexists>d. drain (resp_body response) = (d, None) \<and> int (length d) \<le> maxNormalResponse"
    using read_normal by (metis Inl_Inr_False)
  with Inl assms show ?thesis by (auto simp: forwardNormal_def)
next
  case (Inr d)
  then have d: "drain (resp_body response) = (d, None)" "int (length d) \<le> maxNormalResponse" by (simp_all add: read_normal)
  with Inr assms show ?thesis by (auto simp: forwardNormal_def Let_def split: if_splits)
qed

lemma forward_head_writer [simp]:
  "rw_faults (forward_head ct response rw) = rw_faults rw" "rw_body (forward_head ct response rw) = rw_body rw"
  by (simp_all add: forward_head_def rw_set_def)

lemma forward_outcome_encrypted:
  assumes "forward_outcome gone res rc rw = (rc', rw', en)" "rq_outcome rc = OutcomeFailed"
    "rq_outcome rc' = OutcomeEncrypted"
  obtains response where "res = Inr response" "complete_response response" "en = Returned"
proof -
  have ne: "OutcomeFailed \<noteq> OutcomeEncrypted" by (simp add: outcome_defs)
  obtain response where res: "res = Inr response" using assms ne by (auto simp: forward_outcome_def split: sum.splits)
  have nf: "\<not> body_forbidden (resp_status response)"
    using assms ne res by (auto simp: forward_outcome_def Let_def split: if_splits)
  show ?thesis
  proof (cases "event_response response")
    case True
    then have "stream_loop gone (resp_body response) newSSEDoneTracker (rc\<lparr>rq_status_code := resp_status response, rq_streaming := True\<rparr>)
        (forward_head ''text/event-stream'' response rw) = (rc', rw', en)"
      using assms(1) res nf by (simp add: forward_outcome_def event_response_def forwardEventStream_def)
    from stream_loop_safe [OF this] assms(2,3) ne have "en = Returned" "stream_done (fst (drain (resp_body response)))"
      by (simp_all add: tracker_recognises)
    with that res nf True show ?thesis by (simp add: complete_response_def)
  next
    case False
    then have n: "forwardNormal response (rc\<lparr>rq_status_code := resp_status response\<rparr>) rw = (rc', rw')" "en = Returned"
      using assms(1) res nf by (auto simp: forward_outcome_def event_response_def split: prod.splits)
    from forwardNormal_outcome [OF n(1)] assms(2,3) ne that res nf False n(2) show ?thesis
      by (simp add: complete_response_def)
  qed
qed

lemma forwardNormal_delivered:
  assumes "forwardNormal response rc rw = (rc', rw')" "rq_outcome rc \<noteq> OutcomeEncrypted" "rq_outcome rc' = OutcomeEncrypted"
    "writes_succeed 1 rw"
  shows "rw_body rw' = rw_body rw @ trim_space (fst (drain (resp_body response)))"
proof -
  obtain d where d: "ReadAllLimited (resp_body response) maxNormalResponse = Inr d"
    "rw' = snd (rw_write (trim_space d) (forward_head ''application/json'' response rw))"
    using assms(1-3) by (auto simp: forwardNormal_def Let_def split: sum.splits if_splits)
  have "writes_succeed 1 (forward_head ''application/json'' response rw)" using assms(4) by (simp add: writes_succeed_def)
  then have "fst (rw_write (trim_space d) (forward_head ''application/json'' response rw)) = None" by (simp add: rw_write_succeeds)
  then have "rw_body rw' = rw_body (forward_head ''application/json'' response rw) @ trim_space d"
    using rw_write_body [of "trim_space d" "forward_head ''application/json'' response rw"] d(2) by (metis prod.collapse)
  with d(1) show ?thesis by (simp add: read_normal)
qed

lemma forward_outcome_encrypted_iff:
  assumes "forward_outcome gone res rc rw = (rc', rw', en)" "rq_outcome rc = OutcomeFailed"
  shows "rq_outcome rc' = OutcomeEncrypted \<longleftrightarrow> (\<exists>response. res = Inr response \<and> complete_response response \<and>
     (event_response response \<longrightarrow> writes_succeed (length (stream_pieces (resp_body response))) rw))"
proof (cases "\<exists>response. res = Inr response \<and> \<not> body_forbidden (resp_status response)")
  case False
  then show ?thesis
    using assms by (auto simp: forward_outcome_def complete_response_def outcome_defs Let_def split: sum.splits)
next
  case True
  then obtain response where res: "res = Inr response" and nf: "\<not> body_forbidden (resp_status response)" by blast
  have ne: "OutcomeFailed \<noteq> OutcomeEncrypted" by (simp add: outcome_defs)
  show ?thesis
  proof (cases "event_response response")
    case True
    then have "stream_loop gone (resp_body response) newSSEDoneTracker (rc\<lparr>rq_status_code := resp_status response, rq_streaming := True\<rparr>)
        (forward_head ''text/event-stream'' response rw) = (rc', rw', en)"
      using assms(1) res nf by (simp add: forward_outcome_def event_response_def forwardEventStream_def)
    from stream_loop_encrypted [OF this] assms(2) ne res nf True show ?thesis
      by (simp add: complete_response_def tracker_recognises writes_succeed_def conj_commute)
  next
    case False
    then have n: "forwardNormal response (rc\<lparr>rq_status_code := resp_status response\<rparr>) rw = (rc', rw')"
      using assms(1) res nf by (auto simp: forward_outcome_def event_response_def split: prod.splits)
    from forwardNormal_outcome [OF n] assms(2) ne res nf False show ?thesis by (simp add: complete_response_def)
  qed
qed

lemma forward_outcome_delivered:
  assumes "forward_outcome gone (Inr response) rc rw = (rc', rw', en)" "rq_outcome rc = OutcomeFailed"
    "rq_outcome rc' = OutcomeEncrypted"
  shows "en = Returned" "event_response response \<or> writes_succeed 1 rw \<Longrightarrow> rw_body rw' = rw_body rw @ delivered_body response"
proof -
  have ne: "OutcomeFailed \<noteq> OutcomeEncrypted" by (simp add: outcome_defs)
  show "en = Returned" by (rule forward_outcome_encrypted [OF assms]) simp
  assume w: "event_response response \<or> writes_succeed 1 rw"
  have nf: "\<not> body_forbidden (resp_status response)"
    using forward_outcome_encrypted [OF assms] by (auto simp: complete_response_def)
  show "rw_body rw' = rw_body rw @ delivered_body response"
  proof (cases "event_response response")
    case True
    then have "stream_loop gone (resp_body response) newSSEDoneTracker (rc\<lparr>rq_status_code := resp_status response, rq_streaming := True\<rparr>)
        (forward_head ''text/event-stream'' response rw) = (rc', rw', en)"
      using assms(1) nf by (simp add: forward_outcome_def event_response_def forwardEventStream_def)
    from stream_loop_safe [OF this] assms(2,3) ne True show ?thesis by (simp add: delivered_body_def)
  next
    case False
    then have n: "forwardNormal response (rc\<lparr>rq_status_code := resp_status response\<rparr>) rw = (rc', rw')"
      using assms(1) nf by (auto simp: forward_outcome_def event_response_def split: prod.splits)
    from forwardNormal_delivered [OF n] assms(2,3) ne False w show ?thesis by (simp add: delivered_body_def)
  qed
qed

section \<open>The ledger entry of an exchange\<close>

text \<open>What of the ledger belongs to requests.\<close>

definition request_log :: "ledger option \<Rightarrow> (request list \<times> 64 word \<times> 64 word) option" where
  "request_log lo = map_option (\<lambda>l. (l_requests l, l_encrypted_total l, l_failed_total l)) lo"

definition logged :: "request \<Rightarrow> (request list \<times> 64 word \<times> 64 word) option \<Rightarrow> (request list \<times> 64 word \<times> 64 word) option" where
  "logged rc = map_option (\<lambda>(rs, enc, fl). (appendCapped rs rc maxRequests,
     enc + (if rq_outcome rc = OutcomeEncrypted then 1 else 0), fl + (if rq_outcome rc = OutcomeEncrypted then 0 else 1)))"

lemma request_log_RecordRequest: "request_log (RecordRequest rc lo) = logged rc (request_log lo)"
  by (auto simp: request_log_def logged_def RecordRequest_def markDirty_def Let_def split: option.splits)

text \<open>
  The interface of the handler's environment: the ledger is a component of the world, and neither the
  clock nor the random source nor the sender touches the part of it that belongs to requests.
\<close>


definition same_request :: "request \<Rightarrow> request \<Rightarrow> bool" where
  "same_request a b \<longleftrightarrow> rq_id a = rq_id b \<and> rq_started_at a = rq_started_at b \<and>
     rq_attestation_id a = rq_attestation_id b \<and> rq_request_bytes a = rq_request_bytes b"

lemma stream_loop_frame: "stream_loop gone rd t rc rw = (rc', rw', en) \<Longrightarrow> same_request rc' rc"
proof (induction rd t rc rw rule: stream_induct)
  case (1 rd t rc rw)
  obtain bs e rd' where r: "read stream_buffer rd = ((bs, e), rd')" by (metis surj_pair)
  obtain er rw1 where d: "stream_deliver bs rw = (er, rw1)" by force
  have c: "same_request (stream_count bs rc) rc" by (simp add: stream_count_def same_request_def)
  note loop = "1.prems" [unfolded stream_loop_step [OF r d]]
  show ?case
  proof (cases "er = None \<and> e = None")
    case True
    then have "stream_loop gone rd' (tracker_write bs t) (stream_count bs rc) rw1 = (rc', rw', en)" using loop by simp
    moreover have "read stream_buffer rd = ((bs, None), rd')" "stream_deliver bs rw = (None, rw1)" using True r d by simp_all
    ultimately have "same_request rc' (stream_count bs rc)" by (intro "1.IH")
    with c show ?thesis by (simp add: same_request_def)
  next
    case False
    then show ?thesis using loop c by (auto simp: same_request_def split: option.splits if_splits)
  qed
qed

lemma forward_outcome_frame: "forward_outcome gone res rc rw = (rc', rw', en) \<Longrightarrow> same_request rc' rc"
  by (auto simp: forward_outcome_def forwardNormal_def forwardEventStream_def Let_def same_request_def
      split: sum.splits if_splits prod.splits dest!: stream_loop_frame)

text \<open>
  The interface of the handler's environment: the ledger is a component of the world, and neither the
  clock nor the random source nor the catalog nor the sender touches the part of it that belongs to
  requests.
\<close>

text \<open>Exactly the chat requests that reach the sender leave an entry, and each leaves one.\<close>

definition reaches_sender :: "'w handler \<Rightarrow> local_request \<Rightarrow> 'w \<Rightarrow> bool" where
  "reaches_sender h r w \<longleftrightarrow> lr_path r = LocalChatEndpoint \<and>
     (\<exists>body ident w1 issued w2 env. check_chat_request r = Inr body \<and> h_new_id h w = (Inr ident, w1) \<and>
        h_now h w1 = (issued, w2) \<and> enc_envelope ident issued body = Inr env)"

locale handler_world =
  fixes h :: "'w handler"
  assumes set_ledger: "h_ledger h (h_set_ledger h l w) = l"
    and now_frame: "h_now h w = (t, w') \<Longrightarrow> h_ledger h w' = h_ledger h w"
    and id_frame: "h_new_id h w = (ident, w') \<Longrightarrow> h_ledger h w' = h_ledger h w"
    and catalog_frame: "h_catalog h = Some f \<Longrightarrow> f w = (c, w') \<Longrightarrow> h_ledger h w' = h_ledger h w"
    and sender_frame: "h_sender h a acc ua body w = (r, w') \<Longrightarrow> request_log (h_ledger h w') = request_log (h_ledger h w)"
begin

lemma exchange_logged:
  assumes "exchange_and_record h r requestID n envelope rw w = (rw', en, w')"
  obtains rc res ident w1 w2 where
    "h_sender h (header_get (lr_header r) ''Authorization'') (header_get (lr_header r) ''Accept'')
       (header_get (lr_header r) ''User-Agent'') envelope w1 = ((res, ident), w2)"
    "request_log (h_ledger h w') = logged rc (request_log (h_ledger h w))"
    "rq_id rc = requestID" "rq_request_bytes rc = int n" "rq_attestation_id rc = ident"
    "rq_outcome rc = OutcomeEncrypted \<longrightarrow> en = Returned \<and> (\<exists>response. res = Inr response \<and> complete_response response)"
proof -
  obtain started w1 where t1: "h_now h w = (started, w1)" by force
  obtain res ident w2 where s: "h_sender h (header_get (lr_header r) ''Authorization'') (header_get (lr_header r) ''Accept'')
       (header_get (lr_header r) ''User-Agent'') envelope w1 = ((res, ident), w2)" by (metis surj_pair)
  let ?rc0 = "(initial_record requestID started n)\<lparr>rq_attestation_id := ident\<rparr>"
  obtain rc rw1 en1 where f: "forward_outcome (lr_gone r) res ?rc0 rw = (rc, rw1, en1)" by (metis surj_pair)
  obtain fin w3 where t2: "h_now h w2 = (fin, w3)" by force
  define rc' where "rc' = rc\<lparr>rq_duration_ms := quot (time_sub fin started) millisecond\<rparr>"
  have w': "w' = h_set_ledger h (RecordRequest rc' (h_ledger h w3)) w3" and en: "en1 = en"
    using assms t1 s f t2 by (simp_all add: exchange_and_record_def rc'_def)
  have "request_log (h_ledger h w3) = request_log (h_ledger h w)"
    using now_frame [OF t1] sender_frame [OF s] now_frame [OF t2] by simp
  then have lg: "request_log (h_ledger h w') = logged rc' (request_log (h_ledger h w))"
    by (simp add: w' set_ledger request_log_RecordRequest)
  have same: "rq_id rc' = requestID" "rq_request_bytes rc' = int n" "rq_attestation_id rc' = ident"
    using forward_outcome_frame [OF f] by (simp_all add: same_request_def initial_record_def rc'_def)
  have "en = Returned \<and> (\<exists>response. res = Inr response \<and> complete_response response)"
    if "rq_outcome rc' = OutcomeEncrypted"
    by (rule forward_outcome_encrypted [OF f]) (use that en in \<open>simp_all add: rc'_def initial_record_def\<close>)
  with s lg same that show ?thesis by blast
qed

lemma serveChat_unreached:
  assumes "serveChat h r rw w = (rw', en, w')" "\<not> reaches_sender h r w" "lr_path r = LocalChatEndpoint"
  shows "h_ledger h w' = h_ledger h w" "en = Returned"
proof -
  have "h_ledger h w' = h_ledger h w \<and> en = Returned"
  proof (cases "check_chat_request r")
    case (Inl e)
    then show ?thesis using assms(1) by (cases e) (simp add: serveChat_def)
  next
    case (Inr body)
    obtain i w1 where i: "h_new_id h w = (i, w1)" by force
    obtain t w2 where t: "h_now h w1 = (t, w2)" by force
    show ?thesis
    proof (cases i)
      case (Inl e)
      then show ?thesis using assms(1) Inr i id_frame [OF i] by (simp add: serveChat_def)
    next
      case (Inr ident)
      then obtain e where "enc_envelope ident t body = Inl e"
        using assms(2,3) \<open>check_chat_request r = Inr body\<close> i t by (cases "enc_envelope ident t body") (auto simp: reaches_sender_def)
      then show ?thesis
        using assms(1) \<open>check_chat_request r = Inr body\<close> Inr i t id_frame [OF i] now_frame [OF t]
        by (simp add: serveChat_def)
    qed
  qed
  then show "h_ledger h w' = h_ledger h w" "en = Returned" by blast+
qed

lemma other_routes:
  assumes "ServeHTTP h r rw w = (rw', en, w')" "lr_path r \<noteq> LocalChatEndpoint"
  shows "h_ledger h w' = h_ledger h w" "en = Returned"
proof -
  have api: "serveVerificationAPI h r rw0 w = (rw1, w1) \<Longrightarrow> h_ledger h w1 = h_ledger h w" for rw0 rw1 w1
    by (auto simp: serveVerificationAPI_def Let_def split: option.splits prod.splits sum.splits dest: now_frame)
  have models: "serveModels h r rw0 w = (rw1, w1) \<Longrightarrow> h_ledger h w1 = h_ledger h w" for rw0 rw1 w1
    by (auto simp: serveModels_def split: option.splits prod.splits sum.splits if_splits dest: catalog_frame)
  show "h_ledger h w' = h_ledger h w" "en = Returned"
    using assms api models by (auto simp: ServeHTTP_def Let_def split: if_splits prod.splits)
qed

lemma serve_unreached:
  assumes "ServeHTTP h r rw w = (rw', en, w')" "\<not> reaches_sender h r w"
  shows "h_ledger h w' = h_ledger h w" "en = Returned"
proof -
  have "h_ledger h w' = h_ledger h w \<and> en = Returned"
  proof (cases "lr_path r = LocalChatEndpoint")
    case True
    then have "serveChat h r (rw_set ''Cache-Control'' ''no-store'' rw) w = (rw', en, w')"
      using assms(1) by (simp add: ServeHTTP_def local_endpoints)
    with serveChat_unreached [OF this assms(2) True] show ?thesis by simp
  next
    case False
    with other_routes [OF assms(1)] show ?thesis by simp
  qed
  then show "h_ledger h w' = h_ledger h w" "en = Returned" by blast+
qed

lemma serve_reached:
  assumes "ServeHTTP h r rw w = (rw', en, w')" "reaches_sender h r w"
  obtains rc res ident env w1 w2 body where
    "check_chat_request r = Inr body"
    "h_sender h (header_get (lr_header r) ''Authorization'') (header_get (lr_header r) ''Accept'')
       (header_get (lr_header r) ''User-Agent'') env w1 = ((res, ident), w2)"
    "request_log (h_ledger h w') = logged rc (request_log (h_ledger h w))"
    "rq_request_bytes rc = int (length body)" "rq_attestation_id rc = ident"
    "rq_outcome rc = OutcomeEncrypted \<longrightarrow> en = Returned \<and> (\<exists>response. res = Inr response \<and> complete_response response)"
proof -
  obtain body ident w1 issued w2 env where e: "lr_path r = LocalChatEndpoint" "check_chat_request r = Inr body"
    "h_new_id h w = (Inr ident, w1)" "h_now h w1 = (issued, w2)" "enc_envelope ident issued body = Inr env"
    using assms(2) by (auto simp: reaches_sender_def)
  then have "exchange_and_record h r ident (length body) env (rw_set ''Cache-Control'' ''no-store'' rw) w2 = (rw', en, w')"
    using assms(1) by (simp add: ServeHTTP_def serveChat_def local_endpoints)
  from exchange_logged [OF this] id_frame [OF e(3)] now_frame [OF e(4)] e(2) that show ?thesis by metis
qed

end

section \<open>The content of a request\<close>

lemma enc_envelope_object: "IsJSONObject b \<Longrightarrow> \<exists>e. enc_envelope ident issued b = Inr e \<and> e \<noteq> []"
  by (auto simp: enc_envelope_def json_compact_def IsJSONObject_def enc_object_def)

text \<open>
  If the sender answers all envelopes alike, two bodies of the same size are handled alike: what a request says
  is not looked at, apart from its being one JSON object of a permitted size.
\<close>

lemma serveChat_content:
  assumes "check_chat_request r = Inr b1" "check_chat_request (r\<lparr>lr_body := rd\<rparr>) = Inr b2" "length b1 = length b2"
    "\<And>a acc ua e1 e2 w. e1 \<noteq> [] \<Longrightarrow> e2 \<noteq> [] \<Longrightarrow> h_sender h a acc ua e1 w = h_sender h a acc ua e2 w"
  shows "serveChat h r rw w = serveChat h (r\<lparr>lr_body := rd\<rparr>) rw w"
proof -
  have obj: "IsJSONObject b1" "IsJSONObject b2"
    using assms(1,2) by (auto simp: check_chat_request_def Let_def split: if_splits sum.splits)
  have ex: "exchange_and_record h r ident n e1 rw w2 = exchange_and_record h (r\<lparr>lr_body := rd\<rparr>) ident n e2 rw w2"
    if "e1 \<noteq> []" "e2 \<noteq> []" for ident n e1 e2 w2
    unfolding exchange_and_record_def
    by (subst assms(4) [OF that, of "header_get (lr_header r) ''Authorization''"]) simp
  show ?thesis
  proof (cases "h_new_id h w")
    case (Pair i w1)
    show ?thesis
    proof (cases i)
      case (Inr ident)
      obtain issued w2 where t: "h_now h w1 = (issued, w2)" by force
      obtain e1 e2 where "enc_envelope ident issued b1 = Inr e1" "e1 \<noteq> []" "enc_envelope ident issued b2 = Inr e2" "e2 \<noteq> []"
        using enc_envelope_object obj by metis
      then show ?thesis using assms(1-3) Pair Inr t ex [of e1 e2 ident "length b2" w2] by (simp add: serveChat_def)
    qed (use Pair assms(1,2) in \<open>simp add: serveChat_def\<close>)
  qed
qed

lemma ServeHTTP_content:
  assumes "check_chat_request r = Inr b1" "check_chat_request (r\<lparr>lr_body := rd\<rparr>) = Inr b2" "length b1 = length b2"
    "\<And>a acc ua e1 e2 w. e1 \<noteq> [] \<Longrightarrow> e2 \<noteq> [] \<Longrightarrow> h_sender h a acc ua e1 w = h_sender h a acc ua e2 w"
  shows "ServeHTTP h r rw w = ServeHTTP h (r\<lparr>lr_body := rd\<rparr>) rw w"
proof -
  have f: "lr_method (r\<lparr>lr_body := rd\<rparr>) = lr_method r" "lr_path (r\<lparr>lr_body := rd\<rparr>) = lr_path r"
    "lr_raw_query (r\<lparr>lr_body := rd\<rparr>) = lr_raw_query r" by simp_all
  have c: "serveChat h (r\<lparr>lr_body := rd\<rparr>) rw w = serveChat h r rw w" for rw w
    using serveChat_content [OF assms(1-3), of h rw w] assms(4) by metis
  show ?thesis
    unfolding ServeHTTP_def serveHealth_def serveVerificationUI_def serveVerificationAPI_def
      serveVerificationDocument_def serveModels_def allowVerification_def f c by (rule refl)
qed

section \<open>Request identifiers\<close>

unbundle bit_operations_syntax

lemma hex_encode_nth: "i < length s \<Longrightarrow> hex_encode s ! (2 * i) = hex_char (ord_of (s ! i) div 16)"
proof (induction s arbitrary: i)
  case (Cons c s)
  then show ?case by (cases i) simp_all
qed simp

lemma version_byte: "unat (((x :: 8 word) AND 0x0f) OR 0x40) div 16 = 4"
proof -
  have "drop_bit 4 ((x AND 0x0f) OR 0x40) = (4 :: 8 word)"
    by (simp add: drop_bit_or drop_bit_and)
  then have "unat (drop_bit 4 ((x AND 0x0f) OR 0x40)) = unat (4 :: 8 word)" by (rule arg_cong)
  then show ?thesis by (simp add: drop_bit_eq_div unat_div)
qed

lemma variant_byte: "unat (((x :: 8 word) AND 0x3f) OR 0x80) div 64 = 2"
proof -
  have "drop_bit 6 ((x AND 0x3f) OR 0x80) = (2 :: 8 word)"
    by (simp add: drop_bit_or drop_bit_and)
  then have "unat (drop_bit 6 ((x AND 0x3f) OR 0x80)) = unat (2 :: 8 word)" by (rule arg_cong)
  then show ?thesis by (simp add: drop_bit_eq_div unat_div)
qed

section \<open>Properties\<close>

text \<open>A request identifier is a version 4 UUID: 36 characters with dashes at 8, 13, 18 and 23, version
  nibble 4 and variant 8, 9, a or b.\<close>

theorem request_id_format:
  assumes "random 16 w = (Inr v, w')" "length v = 16"
  shows "case randomUUID random w of (r, _) \<Rightarrow> (case r of Inl _ \<Rightarrow> False | Inr s \<Rightarrow> length s = 36 \<and>
    map ((!) s) [8, 13, 18, 23] = ''----'' \<and> s ! 14 = CHR ''4'' \<and> s ! 19 \<in> set ''89ab'')"
proof -
  define bt :: "char \<Rightarrow> 8 word \<Rightarrow> 8 word \<Rightarrow> char" where "bt = (\<lambda>n m k. char_of (unat (((of_char n :: 8 word) AND m) OR k)))"
  define v1 where "v1 = v[6 := bt (v ! 6) 0x0f 0x40]"
  define v2 where "v2 = v1[8 := bt (v1 ! 8) 0x3f 0x80]"
  define raw where "raw = hex_encode v2"
  have len: "length v2 = 16" "length raw = 32" by (simp_all add: v2_def v1_def raw_def assms(2))
  have small: "unat (y :: 8 word) < 256" for y using unsigned_less [of y] by simp
  have digits: "hex_char 4 = CHR ''4''" "map hex_char [8, 9, 10, 11] = ''89ab''" by code_simp+
  have "ord_of (v2 ! 6) div 16 = 4"
    using version_byte [of "of_char (v ! 6)"] assms(2) by (simp add: v2_def v1_def bt_def small)
  then have "raw ! 12 = CHR ''4''"
    using hex_encode_nth [of 6 v2] len digits by (simp add: raw_def)
  moreover have "ord_of (v2 ! 8) div 16 \<in> {8, 9, 10, 11}"
  proof -
    have "ord_of (v2 ! 8) div 64 = 2"
      using variant_byte [of "of_char (v1 ! 8)"] assms(2) by (simp add: v2_def v1_def bt_def small)
    then have "ord_of (v2 ! 8) div 16 div 4 = 2" by (simp add: div_mult2_eq)
    then show ?thesis by auto
  qed
  then have "raw ! 16 \<in> set ''89ab''"
    using hex_encode_nth [of 8 v2] len digits(2) by (auto simp: raw_def)
  moreover have "randomUUID random w = (Inr (take 8 raw @ ''-'' @ take 4 (drop 8 raw) @ ''-'' @ take 4 (drop 12 raw) @ ''-'' @
      take 4 (drop 16 raw) @ ''-'' @ take 12 (drop 20 raw)), w')"
    by (simp only: randomUUID_def Let_def assms(1) prod.case sum.case raw_def v2_def v1_def bt_def)
  ultimately show ?thesis using len(2) by (simp add: nth_append min_def)
qed

theorem request_id_format_witness:
  "case randomUUID (\<lambda>k w. (Inr (replicate k CHR 0xFF), w)) () of (r, _) \<Rightarrow> (case r of Inl _ \<Rightarrow> False | Inr s \<Rightarrow> length s = 36 \<and>
    map ((!) s) [8, 13, 18, 23] = ''----'' \<and> s ! 14 = CHR ''4'' \<and> s ! 19 \<in> set ''89ab'')"
  by (rule request_id_format [of _ _ "replicate 16 CHR 0xFF" "()"]) simp_all

text \<open>A writer, a reply, a handler and a request, for the witnesses.\<close>

definition plain_writer :: response_writer where
  "plain_writer = \<lparr>rw_header = [], rw_sent = None, rw_body = [], rw_flushed = 0, rw_can_flush = True, rw_faults = []\<rparr>"

definition plain_reply :: "bytes \<Rightarrow> http_response" where
  "plain_reply body = \<lparr>resp_status = 200, resp_header = [(''Content-Type'', [''application/json'']), (''Set-Cookie'', [''x''])],
     resp_body = [(body, None)]\<rparr>"

lemma plain_reply_complete: "complete_response (plain_reply ''{}'')"
proof -
  have "\<not> event_response (plain_reply ''{}'')" "IsJSONObject (trim_space ''{}'')"
    unfolding plain_reply_def by code_simp+
  then show ?thesis by (simp add: complete_response_def plain_reply_def body_forbidden_def maxNormalResponse_def)
qed

text \<open>C28: A JSON reply is recorded as encrypted exactly when it is complete: it carries a status that allows a body
  and one whole JSON object within the bound. Whether the local client then took it does not matter. An event stream is recorded as
  encrypted exactly when it carries such a status and its terminating event and the local client took every piece of it. A
  recorded success has delivered the whole reply, except that of a JSON reply whose one local write failed only a part
  may have arrived.\<close>

theorem recorded_encrypted_iff_complete:
  assumes "rq_outcome rc = OutcomeFailed" "forward_outcome gone res rc rw = (rc', rw', en)"
  shows "(rq_outcome rc' = OutcomeEncrypted \<longleftrightarrow> (\<exists>response. res = Inr response \<and> complete_response response \<and>
     (event_response response \<longrightarrow> writes_succeed (length (stream_pieces (resp_body response))) rw))) \<and>
    (rq_outcome rc' = OutcomeEncrypted \<longrightarrow> en = Returned \<and> (\<forall>response. res = Inr response \<longrightarrow>
       event_response response \<or> writes_succeed 1 rw \<longrightarrow> rw_body rw' = rw_body rw @ delivered_body response))"
  using forward_outcome_encrypted_iff [OF assms(2,1)] forward_outcome_delivered [of gone _ rc rw rc' rw' en] assms
    forward_outcome_encrypted [OF assms(2,1)]
  by metis

text \<open>A reply whose local write fails after one byte.\<close>

theorem recorded_encrypted_iff_complete_witness:
  "\<exists>rc' rw' en. forward_outcome False (Inr (plain_reply ''{}'')) (zero_request\<lparr>rq_outcome := OutcomeFailed\<rparr>)
       (plain_writer\<lparr>rw_faults := [Some (1, Msg ''broken pipe'')]\<rparr>) = (rc', rw', en) \<and>
     rq_outcome rc' = OutcomeEncrypted \<and> en = Returned"
proof -
  obtain rc' rw' en where f: "forward_outcome False (Inr (plain_reply ''{}'')) (zero_request\<lparr>rq_outcome := OutcomeFailed\<rparr>)
      (plain_writer\<lparr>rw_faults := [Some (1, Msg ''broken pipe'')]\<rparr>) = (rc', rw', en)" by (metis prod_cases3)
  have "\<not> event_response (plain_reply ''{}'')" unfolding plain_reply_def by code_simp
  then show ?thesis
    using recorded_encrypted_iff_complete [OF _ f] plain_reply_complete f by auto
qed

text \<open>C30: Of a gateway reply only these headers reach the local client: Cache-Control and Content-Type, which the
  proxy sets itself, and those whose lower-case name is retry-after, request-id, x-request-id, openai-request-id or
  begins with x-ratelimit-, unless the gateway's Connection header names them.\<close>

theorem only_whitelisted_headers:
  assumes "forward_outcome gone (Inr response) rc rw = (rc', rw', en)" "fresh_writer rw"
  shows "\<exists>status hdr. rw_sent rw' = Some (status, hdr) \<and> (\<forall>k\<in>header_keys hdr.
    k \<in> {''Cache-Control'', ''Content-Type''} \<or>
    (to_lower k \<in> {''retry-after'', ''request-id'', ''x-request-id'', ''openai-request-id''} \<or>
     (\<exists>rest. to_lower k = ''x-ratelimit-'' @ rest)) \<and> k \<notin> set (connection_headers (resp_header response)))"
proof -
  obtain status hdr where "rw_sent rw' = Some (status, hdr)" "\<forall>k\<in>header_keys hdr. forwardable (resp_header response) k"
    by (rule forward_outcome_headers [OF assms(1)]) (use assms(2) in \<open>simp_all add: fresh_writer_def header_keys_def\<close>)
  then show ?thesis by (fastforce simp: forwardable_def copies_header_def allowedResponseHeader_def Let_def has_prefix_iff)
qed

theorem only_whitelisted_headers_witness:
  "\<exists>rc' rw' en status hdr. forward_outcome False (Inr (plain_reply ''{}'')) zero_request plain_writer = (rc', rw', en) \<and>
     rw_sent rw' = Some (status, hdr) \<and> ''Set-Cookie'' \<notin> header_keys hdr"
proof -
  obtain rc' rw' en where f: "forward_outcome False (Inr (plain_reply ''{}'')) zero_request plain_writer = (rc', rw', en)"
    by (metis prod_cases3)
  have n: "to_lower ''Set-Cookie'' \<noteq> ''x-ratelimit-'' @ rest"
    "to_lower ''Set-Cookie'' \<notin> {''retry-after'', ''request-id'', ''x-request-id'', ''openai-request-id''}" for rest
    by (simp_all add: to_lower_def lower_char_def)
  have "fresh_writer plain_writer" by (simp add: fresh_writer_def plain_writer_def)
  from only_whitelisted_headers [OF f this] n f show ?thesis by fastforce
qed

definition chat_request :: "bytes \<Rightarrow> local_request" where
  "chat_request body = \<lparr>lr_method = ''POST'', lr_path = LocalChatEndpoint, lr_raw_query = [],
     lr_header = [(''Content-Type'', [''application/json''])], lr_body = [(body, None)], lr_gone = False\<rparr>"

lemma chat_request_checked:
  assumes "trim_space body = body" "IsJSONObject body" "length body \<le> 1000"
  shows "check_chat_request (chat_request body) = Inr body"
proof -
  have "parse_media_type (header_get [(''Content-Type'', [''application/json''])] ''Content-Type'') = Some ''application/json''"
    by code_simp
  moreover have "ReadAllLimited [(body, None)] maxRequestBytes = Inr body"
    using assms(3) by (subst ReadAllLimited_iff) (simp_all add: maxRequestBytes_def)
  ultimately show ?thesis using assms(1,2) by (simp add: check_chat_request_def chat_request_def)
qed

end
