(* ===== verification/Catalog.thy ===== *)
theory Catalog
  imports JsonUtil GoHttp GoText
begin

text \<open>
  The public model catalog (internal/catalog/catalog.go): one request without credentials, whose body
  passes only when it is one complete JSON object. The body is returned without surrounding white space.
\<close>

definition ModelsEndpoint :: string where "ModelsEndpoint = ''/v1/models''"
definition maxCatalogBytes :: int where "maxCatalogBytes = 4194304"

record catalog_client =
  cat_endpoint :: string
  cat_wire :: http_client

definition validate_catalog_endpoint :: "string \<Rightarrow> unit result" where
  "validate_catalog_endpoint raw = (case ParseRequestURI raw of
     Inl e \<Rightarrow> Inl (Wrapf ''invalid model catalog endpoint: '' e [])
   | Inr u \<Rightarrow>
      (if url_scheme u \<noteq> ''https'' \<or> url_host u = [] \<or> url_opaque u \<noteq> [] \<or> url_path u \<noteq> ModelsEndpoint \<or>
          url_raw_path u \<noteq> [] \<or> url_user u \<or> url_raw_query u \<noteq> [] \<or> url_force_query u \<or> url_fragment u \<noteq> []
       then Inl (Msg (''model catalog endpoint must be an exact HTTPS URL ending in '' @ ModelsEndpoint))
       else Inr ()))"

definition NewCatalogClient :: "string \<Rightarrow> http_client option \<Rightarrow> catalog_client result" where
  "NewCatalogClient endpoint wire = (case validate_catalog_endpoint endpoint of
     Inl e \<Rightarrow> Inl e
   | Inr _ \<Rightarrow> (case wire of
       None \<Rightarrow> Inl (Msg ''wire HTTP client is required'')
     | Some c \<Rightarrow>
        (if hc_check_redirect c = None then Inl (Msg ''wire HTTP client must reject redirects'')
         else Inr \<lparr>cat_endpoint = endpoint, cat_wire = c\<rparr>)))"

definition catalog_request :: "string \<Rightarrow> http_request" where
  "catalog_request endpoint = \<lparr>req_method = ''GET'', req_url = endpoint,
     req_header = header_set [] ''Accept'' ''application/json'', req_body = []\<rparr>"

definition read_catalog :: "http_response \<Rightarrow> (int \<times> bytes) result" where
  "read_catalog response = (case ReadAllLimited (resp_body response) maxCatalogBytes of
     Inl e \<Rightarrow> Inl (Wrapf ''read model catalog: '' e [])
   | Inr body0 \<Rightarrow> (let body = trim_space body0 in
       if \<not> IsJSONObject body then Inl (Msg ''model catalog response was not one complete JSON object'')
       else Inr (resp_status response, body)))"

text \<open>The request of a validated endpoint cannot fail to build. The status beside an error is unused.\<close>

definition Catalog_Fetch :: "'w transport \<Rightarrow> catalog_client \<Rightarrow> 'w \<Rightarrow> (int \<times> bytes) result \<times> 'w" where
  "Catalog_Fetch tr c w = (case ParseRequestURI (cat_endpoint c) of
     Inl e \<Rightarrow> (Inl (Wrapf ''build model catalog request: '' e []), w)
   | Inr _ \<Rightarrow> (case http_do tr (cat_wire c) (catalog_request (cat_endpoint c)) w of
       (Inl e, w') \<Rightarrow> (Inl (Wrapf ''fetch model catalog: '' e []), w')
     | (Inr response, w') \<Rightarrow> (read_catalog response, w')))"

lemma read_catalog_iff:
  "read_catalog response = Inr (status, body) \<longleftrightarrow> status = resp_status response \<and>
     (\<exists>d. drain (resp_body response) = (d, None) \<and> int (length d) \<le> maxCatalogBytes \<and> body = trim_space d \<and> IsJSONObject body)"
proof -
  have rd: "ReadAllLimited (resp_body response) maxCatalogBytes = Inr d \<longleftrightarrow>
      drain (resp_body response) = (d, None) \<and> int (length d) \<le> maxCatalogBytes" for d
    by (rule ReadAllLimited_iff) (simp_all add: maxCatalogBytes_def)
  have "read_catalog response = Inr (status, body) \<longleftrightarrow> status = resp_status response \<and>
     (\<exists>d. ReadAllLimited (resp_body response) maxCatalogBytes = Inr d \<and> body = trim_space d \<and> IsJSONObject body)"
    by (auto simp: read_catalog_def Let_def split: sum.splits)
  then show ?thesis unfolding rd by blast
qed

section \<open>Properties\<close>

text \<open>C38: The catalog request succeeds exactly when the gateway answered and the whole body, at most 4 MiB and
  without surrounding white space, is one complete JSON object; the status is passed on unchanged.\<close>

theorem catalog_fetch_iff:
  "Catalog_Fetch tr c w = (Inr (status, body), w') \<longleftrightarrow>
     is_ok (ParseRequestURI (cat_endpoint c)) \<and>
     (\<exists>response d. http_do tr (cat_wire c) (catalog_request (cat_endpoint c)) w = (Inr response, w') \<and>
        status = resp_status response \<and> drain (resp_body response) = (d, None) \<and> int (length d) \<le> maxCatalogBytes \<and>
        body = trim_space d \<and> IsJSONObject body)"
  by (auto simp: Catalog_Fetch_def read_catalog_iff is_ok_def split: sum.splits prod.splits)

end
