(* ===== verification/PublicTypes.thy ===== *)
theory PublicTypes
  imports Ledger
begin

text \<open>
  The public verification types (verification.go) and the conversion of a ledger snapshot into them.
  They have the fields of the ledger's records except the signed document and the manifest, so a copy
  that leaves the package carries neither. A nil list of checks and an empty one are both \<open>[]\<close>.
\<close>

section \<open>Data\<close>

record public_check =
  pc_name :: string
  pc_passed :: bool
  pc_detail :: string

record public_attestation =
  pa_id :: string
  pa_outcome :: string
  pa_verified_at :: time
  pa_failure :: string
  pa_attested_at :: time
  pa_expires_at :: time
  pa_module_id :: string
  pa_hpke_public_key :: string
  pa_nonce :: string
  pa_pcr0 :: string
  pa_pcr1 :: string
  pa_pcr2 :: string
  pa_source_revision :: string
  pa_workload :: string
  pa_profile :: string
  pa_root_fingerprint :: string
  pa_checks :: "public_check list"
  pa_document_bytes :: int

record public_request =
  pr_id :: string
  pr_started_at :: time
  pr_duration_ms :: int
  pr_attestation_id :: string
  pr_outcome :: string
  pr_failure :: string
  pr_status_code :: int
  pr_request_bytes :: int
  pr_response_bytes :: int
  pr_streaming :: bool

record public_snapshot =
  pn_status :: string
  pn_generated_at :: time
  pn_verified_total :: "64 word"
  pn_rejected_total :: "64 word"
  pn_encrypted_total :: "64 word"
  pn_failed_total :: "64 word"
  pn_persistent :: bool
  pn_current :: "public_attestation option"
  pn_attestations :: "public_attestation list"
  pn_requests :: "public_request list"

record evidence_export =
  ee_attestation_id :: string
  ee_document :: bytes
  ee_manifest :: bytes

section \<open>Conversion\<close>

definition public_check_of :: "check \<Rightarrow> public_check" where
  "public_check_of c = \<lparr>pc_name = ck_name c, pc_passed = ck_passed c, pc_detail = ck_detail c\<rparr>"

definition attestationFromLedger :: "attestation \<Rightarrow> public_attestation" where
  "attestationFromLedger a = \<lparr>pa_id = at_id a, pa_outcome = at_outcome a, pa_verified_at = at_verified_at a,
     pa_failure = at_failure a, pa_attested_at = at_attested_at a, pa_expires_at = at_expires_at a,
     pa_module_id = at_module_id a, pa_hpke_public_key = at_hpke_public_key a, pa_nonce = at_nonce a,
     pa_pcr0 = at_pcr0 a, pa_pcr1 = at_pcr1 a, pa_pcr2 = at_pcr2 a, pa_source_revision = at_source_revision a,
     pa_workload = at_workload a, pa_profile = at_profile a, pa_root_fingerprint = at_root_fingerprint a,
     pa_checks = map public_check_of (at_checks a), pa_document_bytes = at_document_bytes a\<rparr>"

definition requestFromLedger :: "request \<Rightarrow> public_request" where
  "requestFromLedger r = \<lparr>pr_id = rq_id r, pr_started_at = rq_started_at r, pr_duration_ms = rq_duration_ms r,
     pr_attestation_id = rq_attestation_id r, pr_outcome = rq_outcome r, pr_failure = rq_failure r,
     pr_status_code = rq_status_code r, pr_request_bytes = rq_request_bytes r, pr_response_bytes = rq_response_bytes r,
     pr_streaming = rq_streaming r\<rparr>"

definition snapshotFromLedger :: "snapshot \<Rightarrow> public_snapshot" where
  "snapshotFromLedger s = \<lparr>pn_status = sn_status s, pn_generated_at = sn_generated_at s,
     pn_verified_total = sn_verified_total s, pn_rejected_total = sn_rejected_total s,
     pn_encrypted_total = sn_encrypted_total s, pn_failed_total = sn_failed_total s, pn_persistent = sn_persistent s,
     pn_current = map_option attestationFromLedger (sn_current s),
     pn_attestations = map attestationFromLedger (sn_attestations s),
     pn_requests = map requestFromLedger (sn_requests s)\<rparr>"

section \<open>What the conversion keeps\<close>

lemma public_check_of_inj [simp]: "public_check_of c = public_check_of d \<longleftrightarrow> c = d"
  by (cases c; cases d) (simp add: public_check_of_def)

lemma map_public_check_of_inj: "map public_check_of cs = map public_check_of ds \<longleftrightarrow> cs = ds"
  by (rule inj_map_eq_map) (simp add: inj_on_def)

lemma attestationFromLedger_fields [simp]:
  "pa_id (attestationFromLedger a) = at_id a" "pa_outcome (attestationFromLedger a) = at_outcome a"
  by (simp_all add: attestationFromLedger_def)

text \<open>Two records have the same public copy exactly when they differ at most in the document and the manifest.\<close>

lemma attestationFromLedger_eq_iff:
  "attestationFromLedger a = attestationFromLedger b \<longleftrightarrow>
     a\<lparr>at_document := [], at_manifest := []\<rparr> = b\<lparr>at_document := [], at_manifest := []\<rparr>"
  by (cases a; cases b) (auto simp: attestationFromLedger_def map_public_check_of_inj)

lemma requestFromLedger_inj: "requestFromLedger r = requestFromLedger r' \<longleftrightarrow> r = r'"
  by (cases r; cases r') (auto simp: requestFromLedger_def)

lemma snapshotFromLedger_current [simp]:
  "pn_current (snapshotFromLedger s) = map_option attestationFromLedger (sn_current s)"
  by (simp add: snapshotFromLedger_def)

end
