(* ===== verification/Nexus.thy ===== *)
theory Nexus
  imports PolicyRefresh ReleaseSafety HandlerSafety Catalog PublicTypes
begin

text \<open>
  The public client (client.go and verification.go): its configuration, its construction, its
  operations and the in-process transport. The parts of the program meet here: the verifier, the release
  source with its file cache, the confidential client, the ledger and the local handler.

  The base world is what lies outside the process: a network state \<open>'n\<close> (with the clock and the random
  source) and the disk, with what surrounds the next replacement of a file on it. The parameters act on
  the network state only and are lifted to the base world. Timeouts and cancellation are not modelled:
  to the code they are errors of the transport.
\<close>

section \<open>Worlds\<close>

type_synonym 'n base = "'n \<times> fs_env \<times> fs"

definition lift_net :: "('n \<Rightarrow> 'a \<times> 'n) \<Rightarrow> 'n base \<Rightarrow> 'a \<times> 'n base" where
  "lift_net f b = (case f (fst b) of (x, n) \<Rightarrow> (x, (n, snd b)))"

definition lift_transport :: "'n transport \<Rightarrow> 'n base transport" where
  "lift_transport tr req = lift_net (tr req)"

definition lift_attest :: "'n attest_env \<Rightarrow> 'n base attest_env" where
  "lift_attest env = \<lparr>ae_random = (\<lambda>k. lift_net (ae_random env k)), ae_transport = lift_transport (ae_transport env),
     ae_now = lift_net (ae_now env), ae_nitro = lift_net (ae_nitro env)\<rparr>"

definition lift_ehbp :: "('id, 'n) ehbp \<Rightarrow> ('id, 'n base) ehbp" where
  "lift_ehbp eh = \<lparr>eh_from_public_key = eh_from_public_key eh, eh_new_transport = eh_new_transport eh,
     eh_transport = (\<lambda>i. lift_transport (eh_transport eh i)), eh_is_key_config_error = eh_is_key_config_error eh\<rparr>"

record ('t, 'v, 'b, 'i, 'id, 'n) sdk_env =
  se_attest :: "'n attest_env"
  se_sigstore :: "('t, 'v, 'b, 'i) sigstore"
  se_root_json :: bytes
  se_ehbp :: "('id, 'n) ehbp"
  se_page :: bytes

section \<open>Configuration\<close>

definition InProcessBaseURL :: string where "InProcessBaseURL = ''http://nexus.local/v1''"
definition defaultAttestationTimeout :: duration where "defaultAttestationTimeout = 15 * second"
definition defaultPolicyRefreshInterval :: duration where "defaultPolicyRefreshInterval = hour"

record policy_updates =
  tu_repository :: string
  tu_releases :: int
  tu_cache_file :: string
  tu_interval :: duration

record nexus_config =
  nx_gateway_url :: string
  nx_trust_policy_file :: string
  nx_trust_policy_json :: bytes
  nx_attestation_timeout :: duration
  nx_updates :: "policy_updates option"
  nx_state_file :: string
  nx_disable_ui :: bool
  nx_disable_catalog :: bool

definition normalizeGatewayURL :: "string \<Rightarrow> string result" where
  "normalizeGatewayURL raw =
     (if raw = [] then Inl (Msg ''Gateway URL is required'')
      else (case ParseRequestURI raw of
        Inl e \<Rightarrow> Inl (Wrapf ''invalid Gateway URL: '' e [])
      | Inr u \<Rightarrow>
         (if url_scheme u \<noteq> ''https'' \<or> url_host u = [] \<or> url_opaque u \<noteq> []
          then Inl (Msg ''Gateway URL must be an absolute HTTPS origin'')
          else if url_user u \<or> url_raw_query u \<noteq> [] \<or> url_force_query u \<or> url_fragment u \<noteq> [] \<or> url_raw_path u \<noteq> []
          then Inl (Msg ''Gateway URL must not contain credentials, a query, or a fragment'')
          else if url_path u \<noteq> [] \<and> url_path u \<noteq> ''/''
          then Inl (Msg ''Gateway URL must be an origin without a path'')
          else Inr (url_string (url_scheme u) (url_host u)))))"

definition policy_sources :: "nexus_config \<Rightarrow> nat" where
  "policy_sources c = (if trim_space (nx_trust_policy_file c) \<noteq> [] then 1 else 0) +
     (if nx_trust_policy_json c \<noteq> [] then 1 else 0) + (if nx_updates c \<noteq> None then 1 else 0)"

definition validateConfig :: "nexus_config \<Rightarrow> (string \<times> duration) result" where
  "validateConfig c = (case normalizeGatewayURL (nx_gateway_url c) of
     Inl e \<Rightarrow> Inl e
   | Inr gatewayURL \<Rightarrow>
      (if policy_sources c \<noteq> 1
       then Inl (Msg ''exactly one of trust policy file, trust policy JSON, or trust policy updates is required'')
       else if (case nx_updates c of None \<Rightarrow> False | Some u \<Rightarrow> tu_interval u < 0)
       then Inl (Msg ''trust policy refresh interval must not be negative'')
       else (let timeout = (if nx_attestation_timeout c = 0 then defaultAttestationTimeout else nx_attestation_timeout c) in
         if timeout < 0 then Inl (Msg ''attestation timeout must be positive'')
         else Inr (gatewayURL, timeout))))"

definition refreshInterval :: "policy_updates \<Rightarrow> duration" where
  "refreshInterval u = (if tu_interval u > 0 then tu_interval u else defaultPolicyRefreshInterval)"

definition loadStaticPolicy :: "fs \<Rightarrow> nexus_config \<Rightarrow> policy result" where
  "loadStaticPolicy disk c =
     (case (if nx_trust_policy_json c \<noteq> [] then ParsePolicy (nx_trust_policy_json c)
            else LoadPolicy (fs_open None disk) (nx_trust_policy_file c)) of
        Inl e \<Rightarrow> Inl (Wrapf ''load trust policy: '' e []) | Inr p \<Rightarrow> Inr p)"

text \<open>\<open>rejectRedirects\<close> on both HTTP clients the package builds.\<close>

definition rejecting_client :: http_client where
  "rejecting_client = \<lparr>hc_check_redirect = Some (reject_redirects ''redirects are not allowed'')\<rparr>"

type_synonym 'v file_source = "('v, fs_env \<times> fs) source"

definition newReleaseSource ::
    "('t, 'v, 'b, 'i) sigstore \<Rightarrow> bytes \<Rightarrow> policy_updates \<Rightarrow> http_client \<Rightarrow> 'v file_source result" where
  "newReleaseSource sg root u client = (case NewSource sg root (tu_repository u) (tu_releases u) (Some client) of
     Inl e \<Rightarrow> Inl (Wrapf ''configure release source: '' e [])
   | Inr s \<Rightarrow>
      (if trim_space (tu_cache_file u) \<noteq> []
       then (case NewFileCache (tu_cache_file u) of
          Inl e \<Rightarrow> Inl (Wrapf ''configure release cache: '' e [])
        | Inr path \<Rightarrow> Inr (WithCache s (Some (file_cache path))))
       else Inr s))"

text \<open>The policy of the release source, over the base world.\<close>

definition base_policy :: "('t, 'v, 'b, 'i, 'id, 'n) sdk_env \<Rightarrow> 'v file_source \<Rightarrow> 'n base \<Rightarrow> policy result \<times> 'n base" where
  "base_policy env s b = (case Source_Policy (se_sigstore env) (ae_transport (se_attest env)) s (fst b) (snd b) of
     (r, n, c) \<Rightarrow> (r, (n, c)))"

section \<open>The source of evidence\<close>

datatype evidence_source = Direct verifier | Following refreshing_verifier

fun inner_verifier :: "evidence_source \<Rightarrow> verifier" where
  "inner_verifier (Direct v) = v"
| "inner_verifier (Following rv) = rv_inner rv"

fun set_inner :: "verifier \<Rightarrow> evidence_source \<Rightarrow> evidence_source" where
  "set_inner v (Direct _) = Direct v"
| "set_inner v (Following rv) = Following (rv\<lparr>rv_inner := v\<rparr>)"

definition refresh_world :: "('t, 'v, 'b, 'i, 'id, 'n) sdk_env \<Rightarrow> 'v file_source option \<Rightarrow> 'n base refresh_env" where
  "refresh_world env s = \<lparr>rf_attest = lift_attest (se_attest env),
     rf_source = (case s of None \<Rightarrow> (\<lambda>b. (Inl (Msg ''no release source''), b)) | Some s' \<Rightarrow> base_policy env s'),
     rf_now = lift_net (ae_now (se_attest env))\<rparr>"

definition source_verify ::
    "('t, 'v, 'b, 'i, 'id, 'n) sdk_env \<Rightarrow> 'v file_source option \<Rightarrow> (evidence_source, 'n base) verify" where
  "source_verify env s es b = (case es of
     Direct v \<Rightarrow> (case plain_verify (lift_attest (se_attest env)) v b of (r, v', b') \<Rightarrow> (r, Direct v', b'))
   | Following rv \<Rightarrow> (case refreshing_verify (refresh_world env s) rv b of (r, rv', b') \<Rightarrow> (r, Following rv', b')))"

definition confidential_env ::
    "('t, 'v, 'b, 'i, 'id, 'n) sdk_env \<Rightarrow> 'v file_source option \<Rightarrow> string \<Rightarrow> ('id, evidence_source, 'n base) client_env" where
  "confidential_env env s gatewayURL = \<lparr>ce_endpoint = gatewayURL @ ConfidentialEndpoint, ce_verify = source_verify env s,
     ce_ehbp = lift_ehbp (se_ehbp env), ce_now = lift_net (ae_now (se_attest env))\<rparr>"

section \<open>The client\<close>

record 'v nexus_client =
  nc_gateway_url :: string
  nc_timeout :: duration
  nc_source :: "'v file_source option"
  nc_catalog :: "catalog_client option"
  nc_verification_ui :: bool
  nc_refresh_interval :: "duration option"

record ('id, 'n) sdk_world =
  sw_state :: "'id client_state"
  sw_evidence :: evidence_source
  sw_base :: "'n base"

text \<open>The first policy, and the source when the client follows releases.\<close>

definition initial_policy ::
    "('t, 'v, 'b, 'i, 'id, 'n) sdk_env \<Rightarrow> nexus_config \<Rightarrow> 'n base \<Rightarrow> ('v file_source option \<times> policy) result \<times> 'n base" where
  "initial_policy env c b = (case nx_updates c of
     Some u \<Rightarrow> (case newReleaseSource (se_sigstore env) (se_root_json env) u rejecting_client of
        Inl e \<Rightarrow> (Inl e, b)
      | Inr s \<Rightarrow> (case base_policy env s b of
          (Inl e, b') \<Rightarrow> (Inl (Wrapf ''derive trust policy from signed releases: '' e []), b')
        | (Inr p, b') \<Rightarrow> (Inr (Some s, p), b')))
   | None \<Rightarrow> (case loadStaticPolicy (snd (snd b)) c of
        Inl e \<Rightarrow> (Inl e, b) | Inr p \<Rightarrow> (Inr (None, p), b)))"

definition initial_ledger :: "nexus_config \<Rightarrow> 'n base \<Rightarrow> ledger result" where
  "initial_ledger c b =
     (if nx_state_file c \<noteq> []
      then (case OpenLedger (fst (snd b)) None (nx_state_file c) (snd (snd b)) of
        Inl e \<Rightarrow> Inl (Wrapf ''open verification state file: '' e []) | Inr l \<Rightarrow> Inr l)
      else Inr NewLedger)"

definition initial_catalog :: "nexus_config \<Rightarrow> string \<Rightarrow> catalog_client option result" where
  "initial_catalog c gatewayURL =
     (if nx_disable_catalog c then Inr None
      else (case NewCatalogClient (gatewayURL @ ModelsEndpoint) (Some rejecting_client) of
        Inl e \<Rightarrow> Inl (Wrapf ''configure model catalog client: '' e []) | Inr cc \<Rightarrow> Inr (Some cc)))"

text \<open>From the first policy to the warm client: verifier, confidential client, ledger, first attestation.\<close>

definition start_client ::
    "('t, 'v, 'b, 'i, 'id, 'n) sdk_env \<Rightarrow> nexus_config \<Rightarrow> string \<Rightarrow> 'v file_source option \<Rightarrow> policy \<Rightarrow> 'n base \<Rightarrow>
     ('id, 'n) sdk_world result \<times> 'n base" where
  "start_client env c gatewayURL s p b =
     (case NewVerifier (gatewayURL @ ''/v1/attestation'') (Some p) (Some rejecting_client) of
        Inl e \<Rightarrow> (Inl (Wrapf ''configure attestation verifier: '' e []), b)
      | Inr v \<Rightarrow>
         (let es = (if s = None then Direct v else Following (newRefreshingVerifier v)); cenv = confidential_env env s gatewayURL in
          (case NewConfidentialClient (gatewayURL @ ConfidentialEndpoint) (Some (source_verify env s)) (Some rejecting_client) of
             Inl e \<Rightarrow> (Inl (Wrapf ''configure confidential Gateway client: '' e []), b)
           | Inr st0 \<Rightarrow> (case initial_ledger c b of
               Inl e \<Rightarrow> (Inl e, b)
             | Inr l \<Rightarrow> (case WarmUp cenv (WithLedger (Some l) st0) es b of
                 (Some e, st, es', b') \<Rightarrow> (Inl (Wrapf ''initial Gateway attestation failed: '' e []), b')
               | (None, st, es', b') \<Rightarrow> (Inr \<lparr>sw_state = st, sw_evidence = es', sw_base = b'\<rparr>, b'))))))"

definition New ::
    "('t, 'v, 'b, 'i, 'id, 'n) sdk_env \<Rightarrow> nexus_config \<Rightarrow> 'n base \<Rightarrow>
     ('v nexus_client \<times> ('id, 'n) sdk_world) result \<times> 'n base" where
  "New env c b = (case validateConfig c of
     Inl e \<Rightarrow> (Inl e, b)
   | Inr (gatewayURL, timeout) \<Rightarrow> (case initial_policy env c b of
       (Inl e, b1) \<Rightarrow> (Inl e, b1)
     | (Inr (s, p), b1) \<Rightarrow> (case start_client env c gatewayURL s p b1 of
         (Inl e, b2) \<Rightarrow> (Inl e, b2)
       | (Inr w, b2) \<Rightarrow> (case initial_catalog c gatewayURL of
           Inl e \<Rightarrow> (Inl e, b2)
         | Inr cat \<Rightarrow> (Inr (\<lparr>nc_gateway_url = gatewayURL, nc_timeout = timeout, nc_source = s, nc_catalog = cat,
               nc_verification_ui = \<not> nx_disable_ui c,
               nc_refresh_interval = map_option refreshInterval (nx_updates c)\<rparr>, w), b2)))))"

text \<open>One tick of the background refresh: a policy that cannot be fetched or applied changes nothing.\<close>

definition policy_refresh_tick ::
    "('t, 'v, 'b, 'i, 'id, 'n) sdk_env \<Rightarrow> 'v file_source \<Rightarrow> ('id, 'n) sdk_world \<Rightarrow> ('id, 'n) sdk_world" where
  "policy_refresh_tick env s w = (case base_policy env s (sw_base w) of
     (Inl e, b) \<Rightarrow> w\<lparr>sw_base := b\<rparr>
   | (Inr p, b) \<Rightarrow> (case SetPolicy (inner_verifier (sw_evidence w)) (Some p) of
       (_, v) \<Rightarrow> w\<lparr>sw_evidence := set_inner v (sw_evidence w), sw_base := b\<rparr>))"

section \<open>The handler of the client\<close>

definition with_base :: "('n base \<Rightarrow> 'a \<times> 'n base) \<Rightarrow> ('id, 'n) sdk_world \<Rightarrow> 'a \<times> ('id, 'n) sdk_world" where
  "with_base f w = (case f (sw_base w) of (x, b) \<Rightarrow> (x, w\<lparr>sw_base := b\<rparr>))"

definition sdk_do ::
    "('t, 'v, 'b, 'i, 'id, 'n) sdk_env \<Rightarrow> 'v nexus_client \<Rightarrow> ('id, 'n) sdk_world upstream_do" where
  "sdk_do env nc authorization accept userAgent body w =
     (case Do (confidential_env env (nc_source nc) (nc_gateway_url nc)) authorization accept userAgent body
             (sw_state w) (sw_evidence w) (sw_base w) of
        (r, st, es, b) \<Rightarrow> (r, \<lparr>sw_state = st, sw_evidence = es, sw_base = b\<rparr>))"

definition sdk_handler ::
    "('t, 'v, 'b, 'i, 'id, 'n) sdk_env \<Rightarrow> 'v nexus_client \<Rightarrow> ('id, 'n) sdk_world handler" where
  "sdk_handler env nc = \<lparr>h_sender = sdk_do env nc,
     h_now = with_base (lift_net (ae_now (se_attest env))),
     h_new_id = with_base (randomUUID (\<lambda>k. lift_net (ae_random (se_attest env) k))),
     h_ledger = (\<lambda>w. cs_ledger (sw_state w)),
     h_set_ledger = (\<lambda>l w. w\<lparr>sw_state := (sw_state w)\<lparr>cs_ledger := l\<rparr>\<rparr>),
     h_gateway_origin = (if nc_verification_ui nc then nc_gateway_url nc else []),
     h_verification_ui = nc_verification_ui nc,
     h_catalog = map_option (\<lambda>cc. with_base (Catalog_Fetch (lift_transport (ae_transport (se_attest env))) cc)) (nc_catalog nc),
     h_page = se_page env\<rparr>"

definition sdk_serve ::
    "('t, 'v, 'b, 'i, 'id, 'n) sdk_env \<Rightarrow> 'v nexus_client \<Rightarrow> local_request \<Rightarrow> response_writer \<Rightarrow> ('id, 'n) sdk_world \<Rightarrow>
     response_writer \<times> serve_end \<times> ('id, 'n) sdk_world" where
  "sdk_serve env nc = ServeHTTP (sdk_handler env nc)"

section \<open>Operations\<close>

definition Verification ::
    "('t, 'v, 'b, 'i, 'id, 'n) sdk_env \<Rightarrow> ('id, 'n) sdk_world \<Rightarrow> public_snapshot \<times> ('id, 'n) sdk_world" where
  "Verification env w = (case with_base (lift_net (ae_now (se_attest env))) w of (now, w') \<Rightarrow>
     ((case cs_ledger (sw_state w) of
        None \<Rightarrow> \<lparr>pn_status = ''starting'', pn_generated_at = now, pn_verified_total = 0, pn_rejected_total = 0,
           pn_encrypted_total = 0, pn_failed_total = 0, pn_persistent = False, pn_current = None,
           pn_attestations = [], pn_requests = []\<rparr>
      | Some l \<Rightarrow> snapshotFromLedger (Snapshot now l)), w'))"

definition Nexus_Verify ::
    "('t, 'v, 'b, 'i, 'id, 'n) sdk_env \<Rightarrow> 'v nexus_client \<Rightarrow> ('id, 'n) sdk_world \<Rightarrow> public_attestation result \<times> ('id, 'n) sdk_world" where
  "Nexus_Verify env nc w =
     (case Reverify (confidential_env env (nc_source nc) (nc_gateway_url nc)) (sw_state w) (sw_evidence w) (sw_base w) of
        (Some e, st, es, b) \<Rightarrow> (Inl (Wrapf ''verify Gateway: '' e []), \<lparr>sw_state = st, sw_evidence = es, sw_base = b\<rparr>)
      | (None, st, es, b) \<Rightarrow> (case Verification env \<lparr>sw_state = st, sw_evidence = es, sw_base = b\<rparr> of (s, w') \<Rightarrow>
          (case pn_current s of
             None \<Rightarrow> (Inl (Msg ''verification succeeded without a current record''), w')
           | Some a \<Rightarrow> (Inr a, w'))))"

text \<open>\<open>ErrEvidenceNotFound\<close>, and the exported evidence: the identifier, the document and the manifest.\<close>

definition ErrEvidenceNotFound :: error where "ErrEvidenceNotFound = Msg ''verification evidence not found''"

definition Evidence :: "string \<Rightarrow> ('id, 'n) sdk_world \<Rightarrow> evidence_export result" where
  "Evidence ident w = (case cs_ledger (sw_state w) of
     None \<Rightarrow> Inl (Msg ''Nexus client is nil'')
   | Some l \<Rightarrow> (case Document ident l of
       None \<Rightarrow> Inl ErrEvidenceNotFound
     | Some (document, manifest) \<Rightarrow> Inr \<lparr>ee_attestation_id = ident, ee_document = document, ee_manifest = manifest\<rparr>))"

definition Nexus_Flush ::
    "('t, 'v, 'b, 'i, 'id, 'n) sdk_env \<Rightarrow> ('id, 'n) sdk_world \<Rightarrow> error option \<times> ('id, 'n) sdk_world" where
  "Nexus_Flush env w = (case with_base (lift_net (ae_now (se_attest env))) w of (now, w1) \<Rightarrow>
     (case Flush (fst (snd (sw_base w1))) now (cs_ledger (sw_state w1)) (snd (snd (sw_base w1))) of
        (e, l, tr) \<Rightarrow> (e, w1\<lparr>sw_state := (sw_state w1)\<lparr>cs_ledger := l\<rparr>,
          sw_base := (fst (sw_base w1), fst (snd (sw_base w1)), last tr)\<rparr>)))"

text \<open>\<open>Close\<close> stops the background refresh and flushes; a closed client refreshes no more.\<close>

definition Nexus_Close ::
    "('t, 'v, 'b, 'i, 'id, 'n) sdk_env \<Rightarrow> 'v nexus_client \<Rightarrow> ('id, 'n) sdk_world \<Rightarrow>
     error option \<times> 'v nexus_client \<times> ('id, 'n) sdk_world" where
  "Nexus_Close env nc w = (case Nexus_Flush env w of (e, w') \<Rightarrow> (e, nc\<lparr>nc_refresh_interval := None\<rparr>, w'))"

text \<open>\<open>GatewayURL\<close> of a client that may be nil.\<close>

definition GatewayURL :: "'v nexus_client option \<Rightarrow> string" where
  "GatewayURL c = (case c of None \<Rightarrow> [] | Some nc \<Rightarrow> nc_gateway_url nc)"

section \<open>The in-process transport\<close>

text \<open>
  \<open>handlerTransport.RoundTrip\<close>: the handler runs on a pipe whose other end is the body of the
  response; a panic closes the pipe with \<open>io.ErrUnexpectedEOF\<close>. The model is the run in which the
  caller reads the whole body and does not cancel.
\<close>

definition pipe_writer :: response_writer where
  "pipe_writer = \<lparr>rw_header = [], rw_sent = None, rw_body = [], rw_flushed = 0, rw_can_flush = True, rw_faults = []\<rparr>"

definition pipe_response :: "response_writer \<Rightarrow> serve_end \<Rightarrow> http_response result" where
  "pipe_response rw en = (case (rw_sent rw, en) of
     (None, Aborted) \<Rightarrow> Inl (Sent UnexpectedEOF)
   | (None, Returned) \<Rightarrow> Inr \<lparr>resp_status = 200, resp_header = rw_header rw, resp_body = [(rw_body rw, None)]\<rparr>
   | (Some (status, hdr), Aborted) \<Rightarrow>
       Inr \<lparr>resp_status = status, resp_header = hdr, resp_body = [(rw_body rw, Some (Sent UnexpectedEOF))]\<rparr>
   | (Some (status, hdr), Returned) \<Rightarrow> Inr \<lparr>resp_status = status, resp_header = hdr, resp_body = [(rw_body rw, None)]\<rparr>)"

definition handlerTransport ::
    "(local_request \<Rightarrow> response_writer \<Rightarrow> 'w \<Rightarrow> response_writer \<times> serve_end \<times> 'w) option \<Rightarrow> 'w transport" where
  "handlerTransport handler req w = (case handler of
     None \<Rightarrow> (Inl (Msg ''Nexus handler is nil''), w)
   | Some serve \<Rightarrow> (case ParseRequestURI (req_url req) of
       Inl e \<Rightarrow> (Inl (Msg ''HTTP request and URL are required''), w)
     | Inr u \<Rightarrow>
        (if url_scheme u \<noteq> ''http'' \<or> url_host u \<noteq> ''nexus.local''
         then (Inl (Msg (''in-process Nexus requests must use '' @ InProcessBaseURL)), w)
         else (case serve \<lparr>lr_method = req_method req, lr_path = url_path u, lr_raw_query = url_raw_query u,
                   lr_header = req_header req, lr_body = [(req_body req, None)], lr_gone = False\<rparr> pipe_writer w of
           (rw, en, w') \<Rightarrow> (case pipe_response rw en of
              Inl e \<Rightarrow> (Inl e, w')
            | Inr r \<Rightarrow> (Inr \<lparr>wr_response = r, wr_redirect = None\<rparr>, w'))))))"

text \<open>\<open>Handler\<close> and \<open>HTTPClient\<close> of a client that may be nil: the transport and the redirect policy.\<close>

definition Handler ::
    "('t, 'v, 'b, 'i, 'id, 'n) sdk_env \<Rightarrow> 'v nexus_client option \<Rightarrow>
     (local_request \<Rightarrow> response_writer \<Rightarrow> ('id, 'n) sdk_world \<Rightarrow> response_writer \<times> serve_end \<times> ('id, 'n) sdk_world) option" where
  "Handler env c = (case c of None \<Rightarrow> None | Some nc \<Rightarrow> Some (sdk_serve env nc))"

definition HTTPClient ::
    "('t, 'v, 'b, 'i, 'id, 'n) sdk_env \<Rightarrow> 'v nexus_client option \<Rightarrow> ('id, 'n) sdk_world transport \<times> http_client" where
  "HTTPClient env c = (handlerTransport (Handler env c), rejecting_client)"

definition in_process_do ::
    "('t, 'v, 'b, 'i, 'id, 'n) sdk_env \<Rightarrow> 'v nexus_client option \<Rightarrow> http_request \<Rightarrow> ('id, 'n) sdk_world \<Rightarrow>
     http_response result \<times> ('id, 'n) sdk_world" where
  "in_process_do env c = (case HTTPClient env c of (tr, client) \<Rightarrow> http_do tr client)"

text \<open>The receiver may be nil, and the context may be missing.\<close>

definition ChatCompletions ::
    "('t, 'v, 'b, 'i, 'id, 'n) sdk_env \<Rightarrow> 'v nexus_client option \<Rightarrow> bool \<Rightarrow> string \<Rightarrow> bytes \<Rightarrow> ('id, 'n) sdk_world \<Rightarrow>
     http_response result \<times> ('id, 'n) sdk_world" where
  "ChatCompletions env c ctx_given apiKey body w =
     (if c = None then (Inl (Msg ''Nexus client is nil''), w)
      else if \<not> ctx_given then (Inl (Msg ''context is required''), w)
      else if trim_space apiKey = [] then (Inl (Msg ''Nexus API key is required''), w)
      else if trim_space body = [] \<or> \<not> json_valid body then (Inl (Msg ''chat completion body must be valid JSON''), w)
      else (let h0 = header_set [] ''Authorization'' (''Bearer '' @ apiKey);
                h1 = header_set h0 ''Content-Type'' ''application/json'';
                h2 = header_set h1 ''Accept'' ''application/json''
            in in_process_do env c \<lparr>req_method = ''POST'', req_url = InProcessBaseURL @ ''/chat/completions'',
                 req_header = h2, req_body = body\<rparr> w))"

definition Models ::
    "('t, 'v, 'b, 'i, 'id, 'n) sdk_env \<Rightarrow> 'v nexus_client option \<Rightarrow> bool \<Rightarrow> ('id, 'n) sdk_world \<Rightarrow>
     http_response result \<times> ('id, 'n) sdk_world" where
  "Models env c ctx_given w =
     (if c = None then (Inl (Msg ''Nexus client is nil''), w)
      else if \<not> ctx_given then (Inl (Msg ''context is required''), w)
      else in_process_do env c \<lparr>req_method = ''GET'', req_url = InProcessBaseURL @ ''/models'',
        req_header = header_set [] ''Accept'' ''application/json'', req_body = []\<rparr> w)"

end
