(* ===== verification/Cmd.thy ===== *)
theory Cmd
  imports Nexus
begin

text \<open>
  The command line of the proxy (cmd/nexus-proxy/main.go): the flags, their validation and the client
  configuration they give. The \<open>flag\<close> package, \<open>time.ParseDuration\<close> and the parts of
  \<open>strconv\<close> it uses are modelled; the fraction of a duration is truncated exactly, where Go computes it
  in 64-bit floating point. The listener, the server and the signals of \<open>run\<close> are parameters.
\<close>

definition defaultListenAddress :: string where "defaultListenAddress = ''127.0.0.1:3301''"
definition defaultRequestTimeout :: duration where "defaultRequestTimeout = 15 * second"
definition listenScopeLoopback :: string where "listenScopeLoopback = ''loopback''"
definition listenScopeDappnode :: string where "listenScopeDappnode = ''dappnode''"

record proxy_config =
  pc_gateway_origin :: string
  pc_trust_policy_path :: string
  pc_listen_address :: string
  pc_listen_scope :: string
  pc_attestation_timeout :: duration
  pc_verification_ui :: bool
  pc_model_catalog :: bool
  pc_state_file :: string
  pc_policy_updates :: bool
  pc_policy_cache_file :: string
  pc_policy_refresh :: duration

section \<open>Numbers and durations\<close>

definition atoi :: "string \<Rightarrow> int option" where
  "atoi s = (let ds = (case s of c # t \<Rightarrow> (if c = CHR ''-'' \<or> c = CHR ''+'' then t else s) | [] \<Rightarrow> []);
        n = (if s \<noteq> [] \<and> hd s = CHR ''-'' then - digits_val ds else digits_val ds)
     in if ds \<noteq> [] \<and> list_all is_digit ds \<and> in_int64 n then Some n else None)"

definition parse_bool :: "string \<Rightarrow> bool option" where
  "parse_bool s =
     (if s \<in> set [''1'', ''t'', ''T'', ''TRUE'', ''true'', ''True''] then Some True
      else if s \<in> set [''0'', ''f'', ''F'', ''FALSE'', ''false'', ''False''] then Some False else None)"

definition unit_map :: "(string \<times> nat) list" where
  "unit_map = [(''ns'', 1), (''us'', 1000), ([CHR 0xC2, CHR 0xB5, CHR ''s''], 1000), ([CHR 0xCE, CHR 0xBC, CHR ''s''], 1000),
     (''ms'', 1000000), (''s'', 1000000000), (''m'', 60000000000), (''h'', 3600000000000)]"

text \<open>The leading digits as a number, \<open>None\<close> on overflow, and the rest.\<close>

fun leading_int :: "nat \<Rightarrow> string \<Rightarrow> (nat \<times> string) option" where
  "leading_int x [] = Some (x, [])"
| "leading_int x (c # s) =
     (if \<not> is_digit c then Some (x, c # s)
      else if x > 2 ^ 63 div 10 then None
      else (let y = 10 * x + (ord_of c - 48) in if y > 2 ^ 63 then None else leading_int y s))"

text \<open>The fraction \<open>x / scale\<close>; digits after an overflow are skipped.\<close>

fun leading_fraction :: "bool \<Rightarrow> nat \<Rightarrow> nat \<Rightarrow> string \<Rightarrow> nat \<times> nat \<times> string" where
  "leading_fraction over x scale [] = (x, scale, [])"
| "leading_fraction over x scale (c # s) =
     (if \<not> is_digit c then (x, scale, c # s)
      else if over \<or> x > (2 ^ 63 - 1) div 10 \<or> 10 * x + (ord_of c - 48) > 2 ^ 63 then leading_fraction True x scale s
      else leading_fraction False (10 * x + (ord_of c - 48)) (10 * scale) s)"

fun span_unit :: "string \<Rightarrow> string \<times> string" where
  "span_unit [] = ([], [])"
| "span_unit (c # s) = (if c = CHR ''.'' \<or> is_digit c then ([], c # s) else (case span_unit s of (u, r) \<Rightarrow> (c # u, r)))"

lemma span_unit_length: "span_unit s = (u, r) \<Longrightarrow> length s = length u + length r"
  by (induction s arbitrary: u r) (auto split: if_splits prod.splits)

lemma leading_int_length: "leading_int x s = Some (v, r) \<Longrightarrow> length r \<le> length s"
  by (induction x s arbitrary: v r rule: leading_int.induct) (fastforce simp: Let_def split: if_splits)+

lemma leading_fraction_length: "leading_fraction ov x sc s = (f, sc', r) \<Longrightarrow> length r \<le> length s"
  by (induction ov x sc s arbitrary: f sc' r rule: leading_fraction.induct) (auto split: if_splits)

text \<open>The fraction after the integer, what is left, and whether it has digits.\<close>

definition duration_fraction :: "string \<Rightarrow> nat \<times> nat \<times> string \<times> bool" where
  "duration_fraction s = (case s of
     [] \<Rightarrow> (0, 1, s, False)
   | c # t \<Rightarrow>
      (if c \<noteq> CHR ''.'' then (0, 1, s, False)
       else (case leading_fraction False 0 1 t of (f, scale, r) \<Rightarrow> (f, scale, r, r \<noteq> t))))"

text \<open>One number with its unit: the nanoseconds and the rest.\<close>

definition duration_part :: "string \<Rightarrow> (nat \<times> string) option" where
  "duration_part s = (case leading_int 0 s of
     None \<Rightarrow> None
   | Some (v, s1) \<Rightarrow> (case duration_fraction s1 of (f, scale, s2, post) \<Rightarrow>
      (if s1 = s \<and> \<not> post then None
       else (case span_unit s2 of (u, s3) \<Rightarrow> (case map_of unit_map u of
           None \<Rightarrow> None
         | Some unt \<Rightarrow>
            (if v > 2 ^ 63 div unt \<or> v * unt + f * unt div scale > 2 ^ 63 then None
             else Some (v * unt + f * unt div scale, s3)))))))"

lemma unit_map_nonempty: "map_of unit_map [] = None"
  by (simp add: unit_map_def)

lemma duration_fraction_length: "duration_fraction s = (f, scale, r, post) \<Longrightarrow> length r \<le> length s"
proof (cases s)
  case (Cons c t)
  assume a: "duration_fraction s = (f, scale, r, post)"
  show ?thesis
  proof (cases "c = CHR ''.''")
    case True
    obtain f' sc' r' where l: "leading_fraction False 0 1 t = (f', sc', r')" by (metis prod_cases3)
    then have "r = r'" using a Cons True by (simp add: duration_fraction_def)
    with leading_fraction_length [OF l] Cons show ?thesis by simp
  next
    case False
    then show ?thesis using a Cons by (simp add: duration_fraction_def)
  qed
qed (simp add: duration_fraction_def)

lemma duration_part_length:
  assumes "duration_part s = Some (v, r)"
  shows "length r < length s"
proof -
  obtain v1 s1 where i: "leading_int 0 s = Some (v1, s1)"
    using assms by (auto simp: duration_part_def split: option.splits)
  obtain f scale s2 post where f: "duration_fraction s1 = (f, scale, s2, post)" by (metis prod_cases4)
  obtain u s3 where u: "span_unit s2 = (u, s3)" by force
  have n: "map_of unit_map u \<noteq> None" "r = s3"
    using assms by (simp_all add: duration_part_def i f u split: if_splits option.splits)
  from n(1) have "u \<noteq> []" using unit_map_nonempty by (cases u) simp_all
  then have "length r < length s2" using span_unit_length [OF u] n(2) by simp
  with duration_fraction_length [OF f] leading_int_length [OF i] show ?thesis by simp
qed

function duration_parts :: "nat \<Rightarrow> string \<Rightarrow> nat option" where
  "duration_parts d s =
     (if s = [] then Some d
      else (case duration_part s of
        None \<Rightarrow> None
      | Some (v, r) \<Rightarrow> (if d + v > 2 ^ 63 then None else duration_parts (d + v) r)))"
  by pat_completeness auto
termination
  by (relation "measure (\<lambda>(d, s). length s)") (auto dest: duration_part_length)

declare duration_parts.simps [simp del]

definition ParseDuration :: "string \<Rightarrow> duration option" where
  "ParseDuration orig =
     (let neg = (orig \<noteq> [] \<and> hd orig = CHR ''-'');
          s = (case orig of c # t \<Rightarrow> (if c = CHR ''-'' \<or> c = CHR ''+'' then t else orig) | [] \<Rightarrow> [])
      in if s = ''0'' then Some 0
         else if s = [] then None
         else (case duration_parts 0 s of
           None \<Rightarrow> None
         | Some d \<Rightarrow> (if neg then Some (- int d) else if d > 2 ^ 63 - 1 then None else Some (int d))))"

section \<open>Flags\<close>

record flag_values =
  fv_gateway_url :: string
  fv_trust_policy :: string
  fv_listen :: string
  fv_listen_scope :: string
  fv_attestation_timeout :: duration
  fv_verification_ui :: bool
  fv_model_catalog :: bool
  fv_state_file :: string
  fv_policy_updates :: bool
  fv_policy_cache :: string
  fv_policy_refresh :: duration

definition default_flags :: flag_values where
  "default_flags = \<lparr>fv_gateway_url = [], fv_trust_policy = [], fv_listen = defaultListenAddress,
     fv_listen_scope = listenScopeLoopback, fv_attestation_timeout = defaultRequestTimeout, fv_verification_ui = True,
     fv_model_catalog = True, fv_state_file = [], fv_policy_updates = False, fv_policy_cache = [], fv_policy_refresh = hour\<rparr>"

definition bool_flags :: "string list" where
  "bool_flags = [''verification-ui'', ''model-catalog'', ''trust-policy-updates'']"

definition flag_names :: "string list" where
  "flag_names = [''gateway-url'', ''trust-policy'', ''listen'', ''listen-scope'', ''attestation-timeout'', ''verification-ui'',
     ''model-catalog'', ''state-file'', ''trust-policy-updates'', ''trust-policy-cache'', ''trust-policy-refresh'']"

text \<open>\<open>Value.Set\<close> of the flag with this name; \<open>None\<close> when the text does not parse.\<close>

definition set_flag :: "string \<Rightarrow> string \<Rightarrow> flag_values \<Rightarrow> flag_values option" where
  "set_flag name value fv =
     (if name = ''gateway-url'' then Some (fv\<lparr>fv_gateway_url := value\<rparr>)
      else if name = ''trust-policy'' then Some (fv\<lparr>fv_trust_policy := value\<rparr>)
      else if name = ''listen'' then Some (fv\<lparr>fv_listen := value\<rparr>)
      else if name = ''listen-scope'' then Some (fv\<lparr>fv_listen_scope := value\<rparr>)
      else if name = ''state-file'' then Some (fv\<lparr>fv_state_file := value\<rparr>)
      else if name = ''trust-policy-cache'' then Some (fv\<lparr>fv_policy_cache := value\<rparr>)
      else if name = ''attestation-timeout'' then map_option (\<lambda>d. fv\<lparr>fv_attestation_timeout := d\<rparr>) (ParseDuration value)
      else if name = ''trust-policy-refresh'' then map_option (\<lambda>d. fv\<lparr>fv_policy_refresh := d\<rparr>) (ParseDuration value)
      else if name = ''verification-ui'' then map_option (\<lambda>b. fv\<lparr>fv_verification_ui := b\<rparr>) (parse_bool value)
      else if name = ''model-catalog'' then map_option (\<lambda>b. fv\<lparr>fv_model_catalog := b\<rparr>) (parse_bool value)
      else if name = ''trust-policy-updates'' then map_option (\<lambda>b. fv\<lparr>fv_policy_updates := b\<rparr>) (parse_bool value)
      else None)"

definition ErrHelp :: error where "ErrHelp = Msg ''flag: help requested''"

text \<open>\<open>FlagSet.Parse\<close>: the values and the positional arguments.\<close>

fun parse_args :: "string list \<Rightarrow> flag_values \<Rightarrow> (flag_values \<times> string list) result" where
  "parse_args [] fv = Inr (fv, [])"
| "parse_args (s # args) fv =
     (if length s < 2 \<or> hd s \<noteq> CHR ''-'' then Inr (fv, s # args)
      else if s = ''--'' then Inr (fv, args)
      else (let name0 = (if s ! 1 = CHR ''-'' then drop 2 s else drop 1 s) in
        if name0 = [] \<or> hd name0 = CHR ''-'' \<or> hd name0 = CHR ''='' then Inl (Msg (''bad flag syntax: '' @ s))
        else (case cut_byte CHR ''='' name0 of (name, value, hasValue) \<Rightarrow>
          (if name \<notin> set flag_names
           then (if name = ''help'' \<or> name = ''h'' then Inl ErrHelp
                 else Inl (Msg (''flag provided but not defined: -'' @ name)))
           else if name \<in> set bool_flags
           then (case set_flag name (if hasValue then value else ''true'') fv of
             None \<Rightarrow> Inl (Msg (''invalid boolean value for -'' @ name))
           | Some fv' \<Rightarrow> parse_args args fv')
           else if hasValue
           then (case set_flag name value fv of
             None \<Rightarrow> Inl (Msg (''invalid value for flag -'' @ name)) | Some fv' \<Rightarrow> parse_args args fv')
           else (case args of
             [] \<Rightarrow> Inl (Msg (''flag needs an argument: -'' @ name))
           | v # args' \<Rightarrow> (case set_flag name v fv of
               None \<Rightarrow> Inl (Msg (''invalid value for flag -'' @ name)) | Some fv' \<Rightarrow> parse_args args' fv'))))))"

section \<open>Validation\<close>

definition validateGatewayOrigin :: "string \<Rightarrow> string result" where
  "validateGatewayOrigin raw =
     (if raw = [] then Inl (Msg ''--gateway-url is required'')
      else (case ParseRequestURI raw of
        Inl e \<Rightarrow> Inl (Wrapf ''invalid --gateway-url: '' e [])
      | Inr u \<Rightarrow>
         (if url_scheme u \<noteq> ''https'' \<or> url_host u = [] \<or> url_opaque u \<noteq> []
          then Inl (Msg ''--gateway-url must be an absolute HTTPS origin'')
          else if url_user u \<or> url_raw_query u \<noteq> [] \<or> url_force_query u \<or> url_fragment u \<noteq> [] \<or> url_raw_path u \<noteq> []
          then Inl (Msg ''--gateway-url must not contain credentials, a query, or a fragment'')
          else if url_path u \<noteq> [] \<and> url_path u \<noteq> ''/''
          then Inl (Msg ''--gateway-url must be an origin without a path'')
          else Inr (url_string (url_scheme u) (url_host u)))))"

definition check_scope :: "ip \<Rightarrow> string \<Rightarrow> error option" where
  "check_scope a scope =
     (if scope = listenScopeLoopback
      then (if \<not> IsLoopback a then Some (Msg (''--listen-scope loopback requires a loopback address '' @
              ''such as 127.0.0.1:3301 or [::1]:3301'')) else None)
      else if scope = listenScopeDappnode
      then (if \<not> IsUnspecified a then Some (Msg ''--listen-scope dappnode requires 0.0.0.0 or [::]'') else None)
      else Some (Msg ''--listen-scope must be loopback or dappnode''))"

definition validateListenAddress :: "string \<Rightarrow> string \<Rightarrow> error option" where
  "validateListenAddress address scope = (case SplitHostPort address of
     Inl e \<Rightarrow> Some (Wrapf ''invalid --listen address: '' e [])
   | Inr (host, port) \<Rightarrow> (case ParseIP host of
       None \<Rightarrow> Some (Msg ''--listen must use a numeric IP address'')
     | Some a \<Rightarrow> (case check_scope a scope of
         Some e \<Rightarrow> Some e
       | None \<Rightarrow> (case atoi port of
           None \<Rightarrow> Some (Msg ''--listen must specify a non-zero port'')
         | Some n \<Rightarrow> (if n < 1 \<or> n > 65535 then Some (Msg ''--listen must specify a non-zero port'') else None)))))"

definition parseFlags :: "string list \<Rightarrow> proxy_config result" where
  "parseFlags args = (case parse_args args default_flags of
     Inl e \<Rightarrow> Inl e
   | Inr (fv, positional) \<Rightarrow>
      (if positional \<noteq> [] then Inl (Msg ''unexpected positional arguments'')
       else (case validateGatewayOrigin (fv_gateway_url fv) of
         Inl e \<Rightarrow> Inl e
       | Inr origin \<Rightarrow>
          (if (trim_space (fv_trust_policy fv) \<noteq> []) = fv_policy_updates fv
           then Inl (Msg ''set exactly one of --trust-policy or --trust-policy-updates'')
           else if fv_policy_refresh fv \<le> 0 then Inl (Msg ''--trust-policy-refresh must be positive'')
           else (case validateListenAddress (fv_listen fv) (fv_listen_scope fv) of
             Some e \<Rightarrow> Inl e
           | None \<Rightarrow>
              (if fv_attestation_timeout fv \<le> 0 then Inl (Msg ''--attestation-timeout must be positive'')
               else Inr \<lparr>pc_gateway_origin = origin, pc_trust_policy_path = fv_trust_policy fv,
                      pc_listen_address = fv_listen fv, pc_listen_scope = fv_listen_scope fv,
                      pc_attestation_timeout = fv_attestation_timeout fv, pc_verification_ui = fv_verification_ui fv,
                      pc_model_catalog = fv_model_catalog fv, pc_state_file = fv_state_file fv,
                      pc_policy_updates = fv_policy_updates fv, pc_policy_cache_file = fv_policy_cache fv,
                      pc_policy_refresh = fv_policy_refresh fv\<rparr>))))))"

text \<open>The configuration \<open>run\<close> gives to \<open>nexus.New\<close>.\<close>

definition sdk_config :: "proxy_config \<Rightarrow> nexus_config" where
  "sdk_config c = \<lparr>nx_gateway_url = pc_gateway_origin c, nx_trust_policy_file = pc_trust_policy_path c,
     nx_trust_policy_json = [], nx_attestation_timeout = pc_attestation_timeout c,
     nx_updates = (if pc_policy_updates c
       then Some \<lparr>tu_repository = [], tu_releases = 0, tu_cache_file = pc_policy_cache_file c, tu_interval = pc_policy_refresh c\<rparr>
       else None),
     nx_state_file = pc_state_file c, nx_disable_ui = \<not> pc_verification_ui c, nx_disable_catalog = \<not> pc_model_catalog c\<rparr>"

section \<open>The process\<close>

text \<open>
  \<open>run\<close>, with what the operating system does as parameters: \<open>listen\<close> opens the listener;
  \<open>serve\<close> is the time until the server stops or a signal arrives, with the result of \<open>Serve\<close>, or
  the results of \<open>Shutdown\<close> and then of \<open>Serve\<close>; \<open>wind_down\<close> is what the requests still running
  do during the shutdown. The requests, the background refresh and the flushes of the ticker all happen in
  \<open>serve\<close>, whose new world is arbitrary. Whatever happens after \<open>New\<close>, the deferred \<open>Close\<close> runs last. The
  result is the exit status and what is left of the world.
\<close>

datatype server_event = Stopped "error option" | Interrupted "error option" "error option"

definition serve_status :: "error option \<Rightarrow> int" where
  "serve_status err = (case err of None \<Rightarrow> 0 | Some e \<Rightarrow> if error_is e ServerClosed then 0 else 1)"

definition closed_base ::
    "('t, 'v, 'b, 'i, 'id, 'n) sdk_env \<Rightarrow> 'v nexus_client \<Rightarrow> ('id, 'n) sdk_world \<Rightarrow> 'n base" where
  "closed_base env nc w = sw_base (snd (snd (Nexus_Close env nc w)))"

definition run_serving ::
    "('t, 'v, 'b, 'i, 'id, 'n) sdk_env \<Rightarrow>
     ('v nexus_client \<Rightarrow> ('id, 'n) sdk_world \<Rightarrow> server_event \<times> ('id, 'n) sdk_world) \<Rightarrow>
     ('v nexus_client \<Rightarrow> ('id, 'n) sdk_world \<Rightarrow> ('id, 'n) sdk_world) \<Rightarrow>
     'v nexus_client \<Rightarrow> ('id, 'n) sdk_world \<Rightarrow> int \<times> ('id, 'n) sdk_world" where
  "run_serving env serve wind_down nc w = (case serve nc w of
     (Stopped err, w1) \<Rightarrow> (serve_status err, w1)
   | (Interrupted shutdown err, w1) \<Rightarrow> (case Nexus_Flush env w1 of (_, w2) \<Rightarrow>
       (if shutdown \<noteq> None then 1 else serve_status err, wind_down nc w2)))"

definition run ::
    "('t, 'v, 'b, 'i, 'id, 'n) sdk_env \<Rightarrow> (string \<Rightarrow> error option) \<Rightarrow>
     ('v nexus_client \<Rightarrow> ('id, 'n) sdk_world \<Rightarrow> server_event \<times> ('id, 'n) sdk_world) \<Rightarrow>
     ('v nexus_client \<Rightarrow> ('id, 'n) sdk_world \<Rightarrow> ('id, 'n) sdk_world) \<Rightarrow> string list \<Rightarrow> 'n base \<Rightarrow> int \<times> 'n base" where
  "run env listen serve wind_down args b = (case parseFlags args of
     Inl e \<Rightarrow> (if e = ErrHelp then 0 else 2, b)
   | Inr c \<Rightarrow> (case New env (sdk_config c) b of
       (Inl e, b1) \<Rightarrow> (1, b1)
     | (Inr (nc, w), b1) \<Rightarrow> (case listen (pc_listen_address c) of
         Some e \<Rightarrow> (1, closed_base env nc w)
       | None \<Rightarrow> (case run_serving env serve wind_down nc w of (status, w1) \<Rightarrow> (status, closed_base env nc w1)))))"

section \<open>What the validation establishes\<close>

text \<open>The two validations of an origin accept the same texts and give the same origin.\<close>

lemma validateGatewayOrigin_iff: "validateGatewayOrigin raw = Inr u \<longleftrightarrow> normalizeGatewayURL raw = Inr u"
  by (auto simp: validateGatewayOrigin_def normalizeGatewayURL_def split: sum.splits if_splits)

lemma ParseDuration_range: "ParseDuration s = Some d \<Longrightarrow> in_int64 d"
proof -
  have b: "duration_parts d s = Some n \<Longrightarrow> d \<le> 2 ^ 63 \<Longrightarrow> n \<le> 2 ^ 63" for d s n
  proof (induction d s rule: duration_parts.induct)
    case (1 d s)
    show ?case
    proof (cases "s = []")
      case True
      then show ?thesis using "1.prems" by (simp add: duration_parts.simps)
    next
      case False
      then obtain v r where p: "duration_part s = Some (v, r)" "\<not> d + v > 2 ^ 63" "duration_parts (d + v) r = Some n"
        using "1.prems"(1) by (auto simp: duration_parts.simps [of d s] split: option.splits if_splits)
      then show ?thesis using "1.IH" [OF False p(1) refl p(2,3)] by simp
    qed
  qed
  assume "ParseDuration s = Some d"
  then consider "d = 0" | t n where "duration_parts 0 t = Some n" "d = - int n \<or> d = int n \<and> n \<le> 2 ^ 63 - 1"
    by (auto simp: ParseDuration_def Let_def split: if_splits option.splits)
  then show ?thesis
  proof cases
    case (2 t n)
    from b [OF 2(1)] 2(2) show ?thesis by (auto simp: in_int64_def)
  qed (simp add: in_int64_def)
qed

lemma parseFlags_listen: "parseFlags args = Inr c \<Longrightarrow> validateListenAddress (pc_listen_address c) (pc_listen_scope c) = None"
  by (auto simp: parseFlags_def split: sum.splits prod.splits if_splits option.splits)

section \<open>Properties\<close>

text \<open>The proxy and the client library validate a gateway origin alike: the two routines accept the same
  texts and give the same normalised origin.\<close>

theorem gateway_origin_checks_agree: "validateGatewayOrigin raw = Inr u \<longleftrightarrow> normalizeGatewayURL raw = Inr u"
  by (rule validateGatewayOrigin_iff)

text \<open>A listen address is accepted exactly when it is a numeric address with a port from 1 to 65535 that is
  a loopback address in the loopback scope and an unspecified address in the Dappnode scope.\<close>

theorem listen_address_accepted_iff:
  "validateListenAddress address scope = None \<longleftrightarrow>
     (\<exists>host port a n. SplitHostPort address = Inr (host, port) \<and> ParseIP host = Some a \<and>
        (scope = ''loopback'' \<and> IsLoopback a \<or> scope = ''dappnode'' \<and> IsUnspecified a) \<and>
        atoi port = Some n \<and> 1 \<le> n \<and> n \<le> 65535)"
  by (auto simp: validateListenAddress_def check_scope_def listenScopeLoopback_def listenScopeDappnode_def
      split: sum.splits option.splits if_splits)

lemma validateGatewayOrigin_Inr:
  assumes "validateGatewayOrigin raw = Inr origin"
  obtains u where "ParseRequestURI raw = Inr u" "url_scheme u = ''https''" "url_host u \<noteq> []" "\<not> url_user u" "url_path u \<in> {[], ''/''}"
    "url_raw_query u = []" "url_fragment u = []" "origin = url_string ''https'' (url_host u)"
  using assms by (auto simp: validateGatewayOrigin_def split: if_splits sum.splits)

lemma IsLoopback_bytes: "IsLoopback a \<longleftrightarrow> take 12 a = replicate 10 0 @ [255, 255] \<and> a ! 12 = 127 \<or> a = replicate 15 0 @ [1]"
  by (auto simp: IsLoopback_def is_v4_def numeral_eq_Suc)

lemma parseFlags_Inr:
  assumes "parseFlags args = Inr c"
  shows "\<exists>raw. validateGatewayOrigin raw = Inr (pc_gateway_origin c)"
    "0 < pc_attestation_timeout c" "0 < pc_policy_refresh c" "(trim_space (pc_trust_policy_path c) \<noteq> []) \<noteq> pc_policy_updates c"
  using assms by (auto simp: parseFlags_def split: sum.splits prod.splits if_splits option.splits)

text \<open>C39: Command line arguments are accepted only with a gateway origin that is https, a host and nothing else; a listen
  address that is a numeric address with a port from 1 to 65535, in the scope loopback an address of 127.0.0.0/8 or ::1 and
  in the scope dappnode 0.0.0.0 or :: (as the 16 bytes of the address), and there is no other scope; positive
  durations; and either a trust policy file or policy updates, which is one source of policy in the configuration
  given to the client.\<close>

theorem accepted_flags:
  assumes "parseFlags args = Inr c"
  shows "(\<exists>raw u. ParseRequestURI raw = Inr u \<and> url_scheme u = ''https'' \<and> url_host u \<noteq> [] \<and> \<not> url_user u \<and>
      url_path u \<in> {[], ''/''} \<and> url_raw_query u = [] \<and> url_fragment u = [] \<and>
      pc_gateway_origin c = url_string ''https'' (url_host u) \<and> normalizeGatewayURL raw = Inr (pc_gateway_origin c)) \<and>
    (\<exists>host port a n. SplitHostPort (pc_listen_address c) = Inr (host, port) \<and> ParseIP host = Some a \<and>
      (pc_listen_scope c = ''loopback'' \<and>
         (take 12 a = replicate 10 0 @ [255, 255] \<and> a ! 12 = 127 \<or> a = replicate 15 0 @ [1]) \<or>
       pc_listen_scope c = ''dappnode'' \<and> (a = replicate 10 0 @ [255, 255, 0, 0, 0, 0] \<or> a = replicate 16 0)) \<and>
      atoi port = Some n \<and> 1 \<le> n \<and> n \<le> 65535) \<and>
    0 < pc_attestation_timeout c \<and> 0 < pc_policy_refresh c \<and>
    (trim_space (pc_trust_policy_path c) \<noteq> []) \<noteq> pc_policy_updates c \<and> policy_sources (sdk_config c) = 1"
proof -
  obtain raw where raw: "validateGatewayOrigin raw = Inr (pc_gateway_origin c)" using parseFlags_Inr(1) [OF assms] by blast
  then obtain u where u: "ParseRequestURI raw = Inr u" "url_scheme u = ''https''" "url_host u \<noteq> []" "\<not> url_user u"
    "url_path u \<in> {[], ''/''}" "url_raw_query u = []" "url_fragment u = []" "pc_gateway_origin c = url_string ''https'' (url_host u)"
    by (rule validateGatewayOrigin_Inr)
  note address = parseFlags_listen [OF assms, unfolded listen_address_accepted_iff IsLoopback_bytes IsUnspecified_def map_v4_def]
  have "policy_sources (sdk_config c) = 1"
    using parseFlags_Inr(4) [OF assms] by (auto simp: policy_sources_def sdk_config_def)
  with u raw [unfolded validateGatewayOrigin_iff] address parseFlags_Inr(2-4) [OF assms] show ?thesis
    by (intro conjI) (blast, simp_all)
qed

theorem accepted_flags_witness:
  "\<exists>c. parseFlags [''--gateway-url=https://gateway.example/'', ''-trust-policy'', ''policy.json''] = Inr c \<and>
     pc_gateway_origin c = ''https://gateway.example'' \<and> policy_sources (sdk_config c) = 1"
proof -
  have "is_ok (parseFlags [''--gateway-url=https://gateway.example/'', ''-trust-policy'', ''policy.json''])"
    "case parseFlags [''--gateway-url=https://gateway.example/'', ''-trust-policy'', ''policy.json''] of
       Inl e \<Rightarrow> False | Inr c \<Rightarrow> pc_gateway_origin c = ''https://gateway.example''"
    by code_simp+
  then show ?thesis using accepted_flags by (auto split: sum.splits)
qed

end
