(* ===== verification/NexusSafety.thy ===== *)
theory NexusSafety
  imports Nexus
begin

text \<open>
  What holds of the whole client: construction succeeds only after an accepted attestation, every
  operation keeps the invariant that the session comes from accepted evidence, each exchange leaves one
  ledger entry, and \<open>Verify\<close> returns the record of the evidence it has just accepted.
\<close>

section \<open>Evidence\<close>

text \<open>
  The policies a client may trust: a client with a configured policy only that policy, a client that
  follows releases only well-formed policies that pin exactly releases the release workflow signed.
\<close>

definition signed_policy :: "('t, 'v, 'b, 'i) sigstore \<Rightarrow> 'v file_source \<Rightarrow> policy \<Rightarrow> bool" where
  "signed_policy sg s p \<longleftrightarrow> wf_policy p \<and> (\<exists>signed. signed \<noteq> [] \<and> length signed \<le> src_count s \<and>
     list_all (accepted_entry sg s) signed \<and> map release_claims (pol_releases p) = map (manifest_pins \<circ> snd) signed)"

definition trusted_policy ::
    "('t, 'v, 'b, 'i, 'id, 'n) sdk_env \<Rightarrow> 'v file_source option \<Rightarrow> policy \<Rightarrow> policy \<Rightarrow> bool" where
  "trusted_policy env s p0 p \<longleftrightarrow> (case s of None \<Rightarrow> p = p0 | Some src \<Rightarrow> signed_policy (se_sigstore env) src p)"

definition source_limits :: "'v file_source option \<Rightarrow> bool" where
  "source_limits s \<longleftrightarrow> (case s of None \<Rightarrow> True | Some src \<Rightarrow> 1 \<le> src_count src \<and> src_count src \<le> MaxPolicyReleases)"

definition source_wf ::
    "('t, 'v, 'b, 'i, 'id, 'n) sdk_env \<Rightarrow> 'v file_source option \<Rightarrow> policy \<Rightarrow> evidence_source \<Rightarrow> bool" where
  "source_wf env s p0 es \<longleftrightarrow> wf_verifier (inner_verifier es) \<and> source_limits s \<and>
     trusted_policy env s p0 (PolicySnapshot (inner_verifier es))"

text \<open>Evidence that was accepted under a trusted policy.\<close>

definition source_accepted ::
    "('t, 'v, 'b, 'i, 'id, 'n) sdk_env \<Rightarrow> 'v file_source option \<Rightarrow> policy \<Rightarrow> evidence_source \<Rightarrow> evidence \<Rightarrow> bool" where
  "source_accepted env s p0 es ev \<longleftrightarrow> source_wf env s p0 es \<and>
     evidence_accepted (lift_attest (se_attest env)) (inner_verifier es) ev"

lemma Source_Policy_trusted:
  assumes "Source_Policy sg tr s w c = (Inr p, w', c')" "1 \<le> src_count s" "src_count s \<le> MaxPolicyReleases"
  shows "signed_policy sg s p"
proof -
  obtain ms where ms: "wf_policy p" "map release_claims (pol_releases p) = map manifest_pins ms" "ms \<noteq> []"
    "length ms \<le> src_count s" "\<forall>m\<in>set ms. \<exists>e. accepted_entry sg s (e, m)"
    using Source_Policy_signed [OF assms] by metis
  then obtain f where "\<forall>m\<in>set ms. accepted_entry sg s (f m, m)" by metis
  with ms show ?thesis
    unfolding signed_policy_def by (intro conjI exI [of _ "map (\<lambda>m. (f m, m)) ms"]) (simp_all add: list_all_iff)
qed

lemma base_policy_trusted:
  "base_policy env src b = (Inr p, b') \<Longrightarrow> source_limits (Some src) \<Longrightarrow> signed_policy (se_sigstore env) src p"
  by (cases b') (auto simp: base_policy_def source_limits_def split: prod.splits intro: Source_Policy_trusted)

lemma source_verify_keeps:
  assumes "source_wf env s p0 es" "source_verify env s es b = (r, es', b')"
  shows "source_wf env s p0 es'"
proof (cases es)
  case (Direct v)
  then show ?thesis using assms by (auto simp: source_verify_def plain_verify_def split: prod.splits)
next
  case (Following rv)
  obtain r0 rv' where v: "refreshing_Verify (refresh_world env s) rv b = (r0, rv', b')" "es' = Following rv'"
    using assms(2) Following by (auto simp: source_verify_def refreshing_verify_def split: prod.splits)
  have wf: "wf_verifier (rv_inner rv')"
    using refreshing_Verify_keeps(1) [OF v(1)] assms(1) Following by (simp add: source_wf_def)
  from v(1) show ?thesis
  proof (cases rule: refreshing_Verify_policy)
    case 1
    then show ?thesis using assms(1) Following v(2) wf by (simp add: source_wf_def)
  next
    case (2 w1 w2 p q)
    then obtain src where src: "s = Some src" "base_policy env src w1 = (Inr p, w2)"
      by (auto simp: refresh_world_def split: option.splits)
    have "signed_policy (se_sigstore env) src p"
      using base_policy_trusted [OF src(2)] assms(1) src(1) by (simp add: source_wf_def)
    moreover from this have "q = p" using 2(2) policy_validate_wf [of p] by (simp add: signed_policy_def)
    ultimately show ?thesis
      using assms(1) Following v(2) wf 2(3) src(1) by (simp add: source_wf_def trusted_policy_def PolicySnapshot_def)
  qed
qed

interpretation sdk_evidence: evidence_verifier "source_verify env s" "source_wf env s p0" "source_accepted env s p0"
  for env :: "('t, 'v, 'b, 'i, 'id, 'n) sdk_env" and s :: "'v file_source option" and p0 :: policy
proof
  fix es r es' and b b' :: "'n base"
  show "source_wf env s p0 es \<Longrightarrow> source_verify env s es b = (r, es', b') \<Longrightarrow> source_wf env s p0 es'"
    by (rule source_verify_keeps)
next
  fix es evo es' and b b' :: "'n base"
  assume a: "source_wf env s p0 es" "source_verify env s es b = (Inr evo, es', b')"
  note k = source_verify_keeps [OF a]
  show "\<exists>ev. evo = Some ev \<and> source_accepted env s p0 es' ev"
  proof (cases es)
    case (Direct v)
    then obtain v' where v: "plain_verify (lift_attest (se_attest env)) v b = (Inr evo, v', b')" "es' = Direct v'"
      using a by (auto simp: source_verify_def split: prod.splits)
    with plain.verify_sound [of v "lift_attest (se_attest env)"] a(1) Direct k show ?thesis
      by (auto simp: source_accepted_def source_wf_def)
  next
    case (Following rv)
    then obtain rv' where v: "refreshing_verify (refresh_world env s) rv b = (Inr evo, rv', b')" "es' = Following rv'"
      using a by (auto simp: source_verify_def split: prod.splits)
    with refreshing.verify_sound [of rv "refresh_world env s"] a(1) Following k show ?thesis
      by (auto simp: source_accepted_def source_wf_def refresh_world_def)
  qed
qed

lemma set_inner_simps [simp]: "inner_verifier (set_inner v es) = v"
  by (cases es) simp_all

section \<open>The handler's environment\<close>

lemma markDirty_log [simp]: "request_log (Some (markDirty l)) = request_log (Some l)"
  by (simp add: request_log_def markDirty_def split: option.splits)

lemma record_log:
  "request_log (RecordRejected f t lo) = request_log lo" "request_log (RecordVerified a d m t lo) = request_log lo"
  by (simp_all add: RecordRejected_def RecordVerified_def Let_def split: option.splits) (simp_all add: request_log_def)

lemma record_rejected_log: "record_rejected c f st w = (st', w') \<Longrightarrow> request_log (cs_ledger st') = request_log (cs_ledger st)"
  by (auto simp: record_rejected_def record_log split: option.splits prod.splits)

lemma record_verified_log: "record_verified c i ev st w = (st', w') \<Longrightarrow> request_log (cs_ledger st') = request_log (cs_ledger st)"
  by (auto simp: record_verified_def record_log split: option.splits prod.splits if_splits)

lemma new_session_ledger: "new_session i ev st = (s, st') \<Longrightarrow> cs_ledger st' = cs_ledger st"
  by (auto simp: new_session_def Let_def)

lemma establish_log: "establish env st v w = (r, st', v', w') \<Longrightarrow> request_log (cs_ledger st') = request_log (cs_ledger st)"
proof (cases r)
  case (Inl e)
  assume "establish env st v w = (r, st', v', w')"
  then obtain f w1 where "st' = fst (record_rejected (ce_now env) f st w1)" using establish_Inl(3) Inl by metis
  then show ?thesis using record_rejected_log by (metis prod.collapse)
next
  case (Inr s)
  assume "establish env st v w = (r, st', v', w')"
  with Inr have "establish env st v w = (Inr s, st', v', w')" by simp
  then obtain ev w1 where "cs_ledger st' = cs_ledger (fst (record_verified (ce_now env) (ss_attestation_id s) ev st w1))"
    by (rule establish_Inr) blast
  then show ?thesis using record_verified_log by (metis prod.collapse)
qed

lemma Do_log:
  assumes "Do env a acc ua body st v w = (r, st', v', w')"
  shows "request_log (cs_ledger st') = request_log (cs_ledger st)"
proof (cases "body = []")
  case True
  then show ?thesis using assms by (auto simp: Do_def)
next
  case False
  obtain sr st1 v1 w1 where sf: "sessionFor env st v w = (sr, st1, v1, w1)" by (metis surj_pair)
  then have l: "request_log (cs_ledger st1) = request_log (cs_ledger st)"
    by (cases rule: sessionFor_cases) (auto dest: establish_log)
  have ae: "after_exchange env s res st1 = (r2, st2) \<Longrightarrow> cs_ledger st2 = cs_ledger st1" for s res r2 st2
    by (auto simp: after_exchange_def invalidate_def split: sum.splits option.splits if_splits)
  have "cs_ledger st' = cs_ledger st1"
    using assms False sf by (auto simp: Do_def dest: ae split: sum.splits prod.splits)
  with l show ?thesis by simp
qed

lemma with_base_state: "with_base f w = (x, w') \<Longrightarrow> sw_state w' = sw_state w \<and> sw_evidence w' = sw_evidence w"
  by (auto simp: with_base_def split: prod.splits)

interpretation sdk_world: handler_world "sdk_handler env nc"
  for env :: "('t, 'v, 'b, 'i, 'id, 'n) sdk_env" and nc :: "'v nexus_client"
proof
  fix w w' :: "('id, 'n) sdk_world" and l t ident f c a acc ua body r
  show "h_ledger (sdk_handler env nc) (h_set_ledger (sdk_handler env nc) l w) = l" by (simp add: sdk_handler_def)
  show "h_now (sdk_handler env nc) w = (t, w') \<Longrightarrow> h_ledger (sdk_handler env nc) w' = h_ledger (sdk_handler env nc) w"
    by (auto simp: sdk_handler_def dest: with_base_state)
  show "h_new_id (sdk_handler env nc) w = (ident, w') \<Longrightarrow> h_ledger (sdk_handler env nc) w' = h_ledger (sdk_handler env nc) w"
    by (auto simp: sdk_handler_def dest: with_base_state)
  show "h_catalog (sdk_handler env nc) = Some f \<Longrightarrow> f w = (c, w') \<Longrightarrow>
      h_ledger (sdk_handler env nc) w' = h_ledger (sdk_handler env nc) w"
    by (auto simp: sdk_handler_def dest: with_base_state)
  show "h_sender (sdk_handler env nc) a acc ua body w = (r, w') \<Longrightarrow>
      request_log (h_ledger (sdk_handler env nc) w') = request_log (h_ledger (sdk_handler env nc) w)"
    by (auto simp: sdk_handler_def sdk_do_def split: prod.splits dest: Do_log)
qed

section \<open>What every operation keeps\<close>

text \<open>The handler keeps what its environment keeps.\<close>

locale handler_keeps =
  fixes h :: "'w handler" and inv :: "'w \<Rightarrow> bool"
  assumes keep_record: "inv w \<Longrightarrow> inv (h_set_ledger h (RecordRequest rc (h_ledger h w)) w)"
    and keep_now: "inv w \<Longrightarrow> h_now h w = (t, w') \<Longrightarrow> inv w'"
    and keep_id: "inv w \<Longrightarrow> h_new_id h w = (ident, w') \<Longrightarrow> inv w'"
    and keep_catalog: "inv w \<Longrightarrow> h_catalog h = Some f \<Longrightarrow> f w = (c, w') \<Longrightarrow> inv w'"
    and keep_sender: "inv w \<Longrightarrow> h_sender h a acc ua body w = (r, w') \<Longrightarrow> inv w'"
begin

lemma exchange_keeps:
  assumes "inv w" "exchange_and_record h r requestID n envelope rw w = (rw', en, w')"
  shows "inv w'"
proof -
  obtain started w1 where t1: "h_now h w = (started, w1)" by force
  obtain res ident w2 where s: "h_sender h (header_get (lr_header r) ''Authorization'') (header_get (lr_header r) ''Accept'')
       (header_get (lr_header r) ''User-Agent'') envelope w1 = ((res, ident), w2)" by (metis surj_pair)
  obtain fin w3 where t2: "h_now h w2 = (fin, w3)" by force
  have "inv w3" by (rule keep_now [OF keep_sender [OF keep_now [OF assms(1) t1] s] t2])
  then show ?thesis using assms(2) t1 s t2 by (auto simp: exchange_and_record_def split: prod.splits intro: keep_record)
qed

lemma chat_keeps:
  assumes "inv w" "serveChat h r rw w = (rw', en, w')"
  shows "inv w'"
proof (cases "check_chat_request r")
  case (Inl e)
  then show ?thesis using assms by (cases e) (simp add: serveChat_def)
next
  case (Inr body)
  obtain i w1 where i: "h_new_id h w = (i, w1)" by force
  have w1: "inv w1" by (rule keep_id [OF assms(1) i])
  obtain t w2 where t: "h_now h w1 = (t, w2)" by force
  have w2: "inv w2" by (rule keep_now [OF w1 t])
  show ?thesis
  proof (cases i)
    case (Inl e)
    then show ?thesis using assms(2) Inr i w1 by (simp add: serveChat_def)
  next
    case i2: (Inr ident)
    show ?thesis
      using assms(2) Inr i t i2 w2
      by (cases "enc_envelope ident t body") (auto simp: serveChat_def intro: exchange_keeps)
  qed
qed

lemma serve_keeps: "inv w \<Longrightarrow> ServeHTTP h r rw w = (rw', en, w') \<Longrightarrow> inv w'"
proof -
  assume i: "inv w" and s: "ServeHTTP h r rw w = (rw', en, w')"
  have chat: "inv w1" if "serveChat h r rw0 w = (rw1, en1, w1)" for rw0 rw1 en1 w1
    by (rule chat_keeps [OF i that])
  have api: "inv w1" if "serveVerificationAPI h r rw0 w = (rw1, w1)" for rw0 rw1 w1
    using that i by (auto simp: serveVerificationAPI_def Let_def split: option.splits prod.splits sum.splits dest: keep_now)
  have models: "inv w1" if "serveModels h r rw0 w = (rw1, w1)" for rw0 rw1 w1
    using that i by (auto simp: serveModels_def split: option.splits prod.splits sum.splits if_splits dest: keep_catalog)
  show ?thesis using s i chat api models by (auto simp: ServeHTTP_def Let_def split: if_splits prod.splits)
qed

end

definition sdk_inv ::
    "('t, 'v, 'b, 'i, 'id, 'n) sdk_env \<Rightarrow> 'v file_source option \<Rightarrow> policy \<Rightarrow> ('id, 'n) sdk_world \<Rightarrow> bool" where
  "sdk_inv env s p0 w \<longleftrightarrow> source_wf env s p0 (sw_evidence w) \<and> client_inv (lift_ehbp (se_ehbp env)) (source_accepted env s p0) (sw_state w)"

lemma confidential_env_simps [simp]:
  "ce_verify (confidential_env env s u) = source_verify env s" "ce_ehbp (confidential_env env s u) = lift_ehbp (se_ehbp env)"
  "ce_endpoint (confidential_env env s u) = u @ ConfidentialEndpoint"
  "ce_now (confidential_env env s u) = lift_net (ae_now (se_attest env))"
  by (simp_all add: confidential_env_def)

lemma sdk_do_inv:
  assumes "sdk_inv env (nc_source nc) p0 w" "sdk_do env nc a acc ua body w = (r, w')"
  shows "sdk_inv env (nc_source nc) p0 w'"
proof -
  obtain r1 ident st es b where d: "Do (confidential_env env (nc_source nc) (nc_gateway_url nc)) a acc ua body (sw_state w)
      (sw_evidence w) (sw_base w) = ((r1, ident), st, es, b)" by (metis surj_pair)
  have i: "source_wf env (nc_source nc) p0 (sw_evidence w)" "client_inv (ce_ehbp (confidential_env env (nc_source nc) (nc_gateway_url nc))) (source_accepted env (nc_source nc) p0) (sw_state w)"
    using assms(1) by (simp_all add: sdk_inv_def)
  have "source_wf env (nc_source nc) p0 es \<and> client_inv (ce_ehbp (confidential_env env (nc_source nc) (nc_gateway_url nc))) (source_accepted env (nc_source nc) p0) st"
    by (rule sdk_evidence.Do_accepted(1) [OF _ i d]) simp
  then show ?thesis using assms d by (auto simp: sdk_inv_def sdk_do_def)
qed

interpretation sdk_keeps: handler_keeps "sdk_handler env nc" "sdk_inv env (nc_source nc) p0"
  for env :: "('t, 'v, 'b, 'i, 'id, 'n) sdk_env" and nc :: "'v nexus_client" and p0 :: policy
proof
  fix w w' :: "('id, 'n) sdk_world" and l t ident f c a acc ua body r
  assume i: "sdk_inv env (nc_source nc) p0 w"
  show "sdk_inv env (nc_source nc) p0
      (h_set_ledger (sdk_handler env nc) (RecordRequest rc (h_ledger (sdk_handler env nc) w)) w)" for rc
    using i by (simp add: sdk_handler_def sdk_inv_def client_inv_def)
  show "h_now (sdk_handler env nc) w = (t, w') \<Longrightarrow> sdk_inv env (nc_source nc) p0 w'"
    using i by (auto simp: sdk_handler_def sdk_inv_def dest: with_base_state)
  show "h_new_id (sdk_handler env nc) w = (ident, w') \<Longrightarrow> sdk_inv env (nc_source nc) p0 w'"
    using i by (auto simp: sdk_handler_def sdk_inv_def dest: with_base_state)
  show "h_catalog (sdk_handler env nc) = Some f \<Longrightarrow> f w = (c, w') \<Longrightarrow> sdk_inv env (nc_source nc) p0 w'"
    using i by (auto simp: sdk_handler_def sdk_inv_def dest: with_base_state)
  show "h_sender (sdk_handler env nc) a acc ua body w = (r, w') \<Longrightarrow> sdk_inv env (nc_source nc) p0 w'"
    using sdk_do_inv [OF i] by (simp add: sdk_handler_def)
qed

lemma WarmUp_inv:
  assumes "WarmUp (confidential_env env s u) st es b = (r, st', es', b')" "source_wf env s p0 es"
    "client_inv (lift_ehbp (se_ehbp env)) (source_accepted env s p0) st"
  shows "source_wf env s p0 es'" "client_inv (lift_ehbp (se_ehbp env)) (source_accepted env s p0) st'"
proof -
  obtain sr where sf: "sessionFor (confidential_env env s u) st es b = (sr, st', es', b')"
    using assms(1) by (auto simp: WarmUp_def split: prod.splits sum.splits)
  have v: "ce_verify (confidential_env env s u) = source_verify env s" by simp
  have c: "client_inv (ce_ehbp (confidential_env env s u)) (source_accepted env s p0) st" using assms(3) by simp
  show "source_wf env s p0 es'" by (rule sdk_evidence.sessionFor_accepted(1) [OF v assms(2) c sf])
  show "client_inv (lift_ehbp (se_ehbp env)) (source_accepted env s p0) st'"
    using sdk_evidence.sessionFor_accepted(2) [OF v assms(2) c sf] by simp
qed

text \<open>Over a gateway that answers alike whatever is in a request, the client's requests are alike.\<close>

lemma sdk_do_content:
  assumes "\<And>i req b1 b2 n. eh_transport (se_ehbp env) i (req\<lparr>req_body := b1\<rparr>) n = eh_transport (se_ehbp env) i (req\<lparr>req_body := b2\<rparr>) n"
    "e1 \<noteq> []" "e2 \<noteq> []"
  shows "sdk_do env nc a acc ua e1 w = sdk_do env nc a acc ua e2 w"
proof -
  have "eh_transport (ce_ehbp (confidential_env env s u)) i (req\<lparr>req_body := b1\<rparr>) b =
      eh_transport (ce_ehbp (confidential_env env s u)) i (req\<lparr>req_body := b2\<rparr>) b" for s u i req b1 b2 b
  proof -
    have e: "eh_transport (se_ehbp env) i (req\<lparr>req_body := b1\<rparr>) (fst b) = eh_transport (se_ehbp env) i (req\<lparr>req_body := b2\<rparr>) (fst b)"
      by (rule assms(1))
    show ?thesis by (simp add: lift_ehbp_def lift_transport_def lift_net_def e)
  qed
  from Do_content [OF this assms(2,3)] show ?thesis by (simp add: sdk_do_def)
qed

section \<open>Reachable clients\<close>

text \<open>
  The operations of a client in any order: a local request, an explicit verification, a tick of the
  background refresh, a flush, and anything the outside world does to the base.
\<close>

inductive sdk_step :: "('t, 'v, 'b, 'i, 'id, 'n) sdk_env \<Rightarrow> 'v nexus_client \<Rightarrow> ('id, 'n) sdk_world \<Rightarrow> ('id, 'n) sdk_world \<Rightarrow> bool"
  for env nc where
  serve: "sdk_serve env nc r rw w = (rw', en, w') \<Longrightarrow> sdk_step env nc w w'"
| verify: "Nexus_Verify env nc w = (r, w') \<Longrightarrow> sdk_step env nc w w'"
| tick: "nc_source nc = Some s \<Longrightarrow> sdk_step env nc w (policy_refresh_tick env s w)"
| flush: "Nexus_Flush env w = (e, w') \<Longrightarrow> sdk_step env nc w w'"
| outside: "sdk_step env nc w (w\<lparr>sw_base := b\<rparr>)"

lemma Verification_state: "Verification env w = (sn, w') \<Longrightarrow> sw_state w' = sw_state w \<and> sw_evidence w' = sw_evidence w"
  by (auto simp: Verification_def split: prod.splits dest: with_base_state)

lemma Nexus_Verify_inv:
  assumes "sdk_inv env (nc_source nc) p0 w" "Nexus_Verify env nc w = (r, w')"
  shows "sdk_inv env (nc_source nc) p0 w'"
proof -
  obtain e st es b where v: "Reverify (confidential_env env (nc_source nc) (nc_gateway_url nc)) (sw_state w) (sw_evidence w)
      (sw_base w) = (e, st, es, b)" by (metis surj_pair)
  have "client_inv (lift_ehbp (se_ehbp env)) (source_accepted env (nc_source nc) p0) (discard_session (sw_state w))" by (rule client_inv_discard)
  from WarmUp_inv [OF v [unfolded Reverify_def] _ this] assms(1)
  have k: "source_wf env (nc_source nc) p0 es" "client_inv (lift_ehbp (se_ehbp env)) (source_accepted env (nc_source nc) p0) st" by (simp_all add: sdk_inv_def)
  have "sw_state w' = st \<and> sw_evidence w' = es"
    using assms(2) v
    by (cases e) (auto simp: Nexus_Verify_def split: prod.splits option.splits dest: Verification_state)
  with k show ?thesis by (simp add: sdk_inv_def)
qed

text \<open>What a background refresh does to the verifier, at any moment.\<close>

definition background_refresh ::
    "('t, 'v, 'b, 'i, 'id, 'n) sdk_env \<Rightarrow> 'v file_source option \<Rightarrow> evidence_source \<Rightarrow> evidence_source \<Rightarrow> bool" where
  "background_refresh env s es es' \<longleftrightarrow> (\<exists>src p b b'. s = Some src \<and> base_policy env src b = (Inr p, b') \<and>
     es' = set_inner (snd (SetPolicy (inner_verifier es) (Some p))) es)"

lemma background_refresh_wf:
  assumes "background_refresh env s es es'" "source_wf env s p0 es"
  shows "source_wf env s p0 es'"
proof -
  obtain src p b b' where r: "s = Some src" "base_policy env src b = (Inr p, b')"
    "es' = set_inner (snd (SetPolicy (inner_verifier es) (Some p))) es"
    using assms(1) unfolding background_refresh_def by blast
  obtain e v where sp: "SetPolicy (inner_verifier es) (Some p) = (e, v)" by force
  have t: "signed_policy (se_sigstore env) src p" using base_policy_trusted [OF r(2)] assms(2) r(1) by (simp add: source_wf_def)
  then have "policy_validate p = Inr p" by (simp add: signed_policy_def policy_validate_wf)
  then have "v_policy v = p" using sp by (auto simp: SetPolicy_def)
  moreover have "wf_verifier v" using SetPolicy_wf [OF _ sp] assms(2) by (simp add: source_wf_def)
  ultimately show ?thesis
    using assms(2) r sp t by (simp add: source_wf_def trusted_policy_def PolicySnapshot_def)
qed

lemma policy_refresh_tick_verifier:
  "sw_evidence (policy_refresh_tick env s w) = sw_evidence w \<or>
   background_refresh env (Some s) (sw_evidence w) (sw_evidence (policy_refresh_tick env s w))"
proof -
  obtain r b where b: "base_policy env s (sw_base w) = (r, b)" by (metis surj_pair)
  show ?thesis
  proof (cases r)
    case (Inr p)
    obtain e v where "SetPolicy (inner_verifier (sw_evidence w)) (Some p) = (e, v)" by force
    with b Inr have "sw_evidence (policy_refresh_tick env s w) =
        set_inner (snd (SetPolicy (inner_verifier (sw_evidence w)) (Some p))) (sw_evidence w)"
      by (simp add: policy_refresh_tick_def)
    with b Inr show ?thesis unfolding background_refresh_def by metis
  qed (use b in \<open>simp add: policy_refresh_tick_def\<close>)
qed

lemma policy_refresh_tick_inv:
  assumes "sdk_inv env (Some s) p0 w"
  shows "sdk_inv env (Some s) p0 (policy_refresh_tick env s w)"
proof -
  have "source_wf env (Some s) p0 (sw_evidence (policy_refresh_tick env s w))"
    using policy_refresh_tick_verifier [of env s w] background_refresh_wf assms by (auto simp: sdk_inv_def)
  moreover have "sw_state (policy_refresh_tick env s w) = sw_state w"
    by (simp add: policy_refresh_tick_def split: prod.split sum.split)
  ultimately show ?thesis using assms by (simp add: sdk_inv_def)
qed

lemma Nexus_Flush_inv: "sdk_inv env s p0 w \<Longrightarrow> Nexus_Flush env w = (e, w') \<Longrightarrow> sdk_inv env s p0 w'"
  by (auto simp: Nexus_Flush_def sdk_inv_def client_inv_def split: prod.splits dest: with_base_state)

lemma sdk_step_inv: "sdk_step env nc w w' \<Longrightarrow> sdk_inv env (nc_source nc) p0 w \<Longrightarrow> sdk_inv env (nc_source nc) p0 w'"
proof (induction rule: sdk_step.induct)
  case (serve r rw w rw' en w')
  then show ?case using sdk_keeps.serve_keeps by (simp add: sdk_serve_def)
next
  case (outside w b)
  then show ?case by (simp add: sdk_inv_def)
next
  case (tick s w)
  then show ?case using policy_refresh_tick_inv [of env s p0 w] by simp
qed (auto intro: Nexus_Verify_inv Nexus_Flush_inv)

lemma sdk_steps_inv: "(sdk_step env nc)\<^sup>*\<^sup>* w w' \<Longrightarrow> sdk_inv env (nc_source nc) p0 w \<Longrightarrow> sdk_inv env (nc_source nc) p0 w'"
  by (induction rule: rtranclp_induct) (auto dest: sdk_step_inv)

section \<open>Construction and verification succeed only after an accepted attestation\<close>

text \<open>The ledger's newest record is a successful verification with this identifier.\<close>

definition newest_verified :: "ledger option \<Rightarrow> string \<Rightarrow> bool" where
  "newest_verified lo ident \<longleftrightarrow> (\<exists>l. lo = Some l \<and> l_attestations l \<noteq> [] \<and>
     at_outcome (last (l_attestations l)) = OutcomeVerified \<and> at_id (last (l_attestations l)) = ident)"

lemma appendCapped_last: "0 < limit \<Longrightarrow> appendCapped xs x limit \<noteq> [] \<and> last (appendCapped xs x limit) = x"
  by (cases xs rule: rev_cases) (auto simp: appendCapped_def list_update_append)

lemma RecordVerified_newest:
  "newest_verified (RecordVerified (fst (describeEvidence ident ev t)) d m now (Some l)) ident"
proof -
  let ?r = "verified_record (fst (describeEvidence ident ev t)) d m now"
  have r: "at_outcome ?r = OutcomeVerified" "at_id ?r = ident"
    by (simp_all add: verified_record_def describeEvidence_def Let_def)
  have "0 < maxAttestations" by (simp add: maxAttestations_def)
  from appendCapped_last [OF this, of "l_attestations l" ?r] r show ?thesis
    by (auto simp: newest_verified_def RecordVerified_def markDirty_def split: option.splits)
qed

lemma record_verified_newest:
  assumes "cs_ledger st \<noteq> None" "record_verified c ident ev st w = (st', w')"
  shows "newest_verified (cs_ledger st') ident"
proof -
  obtain l where l: "cs_ledger st = Some l" using assms(1) by blast
  obtain t w1 where t: "c w = (t, w1)" by force
  obtain rc d m where r: "describeEvidence ident ev t = (rc, d, m)" by (metis surj_pair)
  from RecordVerified_newest [of ident ev t] r have n: "newest_verified (RecordVerified rc d m now (Some l)) ident" for now
    by simp
  show ?thesis using assms(2) l t r n by (auto simp: record_verified_def split: if_splits prod.splits)
qed

lemma WarmUp_verified:
  assumes "WarmUp (confidential_env env s u) st es b = (None, st', es', b')" "source_wf env s p0 es" "cs_session st = None"
    "cs_ledger st \<noteq> None"
  obtains ss ev where "cs_session st' = Some ss" "source_accepted env s p0 es' ev" "session_of (lift_ehbp (se_ehbp env)) ev ss"
    "newest_verified (cs_ledger st') (ss_attestation_id ss)"
proof -
  obtain ss where "sessionFor (confidential_env env s u) st es b = (Inr ss, st', es', b')"
    using assms(1) by (auto simp: WarmUp_def split: prod.splits sum.splits)
  then have "establish (confidential_env env s u) st es b = (Inr ss, st', es', b')"
    using assms(3) by (simp add: sessionFor_def)
  then obtain ev w1 where e: "source_verify env s es b = (Inr (Some ev), es', w1)"
    "session_of (lift_ehbp (se_ehbp env)) ev ss" "cs_session st' = Some ss"
    "cs_ledger st' = cs_ledger (fst (record_verified (lift_net (ae_now (se_attest env))) (ss_attestation_id ss) ev st
        (snd (lift_net (ae_now (se_attest env)) w1))))"
    by (rule establish_Inr) simp
  have "source_accepted env s p0 es' ev" using sdk_evidence.verify_sound [OF assms(2) e(1)] by simp
  moreover have "newest_verified (cs_ledger st') (ss_attestation_id ss)"
    unfolding e(4) using record_verified_newest [OF assms(4)] by (metis prod.collapse)
  ultimately show ?thesis using e that by blast
qed

lemma NewConfidentialClient_state: "NewConfidentialClient ep v c = Inr st \<Longrightarrow> cs_session st = None"
  by (auto simp: NewConfidentialClient_def split: sum.splits if_splits option.splits)

lemma NewVerifier_policy: "NewVerifier ep (Some p) c = Inr v \<Longrightarrow> wf_policy p \<Longrightarrow> v_policy v = p"
  by (auto simp: NewVerifier_def Let_def policy_validate_wf split: sum.splits option.splits if_splits)

definition first_source :: "'v file_source option \<Rightarrow> verifier \<Rightarrow> evidence_source" where
  "first_source s v = (if s = None then Direct v else Following (newRefreshingVerifier v))"

lemma first_source_wf:
  assumes v: "NewVerifier ep (Some p0) c = Inr v" and p: "wf_policy p0" "source_limits s" "trusted_policy env s p0 p0"
  shows "source_wf env s p0 (first_source s v)"
  using NewVerifier_wf [OF v] NewVerifier_policy [OF v p(1)] p(2,3)
  by (cases s) (simp_all add: first_source_def source_wf_def newRefreshingVerifier_def PolicySnapshot_def)

lemma start_client_warm:
  fixes env :: "('t, 'v, 'b, 'i, 'id, 'n) sdk_env"
  assumes "start_client env c u s p0 b = (Inr w, b')"
  obtains v and st0 :: "'id client_state" and l st es'
  where "NewVerifier (u @ ''/v1/attestation'') (Some p0) (Some rejecting_client) = Inr v"
    "NewConfidentialClient (u @ ConfidentialEndpoint) (Some (source_verify env s)) (Some rejecting_client) = Inr st0"
    "initial_ledger c b = Inr l"
    "WarmUp (confidential_env env s u) (WithLedger (Some l) st0) (first_source s v) b = (None, st, es', b')"
    "w = \<lparr>sw_state = st, sw_evidence = es', sw_base = b'\<rparr>"
proof -
  obtain v where v: "NewVerifier (u @ ''/v1/attestation'') (Some p0) (Some rejecting_client) = Inr v"
    using assms by (auto simp: start_client_def split: sum.splits)
  obtain st0 :: "'id client_state" where n: "NewConfidentialClient (u @ ConfidentialEndpoint) (Some (source_verify env s)) (Some rejecting_client) = Inr st0"
    using assms v by (auto simp: start_client_def Let_def split: sum.splits)
  obtain l where l: "initial_ledger c b = Inr l"
    using assms v n by (auto simp: start_client_def Let_def split: sum.splits)
  obtain st es' where "WarmUp (confidential_env env s u) (WithLedger (Some l) st0) (first_source s v) b = (None, st, es', b')"
    "w = \<lparr>sw_state = st, sw_evidence = es', sw_base = b'\<rparr>"
    using assms v n l by (auto simp: start_client_def Let_def first_source_def split: prod.splits option.splits)
  then show ?thesis by (rule that [OF v n l])
qed

lemma start_client_verified:
  fixes env :: "('t, 'v, 'b, 'i, 'id, 'n) sdk_env"
  assumes "start_client env c u s p0 b = (Inr w, b')" "wf_policy p0" "source_limits s" "trusted_policy env s p0 p0"
  obtains ss ev where "sdk_inv env s p0 w" "cs_session (sw_state w) = Some ss" "source_accepted env s p0 (sw_evidence w) ev"
    "session_of (lift_ehbp (se_ehbp env)) ev ss" "newest_verified (cs_ledger (sw_state w)) (ss_attestation_id ss)"
proof -
  obtain v and st0 :: "'id client_state" and l st es'
  where v: "NewVerifier (u @ ''/v1/attestation'') (Some p0) (Some rejecting_client) = Inr v"
    and st0: "NewConfidentialClient (u @ ConfidentialEndpoint) (Some (source_verify env s)) (Some rejecting_client) = Inr st0"
    and wu: "WarmUp (confidential_env env s u) (WithLedger (Some l) st0) (first_source s v) b = (None, st, es', b')"
      "w = \<lparr>sw_state = st, sw_evidence = es', sw_base = b'\<rparr>"
    by (rule start_client_warm [OF assms(1)])
  have wf: "source_wf env s p0 (first_source s v)" by (rule first_source_wf [OF v assms(2-4)])
  have st: "cs_session (WithLedger (Some l) st0) = None" "cs_ledger (WithLedger (Some l) st0) \<noteq> None"
    using NewConfidentialClient_state [OF st0] by (simp_all add: WithLedger_def)
  have "client_inv (lift_ehbp (se_ehbp env)) (source_accepted env s p0) (WithLedger (Some l) st0)" by (rule client_inv_new [OF st0])
  from WarmUp_inv [OF wu(1) wf this] have "sdk_inv env s p0 w" by (simp add: sdk_inv_def wu(2))
  moreover obtain ss ev where "cs_session st = Some ss" "source_accepted env s p0 es' ev" "session_of (lift_ehbp (se_ehbp env)) ev ss"
    "newest_verified (cs_ledger st) (ss_attestation_id ss)"
    using WarmUp_verified [OF wu(1) wf st] by blast
  ultimately show ?thesis using that wu(2) by simp
qed

lemma initial_policy_trusted:
  assumes "initial_policy env c b = (Inr (s, p0), b')"
  shows "wf_policy p0" "source_limits s" "trusted_policy env s p0 p0"
proof -
  have "wf_policy p0 \<and> source_limits s \<and> trusted_policy env s p0 p0"
  proof (cases "nx_updates c")
    case None
    then have "loadStaticPolicy (snd (snd b)) c = Inr p0" "s = None"
      using assms by (auto simp: initial_policy_def split: sum.splits)
    then show ?thesis
      by (auto simp: loadStaticPolicy_def LoadPolicy_def source_limits_def trusted_policy_def
          split: if_splits sum.splits dest: ParsePolicy_wf)
  next
    case (Some u)
    then obtain src where src: "newReleaseSource (se_sigstore env) (se_root_json env) u rejecting_client = Inr src"
      "base_policy env src b = (Inr p0, b')" "s = Some src"
      using assms by (auto simp: initial_policy_def split: sum.splits prod.splits)
    from src(1) have l: "source_limits (Some src)"
      by (auto simp: newReleaseSource_def source_limits_def split: sum.splits if_splits dest: NewSource_guarded)
    from base_policy_trusted [OF src(2) l] l src(3) show ?thesis
      by (simp add: trusted_policy_def signed_policy_def)
  qed
  then show "wf_policy p0" "source_limits s" "trusted_policy env s p0 p0" by simp_all
qed

lemma New_verified:
  assumes "New env c b = (Inr (nc, w), b')"
  obtains p0 b1 ss ev where "initial_policy env c b = (Inr (nc_source nc, p0), b1)" "sdk_inv env (nc_source nc) p0 w"
    "cs_session (sw_state w) = Some ss" "source_accepted env (nc_source nc) p0 (sw_evidence w) ev"
    "session_of (lift_ehbp (se_ehbp env)) ev ss" "newest_verified (cs_ledger (sw_state w)) (ss_attestation_id ss)"
proof -
  obtain u p0 b1 b2 where c: "initial_policy env c b = (Inr (nc_source nc, p0), b1)"
    "start_client env c u (nc_source nc) p0 b1 = (Inr w, b2)"
    using assms by (cases b') (auto simp: New_def split: sum.splits prod.splits)
  from c(2) initial_policy_trusted [OF c(1)] show ?thesis
    by (rule start_client_verified) (rule that [OF c(1)])
qed

lemma Snapshot_newest:
  assumes "newest_verified (Some l) ident"
  obtains a where "sn_current (Snapshot now l) = Some a" "at_id a = ident" "at_outcome a = OutcomeVerified"
  using assms by (auto simp: newest_verified_def Snapshot_status public_view_def)

text \<open>An explicit verification returns the record of the evidence it has just accepted.\<close>

lemma Nexus_Verify_record:
  assumes "sdk_inv env (nc_source nc) p0 w" "cs_ledger (sw_state w) \<noteq> None" "Nexus_Verify env nc w = (r, w')"
  shows "case r of Inl e \<Rightarrow> (\<exists>cause. e = Wrapf ''verify Gateway: '' cause [] \<and>
      fst (Reverify (confidential_env env (nc_source nc) (nc_gateway_url nc)) (sw_state w) (sw_evidence w) (sw_base w)) = Some cause)
    | Inr a \<Rightarrow> pa_outcome a = OutcomeVerified \<and> (\<exists>ss ev. cs_session (sw_state w') = Some ss \<and>
        source_accepted env (nc_source nc) p0 (sw_evidence w') ev \<and> session_of (lift_ehbp (se_ehbp env)) ev ss \<and> pa_id a = ss_attestation_id ss)"
proof -
  obtain e st es b where v: "Reverify (confidential_env env (nc_source nc) (nc_gateway_url nc)) (sw_state w) (sw_evidence w)
      (sw_base w) = (e, st, es, b)" by (metis surj_pair)
  show ?thesis
  proof (cases e)
    case (Some cause)
    then show ?thesis using assms(3) v by (auto simp: Nexus_Verify_def)
  next
    case None
    have st: "cs_session (discard_session (sw_state w)) = None" "cs_ledger (discard_session (sw_state w)) \<noteq> None"
      "source_wf env (nc_source nc) p0 (sw_evidence w)" using assms(1,2) by (simp_all add: discard_session_def sdk_inv_def)
    obtain ss ev where s: "cs_session st = Some ss" "source_accepted env (nc_source nc) p0 es ev" "session_of (lift_ehbp (se_ehbp env)) ev ss"
      "newest_verified (cs_ledger st) (ss_attestation_id ss)"
      using WarmUp_verified [OF v [unfolded None Reverify_def] st(3) st(1,2)] by blast
    obtain sn w2 where vf: "Verification env \<lparr>sw_state = st, sw_evidence = es, sw_base = b\<rparr> = (sn, w2)" by force
    obtain l where l: "cs_ledger st = Some l" using s(4) by (auto simp: newest_verified_def)
    obtain now where "sn = snapshotFromLedger (Snapshot now l)" using vf l by (auto simp: Verification_def split: prod.splits)
    moreover obtain a where "sn_current (Snapshot now l) = Some a" "at_id a = ss_attestation_id ss" "at_outcome a = OutcomeVerified"
      using Snapshot_newest s(4) l by metis
    ultimately have cur: "pn_current sn = Some (attestationFromLedger a)" "pa_id (attestationFromLedger a) = ss_attestation_id ss"
      "pa_outcome (attestationFromLedger a) = OutcomeVerified"
      by simp_all
    have "r = Inr (attestationFromLedger a)" "w' = w2" using assms(3) v None vf cur(1) by (simp_all add: Nexus_Verify_def)
    with cur s Verification_state [OF vf] show ?thesis by auto
  qed
qed

end
