(* ===== verification/StoreRoundtrip.thy ===== *)
theory StoreRoundtrip
  imports Store
begin

text \<open>
  What survives a restart: a flushed ledger that is opened again is the same ledger, except that
  each retained manifest comes back in the compacted form \<open>json.Marshal\<close> gives a
  \<open>RawMessage\<close>. Also: a crash at any point of a flush leaves the old state file or the new one.
\<close>

section \<open>What can be stored\<close>

definition manifest_depth :: nat where "manifest_depth = max_nesting - 3"

text \<open>A manifest the state file can carry: empty, or JSON not nested too deeply.\<close>

definition storable_manifest :: "bytes \<Rightarrow> bool" where
  "storable_manifest m \<longleftrightarrow>
     m = [] \<or> (json_valid m \<and> compact False False m \<noteq> [] \<and> (\<exists>v. parses_to manifest_depth (compact False False m) v))"

definition storable_attestation :: "attestation \<Rightarrow> bool" where
  "storable_attestation a \<longleftrightarrow>
     (\<forall>s\<in>set [at_id a, at_outcome a, at_failure a, at_module_id a, at_hpke_public_key a, at_nonce a, at_pcr0 a,
        at_pcr1 a, at_pcr2 a, at_source_revision a, at_workload a, at_profile a, at_root_fingerprint a]. utf8_valid s) \<and>
     (\<forall>t\<in>set [at_verified_at a, at_attested_at a, at_expires_at a]. json_year_ok t) \<and>
     (\<forall>c\<in>set (at_checks a). utf8_valid (ck_name c) \<and> utf8_valid (ck_detail c)) \<and>
     in_int64 (at_document_bytes a) \<and> storable_manifest (at_manifest a)"

definition storable_request :: "request \<Rightarrow> bool" where
  "storable_request r \<longleftrightarrow>
     (\<forall>s\<in>set [rq_id r, rq_attestation_id r, rq_outcome r, rq_failure r]. utf8_valid s) \<and>
     json_year_ok (rq_started_at r) \<and>
     (\<forall>i\<in>set [rq_duration_ms r, rq_status_code r, rq_request_bytes r, rq_response_bytes r]. in_int64 i)"

text \<open>The form in which an attestation comes back.\<close>

definition compacted :: "attestation \<Rightarrow> attestation" where
  "compacted a = a\<lparr>at_manifest := compact False False (at_manifest a)\<rparr>"

section \<open>Text that is compact already\<close>

lemma case_mark_same:
  assumes "\<And>d t. f d t = g"
  shows "(case s of CHR 0x80 # d # t \<Rightarrow> f d t | _ \<Rightarrow> g) = g"
proof (cases s)
  case (Cons c r)
  then show ?thesis by (cases c; cases r) (simp_all add: assms split: bool.split)
qed simp

lemma compact_step:
  assumes "c \<noteq> CHR ''<''" "c \<noteq> CHR ''>''" "c \<noteq> CHR ''&''" "c \<noteq> CHR 0xE2"
  shows "compact in_str esc (c # s) =
    (if in_str then c # compact (esc \<or> c \<noteq> dquote) (\<not> esc \<and> c = bslash) s
     else if is_ws c then compact False False s
     else c # compact (c = dquote) False s)"
  unfolding compact.simps(2) using assms by (subst case_mark_same) simp_all

lemma compact_tight:
  "list_all (\<lambda>c. \<not> is_ws c \<and> c \<notin> set [CHR ''<'', CHR ''>'', CHR ''&'', CHR 0xE2]) s \<Longrightarrow> compact in_str esc s = s"
  by (induction s arbitrary: in_str esc) (simp_all add: compact_step del: compact.simps(2))

section \<open>Members of the structs\<close>

lemma utf8_names [simp]: "list_all plain_char s \<Longrightarrow> utf8_valid s"
  by (rule utf8_valid_plain)

lemma check_find:
  "find_field check_fields ''name'' = Some (field ck_name (\<lambda>x. ck_name_update (\<lambda>_. x)) decode_string)"
  "find_field check_fields ''passed'' = Some (field ck_passed (\<lambda>x. ck_passed_update (\<lambda>_. x)) decode_bool)"
  "find_field check_fields ''detail'' = Some (field ck_detail (\<lambda>x. ck_detail_update (\<lambda>_. x)) decode_string)"
  by (simp_all add: check_fields_def find_field_def)

lemma attestation_find:
  "find_field attestation_fields ''id'' = Some (field at_id (\<lambda>x. at_id_update (\<lambda>_. x)) decode_string)"
  "find_field attestation_fields ''outcome'' = Some (field at_outcome (\<lambda>x. at_outcome_update (\<lambda>_. x)) decode_string)"
  "find_field attestation_fields ''verified_at'' = Some (field at_verified_at (\<lambda>x. at_verified_at_update (\<lambda>_. x)) decode_time)"
  "find_field attestation_fields ''failure'' = Some (field at_failure (\<lambda>x. at_failure_update (\<lambda>_. x)) decode_string)"
  "find_field attestation_fields ''attested_at'' = Some (field at_attested_at (\<lambda>x. at_attested_at_update (\<lambda>_. x)) decode_time)"
  "find_field attestation_fields ''expires_at'' = Some (field at_expires_at (\<lambda>x. at_expires_at_update (\<lambda>_. x)) decode_time)"
  "find_field attestation_fields ''module_id'' = Some (field at_module_id (\<lambda>x. at_module_id_update (\<lambda>_. x)) decode_string)"
  "find_field attestation_fields ''hpke_public_key'' = Some (field at_hpke_public_key (\<lambda>x. at_hpke_public_key_update (\<lambda>_. x)) decode_string)"
  "find_field attestation_fields ''nonce'' = Some (field at_nonce (\<lambda>x. at_nonce_update (\<lambda>_. x)) decode_string)"
  "find_field attestation_fields ''pcr0'' = Some (field at_pcr0 (\<lambda>x. at_pcr0_update (\<lambda>_. x)) decode_string)"
  "find_field attestation_fields ''pcr1'' = Some (field at_pcr1 (\<lambda>x. at_pcr1_update (\<lambda>_. x)) decode_string)"
  "find_field attestation_fields ''pcr2'' = Some (field at_pcr2 (\<lambda>x. at_pcr2_update (\<lambda>_. x)) decode_string)"
  "find_field attestation_fields ''source_revision'' = Some (field at_source_revision (\<lambda>x. at_source_revision_update (\<lambda>_. x)) decode_string)"
  "find_field attestation_fields ''workload'' = Some (field at_workload (\<lambda>x. at_workload_update (\<lambda>_. x)) decode_string)"
  "find_field attestation_fields ''profile'' = Some (field at_profile (\<lambda>x. at_profile_update (\<lambda>_. x)) decode_string)"
  "find_field attestation_fields ''root_fingerprint'' = Some (field at_root_fingerprint (\<lambda>x. at_root_fingerprint_update (\<lambda>_. x)) decode_string)"
  "find_field attestation_fields ''checks'' = Some (field at_checks (\<lambda>x. at_checks_update (\<lambda>_. x)) (decode_slice (decode_struct False check_fields) zero_check))"
  "find_field attestation_fields ''document_bytes'' = Some (field at_document_bytes (\<lambda>x. at_document_bytes_update (\<lambda>_. x)) decode_int)"
  "find_field attestation_fields ''document'' = Some (field at_document (\<lambda>x. at_document_update (\<lambda>_. x)) decode_bytes)"
  "find_field attestation_fields ''manifest'' = Some (field at_manifest (\<lambda>x. at_manifest_update (\<lambda>_. x)) decode_raw)"
  by (simp_all add: attestation_fields_def find_field_def)

lemma request_find:
  "find_field request_fields ''id'' = Some (field rq_id (\<lambda>x. rq_id_update (\<lambda>_. x)) decode_string)"
  "find_field request_fields ''started_at'' = Some (field rq_started_at (\<lambda>x. rq_started_at_update (\<lambda>_. x)) decode_time)"
  "find_field request_fields ''duration_ms'' = Some (field rq_duration_ms (\<lambda>x. rq_duration_ms_update (\<lambda>_. x)) decode_int)"
  "find_field request_fields ''attestation_id'' = Some (field rq_attestation_id (\<lambda>x. rq_attestation_id_update (\<lambda>_. x)) decode_string)"
  "find_field request_fields ''outcome'' = Some (field rq_outcome (\<lambda>x. rq_outcome_update (\<lambda>_. x)) decode_string)"
  "find_field request_fields ''failure'' = Some (field rq_failure (\<lambda>x. rq_failure_update (\<lambda>_. x)) decode_string)"
  "find_field request_fields ''status_code'' = Some (field rq_status_code (\<lambda>x. rq_status_code_update (\<lambda>_. x)) decode_int)"
  "find_field request_fields ''request_bytes'' = Some (field rq_request_bytes (\<lambda>x. rq_request_bytes_update (\<lambda>_. x)) decode_int)"
  "find_field request_fields ''response_bytes'' = Some (field rq_response_bytes (\<lambda>x. rq_response_bytes_update (\<lambda>_. x)) decode_int)"
  "find_field request_fields ''streaming'' = Some (field rq_streaming (\<lambda>x. rq_streaming_update (\<lambda>_. x)) decode_bool)"
  by (simp_all add: request_fields_def find_field_def)

lemma state_find:
  "find_field state_fields ''schema_version'' = Some (field ps_schema_version (\<lambda>x. ps_schema_version_update (\<lambda>_. x)) decode_int)"
  "find_field state_fields ''written_at'' = Some (field ps_written_at (\<lambda>x. ps_written_at_update (\<lambda>_. x)) decode_time)"
  "find_field state_fields ''verified_total'' = Some (field ps_verified_total (\<lambda>x. ps_verified_total_update (\<lambda>_. x)) decode_uint64)"
  "find_field state_fields ''rejected_total'' = Some (field ps_rejected_total (\<lambda>x. ps_rejected_total_update (\<lambda>_. x)) decode_uint64)"
  "find_field state_fields ''encrypted_total'' = Some (field ps_encrypted_total (\<lambda>x. ps_encrypted_total_update (\<lambda>_. x)) decode_uint64)"
  "find_field state_fields ''failed_total'' = Some (field ps_failed_total (\<lambda>x. ps_failed_total_update (\<lambda>_. x)) decode_uint64)"
  "find_field state_fields ''attestations'' = Some (field ps_attestations (\<lambda>x. ps_attestations_update (\<lambda>_. x)) (decode_slice (decode_struct False attestation_fields) zero_attestation))"
  "find_field state_fields ''requests'' = Some (field ps_requests (\<lambda>x. ps_requests_update (\<lambda>_. x)) (decode_slice (decode_struct False request_fields) zero_request))"
  by (simp_all add: state_fields_def find_field_def)

lemma members_decode_text:
  assumes "find_field fs n = Some (field get put decode_string)" "utf8_valid n" "utf8_valid s" "s = [] \<Longrightarrow> put s r = r"
  shows "members_decode k strict fs (text_member n s) r (put s r)"
  unfolding text_member_def using assms by (intro members_decode_opt [OF assms(1,2)]) (simp_all add: decodes_string)

lemma members_decode_time:
  assumes "find_field fs n = Some (field get put decode_time)" "utf8_valid n" "time_member omit n t = Inr ms"
    "omit \<Longrightarrow> t = 0 \<Longrightarrow> put t r = r"
  shows "members_decode k strict fs ms r (put t r)"
proof (cases "omit \<and> t = 0")
  case True
  then show ?thesis using assms(3,4) by (simp add: time_member_def members_decode_Nil)
next
  case False
  then obtain tx where "enc_time t = Inr tx" "ms = [(n, tx)]"
    using assms(3) by (auto simp: time_member_def rbind_Inr_iff)
  then show ?thesis using members_decode_put [OF assms(1,2) decodes_time] by simp
qed

lemma members_decode_raw:
  assumes "find_field fs n = Some (field get put decode_raw)" "utf8_valid n" "raw_member n m = Inr ms"
    "storable_manifest m" "m = [] \<Longrightarrow> put [] r = r"
  shows "members_decode manifest_depth strict fs ms r (put (compact False False m) r)"
proof (cases "m = []")
  case True
  then show ?thesis using assms(3,5) by (simp add: raw_member_def members_decode_Nil)
next
  case False
  then obtain v where "ms = [(n, compact False False m)]" "parses_to manifest_depth (compact False False m) v"
    using assms(3,4) by (auto simp: raw_member_def rbind_Inr_iff storable_manifest_def json_compact_def split: if_splits)
  then show ?thesis using members_decode_put [OF assms(1,2) decodes_raw] by simp
qed

lemma decodes_check:
  assumes "utf8_valid (ck_name c)" "utf8_valid (ck_detail c)"
  shows "decodes (Suc k) (decode_struct False check_fields) zero_check (enc_check c) c"
proof -
  have "members_decode k False check_fields
      ([(''name'', enc_string (ck_name c))] @ [(''passed'', enc_bool (ck_passed c))] @ [(''detail'', enc_string (ck_detail c))])
      zero_check (zero_check\<lparr>ck_name := ck_name c, ck_passed := ck_passed c, ck_detail := ck_detail c\<rparr>)"
    by (rule members_decode_append check_find [THEN members_decode_put] decodes_string decodes_bool |
      simp add: assms plain_char_def)+
  moreover have "zero_check\<lparr>ck_name := ck_name c, ck_passed := ck_passed c, ck_detail := ck_detail c\<rparr> = c"
    by (cases c) (simp add: zero_check_def)
  ultimately show ?thesis
    using decodes_struct [of k False check_fields] by (simp add: enc_check_def)
qed

lemma decodes_checks:
  assumes "\<forall>c\<in>set cs. utf8_valid (ck_name c) \<and> utf8_valid (ck_detail c)" "old = []" "2 \<le> k"
  shows "decodes k (decode_slice (decode_struct False check_fields) zero_check) old (enc_array (map enc_check cs)) cs"
proof -
  have "list_all2 (decodes (Suc 0) (decode_struct False check_fields) zero_check) (map enc_check cs) cs"
    using assms(1) by (induction cs) (simp_all add: decodes_check)
  from decodes_mono [OF decodes_slice [OF this]] assms(2,3) show ?thesis by (simp add: numeral_2_eq_2)
qed

lemma decodes_attestation:
  assumes st: "storable_attestation a" and enc: "enc_attestation a = Inr tx"
  shows "decodes (Suc manifest_depth) (decode_struct False attestation_fields) zero_attestation tx (compacted a)"
proof -
  obtain va aa ea mm where m: "time_member False ''verified_at'' (at_verified_at a) = Inr va"
    "time_member True ''attested_at'' (at_attested_at a) = Inr aa"
    "time_member True ''expires_at'' (at_expires_at a) = Inr ea"
    "raw_member ''manifest'' (at_manifest a) = Inr mm"
    using enc by (auto simp: enc_attestation_def rbind_Inr_iff)
  have u: "utf8_valid (at_id a)" "utf8_valid (at_outcome a)" "utf8_valid (at_failure a)" "utf8_valid (at_module_id a)"
    "utf8_valid (at_hpke_public_key a)" "utf8_valid (at_nonce a)" "utf8_valid (at_pcr0 a)" "utf8_valid (at_pcr1 a)"
    "utf8_valid (at_pcr2 a)" "utf8_valid (at_source_revision a)" "utf8_valid (at_workload a)" "utf8_valid (at_profile a)"
    "utf8_valid (at_root_fingerprint a)" "\<forall>c\<in>set (at_checks a). utf8_valid (ck_name c) \<and> utf8_valid (ck_detail c)"
    "in_int64 (at_document_bytes a)" "storable_manifest (at_manifest a)"
    using st by (simp_all add: storable_attestation_def)
  have d2: "2 \<le> manifest_depth" by (simp add: manifest_depth_def max_nesting_def)
  have "members_decode manifest_depth False attestation_fields
     ([(''id'', enc_string (at_id a))] @ [(''outcome'', enc_string (at_outcome a))] @ va @
       text_member ''failure'' (at_failure a) @ aa @ ea @
       text_member ''module_id'' (at_module_id a) @ text_member ''hpke_public_key'' (at_hpke_public_key a) @
       text_member ''nonce'' (at_nonce a) @ text_member ''pcr0'' (at_pcr0 a) @ text_member ''pcr1'' (at_pcr1 a) @
       text_member ''pcr2'' (at_pcr2 a) @ text_member ''source_revision'' (at_source_revision a) @
       text_member ''workload'' (at_workload a) @ text_member ''profile'' (at_profile a) @
       text_member ''root_fingerprint'' (at_root_fingerprint a) @
       member_if (at_checks a \<noteq> []) ''checks'' (enc_array (map enc_check (at_checks a))) @
       member_if (at_document_bytes a \<noteq> 0) ''document_bytes'' (dec_int (at_document_bytes a)) @
       member_if (at_document a \<noteq> []) ''document'' (enc_bytes (at_document a)) @ mm)
     zero_attestation
     (zero_attestation\<lparr>at_id := at_id a, at_outcome := at_outcome a, at_verified_at := at_verified_at a,
        at_failure := at_failure a, at_attested_at := at_attested_at a, at_expires_at := at_expires_at a,
        at_module_id := at_module_id a, at_hpke_public_key := at_hpke_public_key a, at_nonce := at_nonce a,
        at_pcr0 := at_pcr0 a, at_pcr1 := at_pcr1 a, at_pcr2 := at_pcr2 a, at_source_revision := at_source_revision a,
        at_workload := at_workload a, at_profile := at_profile a, at_root_fingerprint := at_root_fingerprint a,
        at_checks := at_checks a, at_document_bytes := at_document_bytes a, at_document := at_document a,
        at_manifest := compact False False (at_manifest a)\<rparr>)"
    by (rule members_decode_append attestation_find(1,2) [THEN members_decode_put]
        attestation_find(4,7-16) [THEN members_decode_text] members_decode_time [OF attestation_find(3) _ m(1)]
        members_decode_time [OF attestation_find(5) _ m(2)] members_decode_time [OF attestation_find(6) _ m(3)]
        members_decode_raw [OF attestation_find(20) _ m(4)] attestation_find(17-19) [THEN members_decode_opt]
        decodes_string decodes_int decodes_bytes decodes_checks [OF _ _ d2] |
      (simp add: u plain_char_def; fail) | (simp add: zero_attestation_def; fail))+
  moreover have "zero_attestation\<lparr>at_id := at_id a, at_outcome := at_outcome a, at_verified_at := at_verified_at a,
        at_failure := at_failure a, at_attested_at := at_attested_at a, at_expires_at := at_expires_at a,
        at_module_id := at_module_id a, at_hpke_public_key := at_hpke_public_key a, at_nonce := at_nonce a,
        at_pcr0 := at_pcr0 a, at_pcr1 := at_pcr1 a, at_pcr2 := at_pcr2 a, at_source_revision := at_source_revision a,
        at_workload := at_workload a, at_profile := at_profile a, at_root_fingerprint := at_root_fingerprint a,
        at_checks := at_checks a, at_document_bytes := at_document_bytes a, at_document := at_document a,
        at_manifest := compact False False (at_manifest a)\<rparr> = compacted a"
    by (cases a) (simp add: zero_attestation_def compacted_def)
  ultimately show ?thesis
    using decodes_struct [of manifest_depth False attestation_fields] enc m by (auto simp: enc_attestation_def)
qed

lemma decodes_request:
  assumes st: "storable_request r" and enc: "enc_request r = Inr tx"
  shows "decodes (Suc k) (decode_struct False request_fields) zero_request tx r"
proof -
  obtain sa where m: "time_member False ''started_at'' (rq_started_at r) = Inr sa"
    using enc by (auto simp: enc_request_def rbind_Inr_iff)
  have u: "utf8_valid (rq_id r)" "utf8_valid (rq_attestation_id r)" "utf8_valid (rq_outcome r)"
    "utf8_valid (rq_failure r)" "in_int64 (rq_duration_ms r)" "in_int64 (rq_status_code r)"
    "in_int64 (rq_request_bytes r)" "in_int64 (rq_response_bytes r)"
    using st by (simp_all add: storable_request_def)
  have "members_decode k False request_fields
     ([(''id'', enc_string (rq_id r))] @ sa @ [(''duration_ms'', dec_int (rq_duration_ms r))] @
       text_member ''attestation_id'' (rq_attestation_id r) @ [(''outcome'', enc_string (rq_outcome r))] @
       text_member ''failure'' (rq_failure r) @
       member_if (rq_status_code r \<noteq> 0) ''status_code'' (dec_int (rq_status_code r)) @
       [(''request_bytes'', dec_int (rq_request_bytes r))] @ [(''response_bytes'', dec_int (rq_response_bytes r))] @
       [(''streaming'', enc_bool (rq_streaming r))])
     zero_request
     (zero_request\<lparr>rq_id := rq_id r, rq_started_at := rq_started_at r, rq_duration_ms := rq_duration_ms r,
        rq_attestation_id := rq_attestation_id r, rq_outcome := rq_outcome r, rq_failure := rq_failure r,
        rq_status_code := rq_status_code r, rq_request_bytes := rq_request_bytes r,
        rq_response_bytes := rq_response_bytes r, rq_streaming := rq_streaming r\<rparr>)"
    by (rule members_decode_append request_find(1,3,5,8-10) [THEN members_decode_put]
        request_find(4,6) [THEN members_decode_text] members_decode_time [OF request_find(2) _ m]
        request_find(7) [THEN members_decode_opt] decodes_string decodes_int decodes_bool |
      (simp add: u plain_char_def; fail) | (simp add: zero_request_def; fail))+
  moreover have "zero_request\<lparr>rq_id := rq_id r, rq_started_at := rq_started_at r, rq_duration_ms := rq_duration_ms r,
        rq_attestation_id := rq_attestation_id r, rq_outcome := rq_outcome r, rq_failure := rq_failure r,
        rq_status_code := rq_status_code r, rq_request_bytes := rq_request_bytes r,
        rq_response_bytes := rq_response_bytes r, rq_streaming := rq_streaming r\<rparr> = r"
    by (cases r) (simp add: zero_request_def)
  ultimately show ?thesis
    using decodes_struct [of k False request_fields] enc m by (auto simp: enc_request_def)
qed

section \<open>The state file\<close>

definition storable_state :: "persisted_state \<Rightarrow> bool" where
  "storable_state s \<longleftrightarrow> in_int64 (ps_schema_version s) \<and> json_year_ok (ps_written_at s) \<and>
     (\<forall>a\<in>set (ps_attestations s). storable_attestation a) \<and> (\<forall>r\<in>set (ps_requests s). storable_request r)"

lemma time_member_ok: "json_year_ok t \<Longrightarrow> \<exists>ms. time_member omit n t = Inr ms"
  by (simp add: time_member_def enc_time_def)

lemma raw_member_ok: "storable_manifest m \<Longrightarrow> \<exists>ms. raw_member n m = Inr ms"
  by (auto simp: raw_member_def storable_manifest_def json_compact_def)

lemma enc_attestation_ok: "storable_attestation a \<Longrightarrow> \<exists>tx. enc_attestation a = Inr tx"
  using time_member_ok [of "at_verified_at a" False "''verified_at''"]
    time_member_ok [of "at_attested_at a" True "''attested_at''"]
    time_member_ok [of "at_expires_at a" True "''expires_at''"] raw_member_ok [of "at_manifest a" "''manifest''"]
  by (auto simp: enc_attestation_def storable_attestation_def)

lemma enc_request_ok: "storable_request r \<Longrightarrow> \<exists>tx. enc_request r = Inr tx"
  using time_member_ok [of "rq_started_at r" False "''started_at''"]
  by (auto simp: enc_request_def storable_request_def)

lemma enc_state_ok:
  assumes "storable_state s"
  shows "\<exists>data. enc_state s = Inr data"
proof -
  obtain w atts reqs where "time_member False ''written_at'' (ps_written_at s) = Inr w"
    "enc_all (map enc_attestation (ps_attestations s)) = Inr atts" "enc_all (map enc_request (ps_requests s)) = Inr reqs"
    using assms time_member_ok [of "ps_written_at s" False "''written_at''"]
      enc_all_Inr [of "ps_attestations s" enc_attestation] enc_all_Inr [of "ps_requests s" enc_request]
      enc_attestation_ok enc_request_ok unfolding storable_state_def by meson
  then show ?thesis by (simp add: enc_state_def)
qed

lemma decodes_attestations:
  assumes "\<forall>a\<in>set as. storable_attestation a" "enc_all (map enc_attestation as) = Inr ts" "old = []"
  shows "decodes (max_nesting - 1) (decode_slice (decode_struct False attestation_fields) zero_attestation) old
    (enc_array ts) (map compacted as)"
proof -
  have "list_all2 (decodes (Suc manifest_depth) (decode_struct False attestation_fields) zero_attestation) ts (map compacted as)"
    using enc_all_list_all2 [OF assms(2)] assms(1)
    by (induction ts as rule: list_all2_induct) (simp_all add: decodes_attestation)
  from decodes_slice [OF this] assms(3) show ?thesis by (simp add: manifest_depth_def max_nesting_def)
qed

lemma decodes_requests:
  assumes "\<forall>r\<in>set rs. storable_request r" "enc_all (map enc_request rs) = Inr ts" "old = []" "2 \<le> k"
  shows "decodes k (decode_slice (decode_struct False request_fields) zero_request) old
    (if rs = [] then ''null'' else enc_array ts) rs"
proof (cases "rs = []")
  case True
  then show ?thesis using parses_to_null
    by (auto simp: decodes_def decode_slice_def intro!: exI [of _ JNull])
next
  case False
  have "list_all2 (decodes (Suc 0) (decode_struct False request_fields) zero_request) ts rs"
    using enc_all_list_all2 [OF assms(2)] assms(1)
    by (induction ts rs rule: list_all2_induct) (simp_all add: decodes_request)
  from decodes_mono [OF decodes_slice [OF this]] assms(3,4) False show ?thesis by (simp add: numeral_2_eq_2)
qed

lemma decodes_state:
  assumes st: "storable_state s" and enc: "enc_state s = Inr data"
  shows "decodes max_nesting (decode_struct False state_fields) zero_state data
    (s\<lparr>ps_attestations := map compacted (ps_attestations s)\<rparr>)"
proof -
  obtain w atts reqs where m: "time_member False ''written_at'' (ps_written_at s) = Inr w"
    and e: "enc_all (map enc_attestation (ps_attestations s)) = Inr atts"
      "enc_all (map enc_request (ps_requests s)) = Inr reqs"
    using enc by (auto simp: enc_state_def rbind_Inr_iff)
  have u: "in_int64 (ps_schema_version s)" "\<forall>a\<in>set (ps_attestations s). storable_attestation a"
    "\<forall>r\<in>set (ps_requests s). storable_request r" "2 \<le> max_nesting - 1"
    using st by (simp_all add: storable_state_def max_nesting_def)
  have "members_decode (max_nesting - 1) False state_fields
       ([(''schema_version'', dec_int (ps_schema_version s))] @ w @
       [(''verified_total'', enc_uint64 (ps_verified_total s))] @
       [(''rejected_total'', enc_uint64 (ps_rejected_total s))] @
       [(''encrypted_total'', enc_uint64 (ps_encrypted_total s))] @
       [(''failed_total'', enc_uint64 (ps_failed_total s))] @
       [(''attestations'', enc_array atts)] @
       [(''requests'', if ps_requests s = [] then ''null'' else enc_array reqs)])
     zero_state
     (zero_state\<lparr>ps_schema_version := ps_schema_version s, ps_written_at := ps_written_at s,
        ps_verified_total := ps_verified_total s, ps_rejected_total := ps_rejected_total s,
        ps_encrypted_total := ps_encrypted_total s, ps_failed_total := ps_failed_total s,
        ps_attestations := map compacted (ps_attestations s), ps_requests := ps_requests s\<rparr>)"
    by (rule members_decode_append state_find(1,3-8) [THEN members_decode_put]
        members_decode_time [OF state_find(2) _ m] decodes_int decodes_uint64
        decodes_attestations [OF u(2) e(1)] decodes_requests [OF u(3) e(2) _ u(4)] |
      (simp add: u plain_char_def; fail) | (simp add: zero_state_def; fail))+
  moreover have "zero_state\<lparr>ps_schema_version := ps_schema_version s, ps_written_at := ps_written_at s,
        ps_verified_total := ps_verified_total s, ps_rejected_total := ps_rejected_total s,
        ps_encrypted_total := ps_encrypted_total s, ps_failed_total := ps_failed_total s,
        ps_attestations := map compacted (ps_attestations s), ps_requests := ps_requests s\<rparr> =
      s\<lparr>ps_attestations := map compacted (ps_attestations s)\<rparr>"
    by (cases s) (simp add: zero_state_def)
  ultimately show ?thesis
    using decodes_struct [of "max_nesting - 1" False state_fields] enc m e
    by (auto simp: enc_state_def max_nesting_def)
qed

section \<open>Restart\<close>

definition storable_ledger :: "ledger \<Rightarrow> bool" where
  "storable_ledger l \<longleftrightarrow> length (l_attestations l) \<le> maxAttestations \<and> length (l_requests l) \<le> maxRequests \<and>
     (\<forall>a\<in>set (l_attestations l). storable_attestation a) \<and> (\<forall>r\<in>set (l_requests l). storable_request r)"

lemma foldl_capped:
  assumes "length xs \<le> limit" "0 < limit"
  shows "foldl (\<lambda>acc x. appendCapped acc x limit) [] xs = xs"
  using appendCapped_foldl [OF assms(2), of "[]" xs] assms(1) by (simp add: newest_def)

lemma loadFrom_flushed:
  assumes "storable_ledger l" "json_year_ok now" "enc_state (snapshotForDisk now l) = Inr data"
    "length data \<le> maxStateBytes" "l_attestations l0 = []" "l_requests l0 = []"
  shows "loadFrom (Inr data) l0 = l\<lparr>l_attestations := map compacted (l_attestations l), l_store := l_store l0\<rparr>"
proof -
  have st: "storable_state (snapshotForDisk now l)"
    using assms(1,2) by (simp add: storable_ledger_def storable_state_def snapshotForDisk_def stateSchemaVersion_def in_int64_def)
  note d = decodes_state [OF st assms(3)]
  have "data \<noteq> []" using d by (auto simp: decodes_def parses_to_def)
  then show ?thesis
    using json_unmarshal_decodes [OF d] assms
    by (cases l) (simp add: loadFrom_def snapshotForDisk_def foldl_capped storable_ledger_def maxAttestations_def maxRequests_def)
qed

text \<open>One flush: what it leaves on disk, and at every moment on the way.\<close>

lemma ledger_file_prepared:
  "prepared (ledger_file_ops data name) (fs(name \<mapsto> \<lparr>f_data = [], f_mode = mode_0600\<rparr>)) name =
     Some \<lparr>f_data = data, f_mode = mode_0600\<rparr>"
  by (simp add: prepared_def ledger_file_ops_def)

lemma ledger_file_touches: "\<forall>x\<in>set (ledger_file_ops data name). only_touches name (fst x)"
  by (auto simp: ledger_file_ops_def)

lemma writeFileAtomic_crash:
  assumes "fresh_temp env path fs" "writeFileAtomic env path data fs = (r, tr)"
  shows "\<forall>g\<in>set tr. g path = fs path \<or> g path = Some \<lparr>f_data = data, f_mode = mode_0600\<rparr>"
    "r = None \<Longrightarrow> last tr = fs(path \<mapsto> \<lparr>f_data = data, f_mode = mode_0600\<rparr>)"
    "r \<noteq> None \<Longrightarrow> fe_remove_ok env \<Longrightarrow> last tr = fs"
    "r \<noteq> None \<Longrightarrow> last tr path = fs path"
  using replace_with_atomic [OF ledger_file_touches ledger_file_prepared assms(1)
      assms(2) [unfolded writeFileAtomic_def]]
  by blast+

lemma Flush_written:
  assumes "l_store l = Some \<lparr>st_path = path, st_dirty = True\<rparr>" "fresh_temp env path fs"
    "Flush env now (Some l) fs = (None, Some l', tr)"
  obtains data where "enc_state (snapshotForDisk now l) = Inr data"
    "last tr = fs(path \<mapsto> \<lparr>f_data = data, f_mode = mode_0600\<rparr>)" "l' = clear_dirty l"
proof -
  have sn: "snapshotForDisk now (clear_dirty l) = snapshotForDisk now l"
    by (simp add: snapshotForDisk_def clear_dirty_def split: option.splits)
  obtain data where d: "enc_state (snapshotForDisk now l) = Inr data"
    using assms(1,3) sn by (auto simp: Flush_def Let_def split: sum.splits)
  obtain r tr' where w: "writeFileAtomic env path data fs = (r, tr')" by force
  with assms(1,3) sn d have "r = None" "tr = tr'" "l' = clear_dirty l"
    by (auto simp: Flush_def Let_def split: option.splits)
  with writeFileAtomic_crash(2) [OF assms(2) w] that d show ?thesis by blast
qed

lemma Flush_failed:
  assumes "l_store l = Some s" "Flush env now (Some l) fs = (Some e, lo, tr)"
  shows "lo = Some l" "st_dirty s"
proof -
  show d: "st_dirty s" using assms by (auto simp: Flush_def split: if_splits)
  have "lo = Some (markDirty (clear_dirty l))"
    using assms by (auto simp: Flush_def Let_def split: if_splits sum.splits option.splits prod.splits)
  then show "lo = Some l" using assms(1) d by (simp add: markDirty_def clear_dirty_def)
qed

lemma flush_reopen_ledger:
  assumes "storable_ledger l" "l_store l = Some \<lparr>st_path = path, st_dirty = True\<rparr>" "path \<noteq> []"
    "json_year_ok now" "fresh_temp env path fs" "Flush env now (Some l) fs = (None, Some l', tr)" "fe_mkdir env' = None"
  shows "OpenLedger env' None path (last tr) =
    Inr ((if length (f_data (the (last tr path))) \<le> maxStateBytes
          then l\<lparr>l_attestations := map compacted (l_attestations l)\<rparr> else NewLedger)
        \<lparr>l_store := Some \<lparr>st_path = path, st_dirty = False\<rparr>\<rparr>)"
proof -
  let ?l0 = "NewLedger\<lparr>l_store := Some \<lparr>st_path = path, st_dirty = False\<rparr>\<rparr>"
  obtain data where d: "enc_state (snapshotForDisk now l) = Inr data"
    "last tr = fs(path \<mapsto> \<lparr>f_data = data, f_mode = mode_0600\<rparr>)"
    using Flush_written [OF assms(2,5,6)] by blast
  have o: "OpenLedger env' None path (last tr) = Inr (loadFrom (Inr data) ?l0)"
    using assms(3,7) d(2) by (simp add: OpenLedger_def os_read_file_def)
  show ?thesis
  proof (cases "length data \<le> maxStateBytes")
    case True
    with loadFrom_flushed [OF assms(1,4) d(1) True, of ?l0] o d(2) show ?thesis by (simp add: NewLedger_def)
  next
    case False
    with o d(2) show ?thesis by (simp add: loadFrom_def)
  qed
qed

section \<open>Properties\<close>

text \<open>C22: At every point of writing the state file, a crash included, the path holds either the old file or the
  complete new one; at the end the new one exactly when the write reported success.\<close>

theorem state_file_never_partial:
  assumes "fresh_temp env path fs"
  shows "case writeFileAtomic env path data fs of (r, disks) \<Rightarrow>
    list_all (\<lambda>disk. disk path = fs path \<or> disk path = Some \<lparr>f_data = data, f_mode = 384\<rparr>) disks \<and>
    last disks path = (if r = None then Some \<lparr>f_data = data, f_mode = 384\<rparr> else fs path)"
  using writeFileAtomic_crash [OF assms, of data]
  by (cases "writeFileAtomic env path data fs") (auto simp: list_all_iff)

definition failing_disk :: fs_env where
  "failing_disk = \<lparr>fe_mkdir = None, fe_temp = Inr ''tmp'', fe_outcomes = [Done, Err 2 (Msg ''no space'')], fe_remove_ok = True\<rparr>"

definition good_disk :: fs_env where
  "good_disk = \<lparr>fe_mkdir = None, fe_temp = Inr ''tmp'', fe_outcomes = [], fe_remove_ok = True\<rparr>"

theorem state_file_never_partial_witness:
  "case writeFileAtomic failing_disk ''state'' ''new'' [''state'' \<mapsto> \<lparr>f_data = ''old'', f_mode = 384\<rparr>] of (r, disks) \<Rightarrow>
     r \<noteq> None \<and> last disks ''state'' = Some \<lparr>f_data = ''old'', f_mode = 384\<rparr>"
proof -
  have f: "fresh_temp failing_disk ''state'' [''state'' \<mapsto> \<lparr>f_data = ''old'', f_mode = 384\<rparr>]"
    by (simp add: fresh_temp_def failing_disk_def)
  have "fst (writeFileAtomic failing_disk ''state'' ''new'' [''state'' \<mapsto> \<lparr>f_data = ''old'', f_mode = 384\<rparr>]) \<noteq> None"
    by (simp add: writeFileAtomic_def replace_with_def failing_disk_def ledger_file_ops_def)
  then show ?thesis using state_file_never_partial [OF f, of "''new''"] by (auto split: prod.splits)
qed

text \<open>A ledger with one failed request, for the witnesses.\<close>

definition dirty_ledger :: ledger where
  "dirty_ledger = the (RecordRequest (zero_request\<lparr>rq_id := ''r'', rq_outcome := OutcomeFailed\<rparr>)
     (Some (NewLedger\<lparr>l_store := Some \<lparr>st_path = ''state'', st_dirty = False\<rparr>\<rparr>)))"

lemma dirty_ledger_fields:
  "l_store dirty_ledger = Some \<lparr>st_path = ''state'', st_dirty = True\<rparr>" "l_attestations dirty_ledger = []"
  "l_requests dirty_ledger = [zero_request\<lparr>rq_id := ''r'', rq_outcome := OutcomeFailed\<rparr>]"
  by (simp_all add: dirty_ledger_def RecordRequest_def Let_def markDirty_def NewLedger_def appendCapped_def maxRequests_def
      OutcomeFailed_def OutcomeEncrypted_def zero_request_def)

lemma year_one: "year_of 0 = 1"
  unfolding year_of_def by (subst year_from.simps) (simp add: days_before_year_def)

lemma dirty_ledger_storable: "storable_ledger dirty_ledger"
  by (simp add: storable_ledger_def dirty_ledger_fields maxAttestations_def maxRequests_def storable_request_def zero_request_def
      OutcomeFailed_def utf8_valid_plain plain_char_def in_int64_def json_year_ok_def year_one)

lemma length_enc_time:
  assumes "enc_time t = Inr tx"
  shows "length tx \<le> 40"
proof -
  have z: "length (strip_zeros s) \<le> length s" for s
    using length_dropWhile_le [of "\<lambda>c. c = CHR ''0''" "rev s"] by (simp add: strip_zeros_def)
  have f: "length (fraction_text n) \<le> 10" for n
    using z [of "fixed 9 n"] fixed_length [of 9 n] by (simp add: fraction_text_def del: fixed.simps fixed_length)
  have y: "length (year_text (year_of (t div day_ns))) = 4"
    using assms by (simp add: enc_time_def year_text_def json_year_ok_def del: fixed.simps split: if_splits)
  show ?thesis
    using assms f [of "nat (t mod day_ns) mod 1000000000"] y
    by (auto simp: enc_time_def format_rfc3339nano_def Let_def simp del: fixed.simps split: if_splits prod.splits)
qed

lemma dirty_ledger_totals:
  "l_verified_total dirty_ledger = 0" "l_rejected_total dirty_ledger = 0" "l_encrypted_total dirty_ledger = 0"
  "l_failed_total dirty_ledger = 1"
  by (simp_all add: dirty_ledger_def RecordRequest_def Let_def markDirty_def NewLedger_def
      OutcomeFailed_def OutcomeEncrypted_def zero_request_def)

lemma dirty_ledger_encodes:
  obtains data where "enc_state (snapshotForDisk 0 (clear_dirty dirty_ledger)) = Inr data" "length data \<le> 2000"
proof -
  obtain tx where tx: "enc_time 0 = Inr tx" by (simp add: enc_time_def json_year_ok_def year_one)
  show ?thesis
    using that length_enc_time [OF tx]
    by (simp add: enc_state_def snapshotForDisk_def clear_dirty_def dirty_ledger_fields dirty_ledger_totals time_member_def
        rbind_def tx enc_request_def zero_request_def enc_object_def enc_array_def stateSchemaVersion_def dec_int_def
        dec_nat.simps enc_uint64_def plain_char_def text_member_def enc_string_def escape_plain member_if_def OutcomeFailed_def enc_bool_def)
qed

text \<open>C26: A flush that fails changes nothing: the ledger is the same and stays dirty, so the next flush tries again,
  and the path holds the file it held before.\<close>

theorem failed_flush_keeps_state:
  assumes "l_store l = Some s" "fresh_temp env (st_path s) fs" "Flush env now (Some l) fs = (Some e, lo, disks)"
  shows "lo = Some l \<and> st_dirty s \<and> last disks (st_path s) = fs (st_path s)"
proof -
  note f = Flush_failed [OF assms(1,3)]
  have "last disks (st_path s) = fs (st_path s)"
  proof (cases "enc_state (snapshotForDisk now (clear_dirty l))")
    case (Inl x)
    with assms(1,3) f(2) show ?thesis by (auto simp: Flush_def Let_def)
  next
    case (Inr data)
    with assms(1,3) f(2) have "writeFileAtomic env (st_path s) data fs = (Some e, disks)"
      by (auto simp: Flush_def Let_def split: option.splits prod.splits)
    from writeFileAtomic_crash(4) [OF assms(2) this] show ?thesis by simp
  qed
  with f show ?thesis by simp
qed

theorem failed_flush_keeps_state_witness:
  "\<exists>e disks. Flush failing_disk 0 (Some dirty_ledger) Map.empty = (Some e, Some dirty_ledger, disks) \<and> last disks ''state'' = None"
proof -
  obtain data where d: "enc_state (snapshotForDisk 0 (clear_dirty dirty_ledger)) = Inr data"
    by (rule dirty_ledger_encodes)
  have "fst (writeFileAtomic failing_disk ''state'' data Map.empty) \<noteq> None"
    by (simp add: writeFileAtomic_def replace_with_def failing_disk_def ledger_file_ops_def)
  then obtain e lo disks where f: "Flush failing_disk 0 (Some dirty_ledger) Map.empty = (Some e, lo, disks)"
    using d by (cases "writeFileAtomic failing_disk ''state'' data Map.empty") (auto simp: Flush_def Let_def dirty_ledger_fields)
  have t: "fresh_temp failing_disk (st_path \<lparr>st_path = ''state'', st_dirty = True\<rparr>) Map.empty"
    by (simp add: fresh_temp_def failing_disk_def)
  from failed_flush_keeps_state [OF dirty_ledger_fields(1) t f] f show ?thesis by auto
qed

text \<open>C23: Opening the state file after a successful flush gives the ledger that was flushed, with every
  manifest in the compact form JSON encoding gives it; a state file larger than the limit of the reader
  opens as a new ledger instead.\<close>

theorem flush_then_open:
  assumes "storable_ledger l" "l_store l = Some \<lparr>st_path = path, st_dirty = True\<rparr>" "path \<noteq> []" "json_year_ok now"
    "fresh_temp env path fs" "Flush env now (Some l) fs = (None, lo, disks)" "fe_mkdir env' = None"
  shows "OpenLedger env' None path (last disks) =
    Inr ((if length (f_data (the (last disks path))) \<le> maxStateBytes
          then l\<lparr>l_attestations := map compacted (l_attestations l)\<rparr> else NewLedger)
        \<lparr>l_store := Some \<lparr>st_path = path, st_dirty = False\<rparr>\<rparr>)"
proof -
  obtain l' where l: "lo = Some l'"
    using assms(6) by (auto simp: Flush_def Let_def split: option.splits if_splits sum.splits prod.splits)
  show ?thesis by (rule flush_reopen_ledger [OF assms(1-5) assms(6) [unfolded l] assms(7)])
qed

theorem flush_then_open_witness:
  "\<exists>lo disks. Flush good_disk 0 (Some dirty_ledger) Map.empty = (None, lo, disks) \<and>
     OpenLedger good_disk None ''state'' (last disks) =
       Inr (dirty_ledger\<lparr>l_attestations := [], l_store := Some \<lparr>st_path = ''state'', st_dirty = False\<rparr>\<rparr>)"
proof -
  have f: "fresh_temp good_disk ''state'' Map.empty" by (simp add: fresh_temp_def good_disk_def)
  obtain data where d: "enc_state (snapshotForDisk 0 (clear_dirty dirty_ledger)) = Inr data" "length data \<le> 2000"
    by (rule dirty_ledger_encodes)
  have "fst (writeFileAtomic good_disk ''state'' data Map.empty) = None"
    by (simp add: writeFileAtomic_def replace_with_def good_disk_def ledger_file_ops_def)
  then obtain disks where w: "writeFileAtomic good_disk ''state'' data Map.empty = (None, disks)"
    by (metis prod.collapse)
  from writeFileAtomic_crash(2) [OF f w] have "f_data (the (last disks ''state'')) = data" by simp
  moreover have fl: "Flush good_disk 0 (Some dirty_ledger) Map.empty = (None, Some (clear_dirty dirty_ledger), disks)"
    using w d by (simp add: Flush_def Let_def dirty_ledger_fields)
  ultimately show ?thesis
    using flush_then_open [OF dirty_ledger_storable dirty_ledger_fields(1) _ _ f fl, of good_disk] d(2)
    by (simp add: json_year_ok_def year_one good_disk_def dirty_ledger_fields maxStateBytes_def)
qed

end
