(* ===== verification/FlushConc.thy ===== *)
theory FlushConc
  imports StoreRoundtrip
begin

text \<open>
  Flushes that overlap. \<open>Ledger.Flush\<close> (internal/ledger/store.go) is three critical sections: it
  clears the dirty mark under the store's mutex, takes the snapshot under the ledger's mutex, and
  replaces the file under none. The proxy flushes from a ticker, on shutdown and in \<open>Close\<close>,
  while requests record into the ledger. A configuration is the ledger, the content of the state file
  and the phase of every flush that has started; the numbers name the goroutines.
\<close>

section \<open>The steps\<close>

datatype flush_phase = Cleared | Taken bytes

record flush_conf =
  fc_ledger :: ledger
  fc_file :: "bytes option"
  fc_flushes :: "nat \<Rightarrow> flush_phase option"

inductive flush_step :: "flush_conf \<Rightarrow> flush_conf \<Rightarrow> bool" where
  recorded: "apply_event e (Some (fc_ledger c)) = Some l \<Longrightarrow> flush_step c (c\<lparr>fc_ledger := l\<rparr>)"
| begun: "l_store (fc_ledger c) = Some s \<Longrightarrow> st_dirty s \<Longrightarrow> fc_flushes c i = None \<Longrightarrow>
     flush_step c (c\<lparr>fc_ledger := clear_dirty (fc_ledger c), fc_flushes := (fc_flushes c)(i \<mapsto> Cleared)\<rparr>)"
| unencodable: "fc_flushes c i = Some Cleared \<Longrightarrow> enc_state (snapshotForDisk now (fc_ledger c)) = Inl e \<Longrightarrow>
     flush_step c (c\<lparr>fc_ledger := markDirty (fc_ledger c), fc_flushes := (fc_flushes c)(i := None)\<rparr>)"
| taken: "fc_flushes c i = Some Cleared \<Longrightarrow> enc_state (snapshotForDisk now (fc_ledger c)) = Inr d \<Longrightarrow>
     flush_step c (c\<lparr>fc_flushes := (fc_flushes c)(i \<mapsto> Taken d)\<rparr>)"
| replaced: "fc_flushes c i = Some (Taken d) \<Longrightarrow>
     flush_step c (c\<lparr>fc_file := Some d, fc_flushes := (fc_flushes c)(i := None)\<rparr>)"
| unwritten: "fc_flushes c i = Some (Taken d) \<Longrightarrow>
     flush_step c (c\<lparr>fc_ledger := markDirty (fc_ledger c), fc_flushes := (fc_flushes c)(i := None)\<rparr>)"

text \<open>The file contents that hold a ledger's history, and a configuration with nothing left to write.\<close>

definition holds_history :: "bytes \<Rightarrow> ledger \<Rightarrow> bool" where
  "holds_history d l \<longleftrightarrow> (\<exists>now. enc_state (snapshotForDisk now l) = Inr d)"

definition dirty :: "ledger \<Rightarrow> bool" where
  "dirty l \<longleftrightarrow> (case l_store l of None \<Rightarrow> False | Some s \<Rightarrow> st_dirty s)"

definition settled :: "flush_conf \<Rightarrow> bool" where
  "settled c \<longleftrightarrow> \<not> dirty (fc_ledger c) \<and> fc_flushes c = Map.empty"

definition at_most_one :: "flush_conf \<Rightarrow> bool" where
  "at_most_one c \<longleftrightarrow> (\<forall>i j. fc_flushes c i \<noteq> None \<longrightarrow> fc_flushes c j \<noteq> None \<longrightarrow> i = j)"

lemma snapshot_store [simp]:
  "snapshotForDisk now (clear_dirty l) = snapshotForDisk now l" "snapshotForDisk now (markDirty l) = snapshotForDisk now l"
  by (auto simp: snapshotForDisk_def clear_dirty_def markDirty_def split: option.splits)

lemma holds_history_store [simp]:
  "holds_history d (clear_dirty l) = holds_history d l" "holds_history d (markDirty l) = holds_history d l"
  by (simp_all add: holds_history_def)

lemma dirty_marked [simp]: "dirty (markDirty l) \<longleftrightarrow> l_store l \<noteq> None" "\<not> dirty (clear_dirty l)"
  by (auto simp: dirty_def markDirty_def clear_dirty_def split: option.splits)

lemma store_kept [simp]:
  "(l_store (clear_dirty l) = None) = (l_store l = None)"
  by (simp add: clear_dirty_def split: option.split)

lemma apply_event_dirty:
  assumes "apply_event e (Some l) = Some l'" "l_store l \<noteq> None"
  shows "dirty l'" "l_store l' \<noteq> None"
proof -
  obtain k where "l' = markDirty k" "l_store k \<noteq> None"
    using assms by (cases e) (auto simp: RecordVerified_def RecordRejected_def RecordRequest_def Let_def)
  then show "dirty l'" "l_store l' \<noteq> None" by simp_all
qed

section \<open>One flush at a time\<close>

text \<open>
  What serial flushing keeps: the ledger is dirty, or a flush is about to take its snapshot, or one has
  the present history in hand, or the file holds the present history.
\<close>

definition flush_inv :: "flush_conf \<Rightarrow> bool" where
  "flush_inv c \<longleftrightarrow> l_store (fc_ledger c) \<noteq> None \<and>
     (dirty (fc_ledger c) \<or> (\<exists>i. fc_flushes c i = Some Cleared) \<or>
      (\<exists>i d. fc_flushes c i = Some (Taken d) \<and> holds_history d (fc_ledger c)) \<or>
      (\<exists>d. fc_flushes c = Map.empty \<and> fc_file c = Some d \<and> holds_history d (fc_ledger c)))"

lemma at_most_one_empty:
  assumes "at_most_one c" "fc_flushes c i = Some p"
  shows "(fc_flushes c)(i := None) = Map.empty"
  using assms by (auto simp: at_most_one_def fun_eq_iff)

lemma flush_step_inv:
  assumes "flush_step c c'" "flush_inv c" "at_most_one c" "at_most_one c'"
  shows "flush_inv c'"
  using assms(1)
proof cases
  case (recorded e l)
  with assms(2) apply_event_dirty [OF recorded(2)] show ?thesis by (simp add: flush_inv_def)
next
  case (begun s i)
  with assms(2) show ?thesis by (auto simp: flush_inv_def)
next
  case (unencodable i now e)
  with assms(2) show ?thesis by (simp add: flush_inv_def)
next
  case (taken i now d)
  then have "holds_history d (fc_ledger c)" by (auto simp: holds_history_def)
  with taken assms(2) show ?thesis by (auto simp: flush_inv_def)
next
  case (replaced i d)
  note e = at_most_one_empty [OF assms(3) replaced(2)]
  have "dirty (fc_ledger c) \<or> holds_history d (fc_ledger c)"
  proof -
    have u: "p = Taken d" if "fc_flushes c j = Some p" for j p
    proof -
      have "j = i" using assms(3) replaced(2) that unfolding at_most_one_def by (metis option.distinct(1))
      with replaced(2) that show ?thesis by simp
    qed
    have "fc_flushes c \<noteq> Map.empty" using replaced(2) by auto
    with assms(2) u show ?thesis by (auto simp: flush_inv_def)
  qed
  with replaced e assms(2) show ?thesis by (auto simp: flush_inv_def)
next
  case (unwritten i d)
  with assms(2) show ?thesis by (simp add: flush_inv_def)
qed

definition serial_step :: "flush_conf \<Rightarrow> flush_conf \<Rightarrow> bool" where
  "serial_step c c' \<longleftrightarrow> flush_step c c' \<and> at_most_one c'"

lemma serial_steps_inv:
  assumes "serial_step\<^sup>*\<^sup>* c c'" "flush_inv c" "at_most_one c"
  shows "flush_inv c' \<and> at_most_one c'"
  using assms
proof (induction rule: rtranclp_induct)
  case (step y z)
  then show ?case using flush_step_inv by (auto simp: serial_step_def)
qed simp

text \<open>The steps of one goroutine, one after the other, are \<open>Flush\<close>.\<close>

lemma Flush_steps:
  assumes "Flush env now (Some l) fs = (None, Some l', disks)" "l_store l = Some \<lparr>st_path = path, st_dirty = True\<rparr>"
    "fresh_temp env path fs"
  shows "serial_step\<^sup>*\<^sup>* \<lparr>fc_ledger = l, fc_file = f, fc_flushes = Map.empty\<rparr>
    \<lparr>fc_ledger = l', fc_file = map_option f_data (last disks path), fc_flushes = Map.empty\<rparr>"
proof -
  obtain d where d: "enc_state (snapshotForDisk now l) = Inr d" "last disks = fs(path \<mapsto> \<lparr>f_data = d, f_mode = mode_0600\<rparr>)"
    "l' = clear_dirty l"
    using Flush_written [OF assms(2,3,1)] by metis
  let ?c0 = "\<lparr>fc_ledger = l, fc_file = f, fc_flushes = Map.empty\<rparr>"
  let ?c1 = "\<lparr>fc_ledger = l', fc_file = f, fc_flushes = [0 \<mapsto> Cleared]\<rparr>"
  let ?c2 = "\<lparr>fc_ledger = l', fc_file = f, fc_flushes = [0 \<mapsto> Taken d]\<rparr>"
  let ?c3 = "\<lparr>fc_ledger = l', fc_file = Some d, fc_flushes = Map.empty\<rparr>"
  have "serial_step ?c0 ?c1" using flush_step.begun [of ?c0 _ 0] assms(2) d(3) by (simp add: serial_step_def at_most_one_def)
  moreover have "serial_step ?c1 ?c2" using flush_step.taken [of ?c1 0 now d] d by (simp add: serial_step_def at_most_one_def)
  moreover have "serial_step ?c2 ?c3" using flush_step.replaced [of ?c2 0 d] by (simp add: serial_step_def at_most_one_def)
  ultimately have "serial_step\<^sup>*\<^sup>* ?c0 ?c3" by (meson rtranclp.rtrancl_refl rtranclp.rtrancl_into_rtrancl)
  then show ?thesis using d(2) by simp
qed

section \<open>Properties\<close>

text \<open>C24: As long as flushes do not overlap, a settled ledger is on disk: when nothing is marked dirty and no
  flush is running, the state file holds the present history, whatever was recorded in between, during a flush
  included, and whatever flushes failed.\<close>

theorem serial_flushes_persist:
  assumes "serial_step\<^sup>*\<^sup>* \<lparr>fc_ledger = l, fc_file = f, fc_flushes = Map.empty\<rparr> c" "dirty l" "settled c"
  shows "\<exists>d. fc_file c = Some d \<and> holds_history d (fc_ledger c)"
proof -
  have "flush_inv \<lparr>fc_ledger = l, fc_file = f, fc_flushes = Map.empty\<rparr>"
    "at_most_one \<lparr>fc_ledger = l, fc_file = f, fc_flushes = Map.empty\<rparr>"
    using assms(2) by (auto simp: flush_inv_def at_most_one_def dirty_def split: option.splits)
  from serial_steps_inv [OF assms(1) this] assms(3) show ?thesis by (auto simp: flush_inv_def settled_def)
qed

lemma dirty_ledger_dirty: "dirty dirty_ledger"
  by (simp add: dirty_def dirty_ledger_fields)

theorem serial_flushes_persist_witness:
  "\<exists>c d. serial_step\<^sup>*\<^sup>* \<lparr>fc_ledger = dirty_ledger, fc_file = None, fc_flushes = Map.empty\<rparr> c \<and> settled c \<and>
     fc_file c = Some d \<and> holds_history d (fc_ledger c)"
proof -
  obtain lo disks where f: "Flush good_disk 0 (Some dirty_ledger) Map.empty = (None, lo, disks)"
  proof -
    obtain data where d: "enc_state (snapshotForDisk 0 (clear_dirty dirty_ledger)) = Inr data" by (rule dirty_ledger_encodes)
    have "fst (writeFileAtomic good_disk ''state'' data Map.empty) = None"
      by (simp add: writeFileAtomic_def replace_with_def good_disk_def ledger_file_ops_def)
    then show ?thesis
      using that d by (cases "writeFileAtomic good_disk ''state'' data Map.empty") (auto simp: Flush_def Let_def dirty_ledger_fields)
  qed
  then obtain l' where l: "lo = Some l'" using dirty_ledger_fields by (auto simp: Flush_def Let_def split: if_splits sum.splits prod.splits option.splits)
  have t: "fresh_temp good_disk ''state'' Map.empty" by (simp add: fresh_temp_def good_disk_def)
  let ?c = "\<lparr>fc_ledger = l', fc_file = map_option f_data (last disks ''state''), fc_flushes = Map.empty\<rparr>"
  have s: "serial_step\<^sup>*\<^sup>* \<lparr>fc_ledger = dirty_ledger, fc_file = None, fc_flushes = Map.empty\<rparr> ?c"
    by (rule Flush_steps [OF f [unfolded l] dirty_ledger_fields(1) t])
  have "l' = clear_dirty dirty_ledger" using Flush_written [OF dirty_ledger_fields(1) t f [unfolded l]] by metis
  then have "settled ?c" by (simp add: settled_def)
  from serial_flushes_persist [OF s dirty_ledger_dirty this] s \<open>settled ?c\<close> show ?thesis by blast
qed

text \<open>A second request recorded while the first flush has its snapshot.\<close>

definition second_request :: request where
  "second_request = zero_request\<lparr>rq_id := ''s'', rq_outcome := OutcomeFailed\<rparr>"

definition longer_ledger :: ledger where
  "longer_ledger = the (RecordRequest second_request (Some (clear_dirty dirty_ledger)))"

lemma longer_ledger_event: "apply_event (Requested second_request) (Some (clear_dirty dirty_ledger)) = Some longer_ledger"
  by (simp add: longer_ledger_def RecordRequest_def Let_def)

lemma longer_ledger_fields:
  "l_store longer_ledger = Some \<lparr>st_path = ''state'', st_dirty = True\<rparr>" "l_attestations longer_ledger = []"
  "l_requests longer_ledger = [zero_request\<lparr>rq_id := ''r'', rq_outcome := OutcomeFailed\<rparr>, second_request]"
  by (simp_all add: longer_ledger_def RecordRequest_def Let_def markDirty_def clear_dirty_def dirty_ledger_fields appendCapped_def
      maxRequests_def second_request_def OutcomeFailed_def OutcomeEncrypted_def)

lemma longer_ledger_storable: "storable_ledger longer_ledger"
  by (simp add: storable_ledger_def longer_ledger_fields maxAttestations_def maxRequests_def storable_request_def zero_request_def
      second_request_def OutcomeFailed_def utf8_valid_plain plain_char_def in_int64_def json_year_ok_def year_one)

lemma enc_state_year: "enc_state (snapshotForDisk now l) = Inr d \<Longrightarrow> json_year_ok now"
  by (auto simp: enc_state_def snapshotForDisk_def time_member_def enc_time_def rbind_Inr_iff split: if_splits)

text \<open>One text cannot hold two histories.\<close>

lemma holds_one_history:
  assumes "holds_history d l" "holds_history d l'" "storable_ledger l" "storable_ledger l'" "length d \<le> maxStateBytes"
  shows "l_requests l = l_requests l'"
proof -
  obtain t t' where e: "enc_state (snapshotForDisk t l) = Inr d" "enc_state (snapshotForDisk t' l') = Inr d"
    using assms(1,2) by (auto simp: holds_history_def)
  have n: "l_attestations NewLedger = []" "l_requests NewLedger = []" by (simp_all add: NewLedger_def)
  have "l_requests (loadFrom (Inr d) NewLedger) = l_requests l"
    using loadFrom_flushed [OF assms(3) enc_state_year [OF e(1)] e(1) assms(5) n] by simp
  moreover have "l_requests (loadFrom (Inr d) NewLedger) = l_requests l'"
    using loadFrom_flushed [OF assms(4) enc_state_year [OF e(2)] e(2) assms(5) n] by simp
  ultimately show ?thesis by (rule trans [OF sym])
qed

text \<open>C25: Flushes that do overlap can lose history: there is a run of two flushes in which the older snapshot
  replaces the newer one, and then nothing is marked dirty and no flush is running, so the missing request is
  not written again.\<close>

theorem overlapping_flushes_lose:
  "\<exists>c d. flush_step\<^sup>*\<^sup>* \<lparr>fc_ledger = dirty_ledger, fc_file = None, fc_flushes = Map.empty\<rparr> c \<and> settled c \<and>
     fc_file c = Some d \<and> \<not> holds_history d (fc_ledger c)"
proof -
  obtain d where d: "enc_state (snapshotForDisk 0 dirty_ledger) = Inr d" "length d \<le> 2000"
    using dirty_ledger_encodes by auto
  have "storable_state (snapshotForDisk 0 longer_ledger)"
    using longer_ledger_storable
    by (simp add: storable_ledger_def storable_state_def snapshotForDisk_def stateSchemaVersion_def in_int64_def json_year_ok_def year_one)
  then obtain d2 where d2: "enc_state (snapshotForDisk 0 longer_ledger) = Inr d2" using enc_state_ok by blast
  let ?l = "clear_dirty dirty_ledger" and ?m = "clear_dirty longer_ledger"
  have s1: "flush_step \<lparr>fc_ledger = dirty_ledger, fc_file = None, fc_flushes = Map.empty\<rparr>
      \<lparr>fc_ledger = ?l, fc_file = None, fc_flushes = [0 \<mapsto> Cleared]\<rparr>"
    using flush_step.begun [of "\<lparr>fc_ledger = dirty_ledger, fc_file = None, fc_flushes = Map.empty\<rparr>" _ 0]
    by (simp add: dirty_ledger_fields)
  have s2: "flush_step \<lparr>fc_ledger = ?l, fc_file = None, fc_flushes = [0 \<mapsto> Cleared]\<rparr>
      \<lparr>fc_ledger = ?l, fc_file = None, fc_flushes = [0 \<mapsto> Taken d]\<rparr>"
    using flush_step.taken [of "\<lparr>fc_ledger = ?l, fc_file = None, fc_flushes = [0 \<mapsto> Cleared]\<rparr>" 0 0 d] d by simp
  have s3: "flush_step \<lparr>fc_ledger = ?l, fc_file = None, fc_flushes = [0 \<mapsto> Taken d]\<rparr>
      \<lparr>fc_ledger = longer_ledger, fc_file = None, fc_flushes = [0 \<mapsto> Taken d]\<rparr>"
    using flush_step.recorded [of "Requested second_request" "\<lparr>fc_ledger = ?l, fc_file = None, fc_flushes = [0 \<mapsto> Taken d]\<rparr>"
        longer_ledger] longer_ledger_event by simp
  have s4: "flush_step \<lparr>fc_ledger = longer_ledger, fc_file = None, fc_flushes = [0 \<mapsto> Taken d]\<rparr>
      \<lparr>fc_ledger = ?m, fc_file = None, fc_flushes = [0 \<mapsto> Taken d, 1 \<mapsto> Cleared]\<rparr>"
    using flush_step.begun [of "\<lparr>fc_ledger = longer_ledger, fc_file = None, fc_flushes = [0 \<mapsto> Taken d]\<rparr>" _ 1]
    by (simp add: longer_ledger_fields)
  have s5: "flush_step \<lparr>fc_ledger = ?m, fc_file = None, fc_flushes = [0 \<mapsto> Taken d, 1 \<mapsto> Cleared]\<rparr>
      \<lparr>fc_ledger = ?m, fc_file = None, fc_flushes = [0 \<mapsto> Taken d, 1 \<mapsto> Taken d2]\<rparr>"
    using flush_step.taken [of "\<lparr>fc_ledger = ?m, fc_file = None, fc_flushes = [0 \<mapsto> Taken d, 1 \<mapsto> Cleared]\<rparr>" 1 0 d2] d2 by simp
  have s6: "flush_step \<lparr>fc_ledger = ?m, fc_file = None, fc_flushes = [0 \<mapsto> Taken d, 1 \<mapsto> Taken d2]\<rparr>
      \<lparr>fc_ledger = ?m, fc_file = Some d2, fc_flushes = [0 \<mapsto> Taken d]\<rparr>"
    using flush_step.replaced [of "\<lparr>fc_ledger = ?m, fc_file = None, fc_flushes = [0 \<mapsto> Taken d, 1 \<mapsto> Taken d2]\<rparr>" 1 d2]
    by simp
  have s7: "flush_step \<lparr>fc_ledger = ?m, fc_file = Some d2, fc_flushes = [0 \<mapsto> Taken d]\<rparr>
      \<lparr>fc_ledger = ?m, fc_file = Some d, fc_flushes = Map.empty\<rparr>"
    using flush_step.replaced [of "\<lparr>fc_ledger = ?m, fc_file = Some d2, fc_flushes = [0 \<mapsto> Taken d]\<rparr>" 0 d] by simp
  let ?c = "\<lparr>fc_ledger = ?m, fc_file = Some d, fc_flushes = Map.empty\<rparr>"
  have "flush_step\<^sup>*\<^sup>* \<lparr>fc_ledger = dirty_ledger, fc_file = None, fc_flushes = Map.empty\<rparr> ?c"
    by (rule converse_rtranclp_into_rtranclp, rule s1, rule converse_rtranclp_into_rtranclp, rule s2,
        rule converse_rtranclp_into_rtranclp, rule s3, rule converse_rtranclp_into_rtranclp, rule s4,
        rule converse_rtranclp_into_rtranclp, rule s5, rule converse_rtranclp_into_rtranclp, rule s6,
        rule r_into_rtranclp, rule s7)
  moreover have "\<not> holds_history d longer_ledger"
  proof
    assume "holds_history d longer_ledger"
    moreover have "holds_history d dirty_ledger" using d(1) by (auto simp: holds_history_def)
    ultimately show False
      using holds_one_history [of d dirty_ledger longer_ledger] d(2) dirty_ledger_storable longer_ledger_storable
      by (simp add: maxStateBytes_def dirty_ledger_fields longer_ledger_fields)
  qed
  moreover have "settled ?c" by (simp add: settled_def)
  ultimately show ?thesis by (intro exI [of _ ?c] exI [of _ d]) simp
qed

end
