(* ===== verification/Documents.thy ===== *)
theory Documents
  imports Verifier ReleaseSource
begin

text \<open>
  The JSON documents the Gateway and GitHub publish, as canonical encodings, and that the decoders of
  the program read each of them back: the attested manifest and the attestation response
  (internal/attestation/verifier.go), the release manifest (internal/release/manifest.go) and the
  release listing (internal/release/source.go). Texts in them are plain: printable ASCII that JSON does
  not escape.
\<close>

abbreviation (input) plain :: "string \<Rightarrow> bool" where "plain s \<equiv> list_all plain_char s"

lemma members_decode_nested:
  assumes "find_field fs n = Some dec" "utf8_valid n" "decodes k dec r tx r'"
  shows "members_decode k strict fs [(n, tx)] r r'"
proof -
  obtain v where "parses_to k tx v" "dec r tx v = Inr r'" using assms(3) by (auto simp: decodes_def)
  then show ?thesis
    using assms unfolding members_decode_def
    by (intro exI [of _ "[(n, tx, v)]"]) (simp add: member_parses_def)
qed

section \<open>The attested manifest\<close>

definition enc_claims :: "manifest_claims \<Rightarrow> bytes" where
  "enc_claims c = enc_object
    [(''schema_version'', dec_int (mc_schema_version c)), (''profile'', enc_string (mc_profile c)),
     (''workload'', enc_string (mc_workload c)), (''source_revision'', enc_string (mc_source_revision c)),
     (''ingress'', enc_object [(''e2ee'', mc_ingress_e2ee c)])]"

lemma claims_find:
  "find_field claims_fields ''schema_version'' = Some (field mc_schema_version (\<lambda>x. mc_schema_version_update (\<lambda>_. x)) decode_int)"
  "find_field claims_fields ''profile'' = Some (field mc_profile (\<lambda>x. mc_profile_update (\<lambda>_. x)) decode_string)"
  "find_field claims_fields ''workload'' = Some (field mc_workload (\<lambda>x. mc_workload_update (\<lambda>_. x)) decode_string)"
  "find_field claims_fields ''source_revision'' = Some (field mc_source_revision (\<lambda>x. mc_source_revision_update (\<lambda>_. x)) decode_string)"
  "find_field claims_fields ''ingress'' = Some (decode_struct False ingress_fields)"
  "find_field ingress_fields ''e2ee'' = Some (field mc_ingress_e2ee (\<lambda>x. mc_ingress_e2ee_update (\<lambda>_. x)) decode_raw)"
  by (simp_all add: claims_fields_def ingress_fields_def find_field_def)

lemma decodes_claims:
  assumes "in_int64 (mc_schema_version c)" "plain (mc_profile c)" "plain (mc_workload c)" "plain (mc_source_revision c)"
    "parses_to k (mc_ingress_e2ee c) v"
  shows "decodes (Suc (Suc k)) (decode_struct False claims_fields) zero_claims (enc_claims c) c"
proof -
  let ?r = "zero_claims\<lparr>mc_schema_version := mc_schema_version c, mc_profile := mc_profile c,
      mc_workload := mc_workload c, mc_source_revision := mc_source_revision c\<rparr>"
  have "members_decode k False ingress_fields [(''e2ee'', mc_ingress_e2ee c)] ?r (?r\<lparr>mc_ingress_e2ee := mc_ingress_e2ee c\<rparr>)"
    by (rule claims_find(6) [THEN members_decode_put] decodes_raw assms(5) | simp add: plain_char_def)+
  from decodes_struct [OF this]
  have e: "decodes (Suc k) (decode_struct False ingress_fields) ?r (enc_object [(''e2ee'', mc_ingress_e2ee c)])
      (?r\<lparr>mc_ingress_e2ee := mc_ingress_e2ee c\<rparr>)" .
  have "members_decode (Suc k) False claims_fields
      ([(''schema_version'', dec_int (mc_schema_version c))] @ [(''profile'', enc_string (mc_profile c))] @
       [(''workload'', enc_string (mc_workload c))] @ [(''source_revision'', enc_string (mc_source_revision c))])
      zero_claims ?r"
    by (rule members_decode_append claims_find(1-4) [THEN members_decode_put] decodes_plain decodes_int |
      use assms in \<open>simp add: plain_char_def\<close>)+
  moreover have "members_decode (Suc k) False claims_fields
      [(''ingress'', enc_object [(''e2ee'', mc_ingress_e2ee c)])] ?r (?r\<lparr>mc_ingress_e2ee := mc_ingress_e2ee c\<rparr>)"
    by (rule members_decode_nested [OF claims_find(5) _ e]) (simp add: plain_char_def)
  ultimately have "members_decode (Suc k) False claims_fields
      (([(''schema_version'', dec_int (mc_schema_version c))] @ [(''profile'', enc_string (mc_profile c))] @
       [(''workload'', enc_string (mc_workload c))] @ [(''source_revision'', enc_string (mc_source_revision c))]) @
       [(''ingress'', enc_object [(''e2ee'', mc_ingress_e2ee c)])]) zero_claims (?r\<lparr>mc_ingress_e2ee := mc_ingress_e2ee c\<rparr>)"
    by (rule members_decode_append)
  moreover have "?r\<lparr>mc_ingress_e2ee := mc_ingress_e2ee c\<rparr> = c"
    by (cases c) (simp add: zero_claims_def)
  ultimately show ?thesis using decodes_struct unfolding enc_claims_def by (metis append_Cons append_Nil)
qed

text \<open>The manifest a Gateway of release \<open>revision\<close> publishes under a policy.\<close>

definition gateway_manifest :: "string \<Rightarrow> bytes" where
  "gateway_manifest revision = enc_claims \<lparr>mc_schema_version = ManifestSchemaVersion, mc_profile = GatewayProfile,
     mc_workload = GatewayWorkload, mc_source_revision = revision, mc_ingress_e2ee = enc_e2ee required_e2ee\<rparr>"

lemma gateway_manifest_parses:
  assumes "plain revision"
  shows "decodes 3 (decode_struct False claims_fields) zero_claims (gateway_manifest revision)
    \<lparr>mc_schema_version = ManifestSchemaVersion, mc_profile = GatewayProfile,
     mc_workload = GatewayWorkload, mc_source_revision = revision, mc_ingress_e2ee = enc_e2ee required_e2ee\<rparr>"
proof -
  obtain v where "parses_to (Suc 0) (enc_e2ee required_e2ee) v" using decodes_e2ee [of 0] by (auto simp: decodes_def)
  then show ?thesis unfolding gateway_manifest_def numeral_3_eq_3
    by (intro decodes_claims) (simp_all add: assms policy_consts(2) in_int64_def)
qed

lemma gateway_manifest_accepted:
  assumes "wf_policy p" "releaseFor p revision = Some r" "plain revision"
  shows "validateManifestAgainst p (gateway_manifest revision) = Inr r"
proof -
  have u: "json_unmarshal (decode_struct False claims_fields) zero_claims (gateway_manifest revision) =
      Inr \<lparr>mc_schema_version = ManifestSchemaVersion, mc_profile = GatewayProfile,
        mc_workload = GatewayWorkload, mc_source_revision = revision, mc_ingress_e2ee = enc_e2ee required_e2ee\<rparr>"
    by (rule json_unmarshal_decodes [OF gateway_manifest_parses [OF assms(3)]]) (simp add: max_nesting_def)
  obtain v where v: "parses_to (Suc 0) (enc_e2ee required_e2ee) v"
      "decode_struct True e2ee_fields zero_e2ee (enc_e2ee required_e2ee) v = Inr required_e2ee"
    using decodes_e2ee [of 0] by (auto simp: decodes_def)
  have e: "DecodeStrict (decode_struct True e2ee_fields) zero_e2ee (enc_e2ee required_e2ee) = Inr required_e2ee"
    using v(2) by (simp add: DecodeStrict_enc [OF v(1)] max_nesting_def)
  have "enc_e2ee required_e2ee \<noteq> []" "enc_e2ee required_e2ee \<noteq> ''null''" by (simp_all add: enc_e2ee_def enc_object_def)
  with assms u e show ?thesis by (simp add: validateManifestAgainst_def wf_policy_def)
qed

section \<open>The attestation response\<close>

definition enc_response :: "endpoint_response \<Rightarrow> bytes" where
  "enc_response p = enc_object
    [(''document'', enc_string (ep_document p)), (''format'', enc_string (ep_format p)),
     (''encoding'', enc_string (ep_encoding p)), (''user_data'', enc_string (ep_user_data p)),
     (''user_data_encoding'', enc_string (ep_user_data_encoding p)),
     (''hpke_public_key'', enc_string (ep_hpke_public_key p)),
     (''hpke_public_key_encoding'', enc_string (ep_hpke_public_key_encoding p)), (''manifest'', ep_manifest p)]"

lemma endpoint_find:
  "find_field endpoint_fields ''document'' = Some (field ep_document (\<lambda>x. ep_document_update (\<lambda>_. x)) decode_string)"
  "find_field endpoint_fields ''format'' = Some (field ep_format (\<lambda>x. ep_format_update (\<lambda>_. x)) decode_string)"
  "find_field endpoint_fields ''encoding'' = Some (field ep_encoding (\<lambda>x. ep_encoding_update (\<lambda>_. x)) decode_string)"
  "find_field endpoint_fields ''user_data'' = Some (field ep_user_data (\<lambda>x. ep_user_data_update (\<lambda>_. x)) decode_string)"
  "find_field endpoint_fields ''user_data_encoding'' = Some (field ep_user_data_encoding (\<lambda>x. ep_user_data_encoding_update (\<lambda>_. x)) decode_string)"
  "find_field endpoint_fields ''hpke_public_key'' = Some (field ep_hpke_public_key (\<lambda>x. ep_hpke_public_key_update (\<lambda>_. x)) decode_string)"
  "find_field endpoint_fields ''hpke_public_key_encoding'' = Some (field ep_hpke_public_key_encoding (\<lambda>x. ep_hpke_public_key_encoding_update (\<lambda>_. x)) decode_string)"
  "find_field endpoint_fields ''manifest'' = Some (field ep_manifest (\<lambda>x. ep_manifest_update (\<lambda>_. x)) decode_raw)"
  by (simp_all add: endpoint_fields_def find_field_def)

lemma decodes_response:
  assumes "list_all plain [ep_document p, ep_format p, ep_encoding p, ep_user_data p, ep_user_data_encoding p,
      ep_hpke_public_key p, ep_hpke_public_key_encoding p]" "parses_to k (ep_manifest p) v"
  shows "decodes (Suc k) (decode_struct True endpoint_fields) zero_endpoint_response (enc_response p) p"
proof -
  have "members_decode k True endpoint_fields
      ([(''document'', enc_string (ep_document p))] @ [(''format'', enc_string (ep_format p))] @
       [(''encoding'', enc_string (ep_encoding p))] @ [(''user_data'', enc_string (ep_user_data p))] @
       [(''user_data_encoding'', enc_string (ep_user_data_encoding p))] @
       [(''hpke_public_key'', enc_string (ep_hpke_public_key p))] @
       [(''hpke_public_key_encoding'', enc_string (ep_hpke_public_key_encoding p))] @ [(''manifest'', ep_manifest p)])
      zero_endpoint_response (zero_endpoint_response\<lparr>ep_document := ep_document p, ep_format := ep_format p,
        ep_encoding := ep_encoding p, ep_user_data := ep_user_data p, ep_user_data_encoding := ep_user_data_encoding p,
        ep_hpke_public_key := ep_hpke_public_key p, ep_hpke_public_key_encoding := ep_hpke_public_key_encoding p,
        ep_manifest := ep_manifest p\<rparr>)"
    by (rule members_decode_append endpoint_find [THEN members_decode_put] decodes_plain decodes_raw assms(2) |
      use assms(1) in \<open>simp add: plain_char_def\<close>)+
  moreover have "zero_endpoint_response\<lparr>ep_document := ep_document p, ep_format := ep_format p,
        ep_encoding := ep_encoding p, ep_user_data := ep_user_data p, ep_user_data_encoding := ep_user_data_encoding p,
        ep_hpke_public_key := ep_hpke_public_key p, ep_hpke_public_key_encoding := ep_hpke_public_key_encoding p,
        ep_manifest := ep_manifest p\<rparr> = p"
    by (cases p) (simp add: zero_endpoint_response_def)
  ultimately show ?thesis using decodes_struct unfolding enc_response_def by (metis append_Cons append_Nil)
qed

text \<open>What a Gateway answers to an attestation request: document, manifest, its digest and the key.\<close>

definition gateway_evidence :: "bytes \<Rightarrow> bytes \<Rightarrow> bytes \<Rightarrow> fetched_evidence" where
  "gateway_evidence document manifest key =
     \<lparr>fe_document = document, fe_manifest = manifest, fe_user_data = sha384 manifest, fe_public_key_copy = key\<rparr>"

definition gateway_payload :: "fetched_evidence \<Rightarrow> endpoint_response" where
  "gateway_payload f = \<lparr>ep_document = b64_std_encode (fe_document f), ep_format = ''aws-nitro-cose-sign1'',
     ep_encoding = ''base64'', ep_user_data = hex_encode (fe_user_data f), ep_user_data_encoding = ''sha384-hex'',
     ep_hpke_public_key = hex_encode (fe_public_key_copy f), ep_hpke_public_key_encoding = ''raw-x25519-hex'',
     ep_manifest = fe_manifest f\<rparr>"

lemma plain_hex_encode: "plain (hex_encode d)"
  by (rule hex_plain) (rule hex_encode_lower)

definition sound_evidence :: "fetched_evidence \<Rightarrow> bool" where
  "sound_evidence f \<longleftrightarrow> fe_document f \<noteq> [] \<and> length (fe_user_data f) = 48 \<and>
     length (fe_public_key_copy f) = hpkePublicKeyBytes \<and> \<not> allZero (fe_public_key_copy f) \<and>
     fe_manifest f \<noteq> ''null'' \<and> (\<exists>v. parses_to (max_nesting - 1) (fe_manifest f) v)"

lemma payload_checked:
  assumes "sound_evidence f"
  shows "check_payload (gateway_payload f) = Inr f"
proof -
  obtain v where v: "parses_to (max_nesting - 1) (fe_manifest f) v" using assms by (auto simp: sound_evidence_def)
  then have "json_valid (fe_manifest f)" "fe_manifest f \<noteq> []"
    using json_parse_enc [OF v] by (simp_all add: json_valid_def max_nesting_def parses_to_def)
  then show ?thesis using assms
    by (simp add: check_payload_def gateway_payload_def sound_evidence_def decodeCanonicalBase64_def decodeCanonicalHex_def
        hpkePublicKeyBytes_def)
qed

lemma response_read:
  assumes "sound_evidence f" "length (enc_response (gateway_payload f)) \<le> 1048576"
    "resp_status r = 200" "parse_media_type (header_get (resp_header r) ''Content-Type'') = Some ''application/json''"
    "resp_body r = [(enc_response (gateway_payload f), None)]"
  shows "read_attestation_response r = Inr f"
proof -
  let ?tx = "enc_response (gateway_payload f)"
  have body: "ReadAllLimited (resp_body r) maxAttestationResponse = Inr ?tx"
    using assms(2) by (subst ReadAllLimited_iff) (simp_all add: maxAttestationResponse_def assms(5))
  obtain v where "parses_to (max_nesting - 1) (fe_manifest f) v" using assms(1) by (auto simp: sound_evidence_def)
  then have d: "decodes (Suc (max_nesting - 1)) (decode_struct True endpoint_fields) zero_endpoint_response ?tx (gateway_payload f)"
    by (intro decodes_response) (simp_all add: gateway_payload_def plain_b64 plain_hex_encode plain_char_def)
  obtain j where j: "parses_to (Suc (max_nesting - 1)) ?tx j"
    "decode_struct True endpoint_fields zero_endpoint_response ?tx j = Inr (gateway_payload f)"
    using d by (auto simp: decodes_def)
  have "DecodeStrict (decode_struct True endpoint_fields) zero_endpoint_response ?tx = Inr (gateway_payload f)"
    using j(2) by (simp add: DecodeStrict_enc [OF j(1)] max_nesting_def)
  then show ?thesis
    using assms(3,4) body payload_checked [OF assms(1)] by (simp add: read_attestation_response_def)
qed

section \<open>The release manifest\<close>

definition enc_manifest :: "release_manifest \<Rightarrow> bytes" where
  "enc_manifest m = enc_object
    [(''schema_version'', dec_int (mf_schema_version m)),
     (''release'', enc_object [(''version'', enc_string (mf_version m)), (''environment'', enc_string (mf_environment m))]),
     (''source'', enc_object [(''repository'', enc_string (mf_repository m)), (''revision'', enc_string (mf_revision m))]),
     (''enclave'', enc_object [(''measurements'', enc_object
        [(''schema_version'', dec_int (mf_measurements_version m)), (''pcr0'', enc_string (mf_pcr0 m)),
         (''pcr1'', enc_string (mf_pcr1 m)), (''pcr2'', enc_string (mf_pcr2 m))])]),
     (''security_profile'', enc_object [(''body_e2ee'', enc_object
        [(''protocol'', enc_string (mf_protocol m)), (''suite'', enc_string (mf_suite m)),
         (''endpoint'', enc_string (mf_endpoint m))])])]"

definition plain_manifest :: "release_manifest \<Rightarrow> bool" where
  "plain_manifest m \<longleftrightarrow> in_int64 (mf_schema_version m) \<and> in_int64 (mf_measurements_version m) \<and>
     list_all plain [mf_version m, mf_environment m, mf_repository m, mf_revision m, mf_pcr0 m, mf_pcr1 m, mf_pcr2 m,
       mf_protocol m, mf_suite m, mf_endpoint m]"

abbreviation (input) release_group :: "release_manifest fields" where
  "release_group \<equiv> [(''version'', field mf_version (\<lambda>x. mf_version_update (\<lambda>_. x)) decode_string),
     (''environment'', field mf_environment (\<lambda>x. mf_environment_update (\<lambda>_. x)) decode_string)]"

abbreviation (input) source_group :: "release_manifest fields" where
  "source_group \<equiv> [(''repository'', field mf_repository (\<lambda>x. mf_repository_update (\<lambda>_. x)) decode_string),
     (''revision'', field mf_revision (\<lambda>x. mf_revision_update (\<lambda>_. x)) decode_string)]"

lemma manifest_find:
  "find_field manifest_fields ''schema_version'' = Some (field mf_schema_version (\<lambda>x. mf_schema_version_update (\<lambda>_. x)) decode_int)"
  "find_field manifest_fields ''release'' = Some (decode_struct False release_group)"
  "find_field manifest_fields ''source'' = Some (decode_struct False source_group)"
  "find_field manifest_fields ''enclave'' = Some (decode_struct False [(''measurements'', decode_struct False measurements_fields)])"
  "find_field manifest_fields ''security_profile'' = Some (decode_struct False [(''body_e2ee'', decode_struct False body_e2ee_fields)])"
  "find_field [(''measurements'', dec)] ''measurements'' = Some dec"
  "find_field [(''body_e2ee'', dec)] ''body_e2ee'' = Some dec"
  by (simp_all add: manifest_fields_def find_field_def)

lemma manifest_group_find:
  "find_field release_group ''version'' = Some (field mf_version (\<lambda>x. mf_version_update (\<lambda>_. x)) decode_string)"
  "find_field release_group ''environment'' = Some (field mf_environment (\<lambda>x. mf_environment_update (\<lambda>_. x)) decode_string)"
  "find_field source_group ''repository'' = Some (field mf_repository (\<lambda>x. mf_repository_update (\<lambda>_. x)) decode_string)"
  "find_field source_group ''revision'' = Some (field mf_revision (\<lambda>x. mf_revision_update (\<lambda>_. x)) decode_string)"
  "find_field measurements_fields ''schema_version'' = Some (field mf_measurements_version (\<lambda>x. mf_measurements_version_update (\<lambda>_. x)) decode_int)"
  "find_field measurements_fields ''pcr0'' = Some (field mf_pcr0 (\<lambda>x. mf_pcr0_update (\<lambda>_. x)) decode_string)"
  "find_field measurements_fields ''pcr1'' = Some (field mf_pcr1 (\<lambda>x. mf_pcr1_update (\<lambda>_. x)) decode_string)"
  "find_field measurements_fields ''pcr2'' = Some (field mf_pcr2 (\<lambda>x. mf_pcr2_update (\<lambda>_. x)) decode_string)"
  "find_field body_e2ee_fields ''protocol'' = Some (field mf_protocol (\<lambda>x. mf_protocol_update (\<lambda>_. x)) decode_string)"
  "find_field body_e2ee_fields ''suite'' = Some (field mf_suite (\<lambda>x. mf_suite_update (\<lambda>_. x)) decode_string)"
  "find_field body_e2ee_fields ''endpoint'' = Some (field mf_endpoint (\<lambda>x. mf_endpoint_update (\<lambda>_. x)) decode_string)"
  by (simp_all add: measurements_fields_def body_e2ee_fields_def find_field_def)

lemmas manifest_steps = manifest_group_find [THEN members_decode_put] decodes_plain decodes_int

lemma decodes_nested_one:
  assumes "members_decode k False fs ms r r'" "utf8_valid n"
  shows "decodes (Suc (Suc k)) (decode_struct False [(n, decode_struct False fs)]) r (enc_object [(n, enc_object ms)]) r'"
  by (rule decodes_struct, rule members_decode_nested [OF _ assms(2) decodes_struct [OF assms(1)]]) (simp add: find_field_def)

lemma decodes_manifest:
  assumes "plain_manifest m"
  shows "decodes 4 (decode_struct False manifest_fields) zero_manifest (enc_manifest m) m"
proof -
  note p = assms [unfolded plain_manifest_def]
  let ?r0 = "zero_manifest\<lparr>mf_schema_version := mf_schema_version m\<rparr>"
  let ?r1 = "?r0\<lparr>mf_version := mf_version m, mf_environment := mf_environment m\<rparr>"
  let ?r2 = "?r1\<lparr>mf_repository := mf_repository m, mf_revision := mf_revision m\<rparr>"
  let ?r3 = "?r2\<lparr>mf_measurements_version := mf_measurements_version m, mf_pcr0 := mf_pcr0 m, mf_pcr1 := mf_pcr1 m,
    mf_pcr2 := mf_pcr2 m\<rparr>"
  let ?r4 = "?r3\<lparr>mf_protocol := mf_protocol m, mf_suite := mf_suite m, mf_endpoint := mf_endpoint m\<rparr>"
  have a: "members_decode (Suc (Suc 0)) False release_group
      ([(''version'', enc_string (mf_version m))] @ [(''environment'', enc_string (mf_environment m))]) ?r0 ?r1"
    by (rule members_decode_append manifest_steps | use p in \<open>simp add: plain_char_def\<close>)+
  have b: "members_decode (Suc (Suc 0)) False source_group
      ([(''repository'', enc_string (mf_repository m))] @ [(''revision'', enc_string (mf_revision m))]) ?r1 ?r2"
    by (rule members_decode_append manifest_steps | use p in \<open>simp add: plain_char_def\<close>)+
  have c: "members_decode (Suc 0) False measurements_fields
      ([(''schema_version'', dec_int (mf_measurements_version m))] @ [(''pcr0'', enc_string (mf_pcr0 m))] @
       [(''pcr1'', enc_string (mf_pcr1 m))] @ [(''pcr2'', enc_string (mf_pcr2 m))]) ?r2 ?r3"
    by (rule members_decode_append manifest_steps | use p in \<open>simp add: plain_char_def\<close>)+
  have d: "members_decode (Suc 0) False body_e2ee_fields
      ([(''protocol'', enc_string (mf_protocol m))] @ [(''suite'', enc_string (mf_suite m))] @
       [(''endpoint'', enc_string (mf_endpoint m))]) ?r3 ?r4"
    by (rule members_decode_append manifest_steps | use p in \<open>simp add: plain_char_def\<close>)+
  have s: "members_decode 3 False manifest_fields [(''schema_version'', dec_int (mf_schema_version m))] zero_manifest ?r0"
    by (rule manifest_find(1) [THEN members_decode_put] decodes_int | use p in \<open>simp add: plain_char_def\<close>)+
  note nest = members_decode_nested [where k = 3 and strict = False, unfolded numeral_3_eq_3]
  have "members_decode 3 False manifest_fields
      ([(''schema_version'', dec_int (mf_schema_version m))] @
       [(''release'', enc_object ([(''version'', enc_string (mf_version m))] @ [(''environment'', enc_string (mf_environment m))]))] @
       [(''source'', enc_object ([(''repository'', enc_string (mf_repository m))] @ [(''revision'', enc_string (mf_revision m))]))] @
       [(''enclave'', enc_object [(''measurements'', enc_object
          ([(''schema_version'', dec_int (mf_measurements_version m))] @ [(''pcr0'', enc_string (mf_pcr0 m))] @
           [(''pcr1'', enc_string (mf_pcr1 m))] @ [(''pcr2'', enc_string (mf_pcr2 m))]))])] @
       [(''security_profile'', enc_object [(''body_e2ee'', enc_object
          ([(''protocol'', enc_string (mf_protocol m))] @ [(''suite'', enc_string (mf_suite m))] @
           [(''endpoint'', enc_string (mf_endpoint m))]))])]) zero_manifest ?r4"
    unfolding numeral_3_eq_3
    by (rule members_decode_append s [unfolded numeral_3_eq_3] nest [OF manifest_find(2) _ decodes_struct [OF a]]
        nest [OF manifest_find(3) _ decodes_struct [OF b]] nest [OF manifest_find(4) _ decodes_nested_one [OF c]]
        nest [OF manifest_find(5) _ decodes_nested_one [OF d]] | simp add: plain_char_def)+
  moreover have "?r4 = m" by (cases m) (simp add: zero_manifest_def)
  ultimately have "members_decode 3 False manifest_fields
    [(''schema_version'', dec_int (mf_schema_version m)),
     (''release'', enc_object [(''version'', enc_string (mf_version m)), (''environment'', enc_string (mf_environment m))]),
     (''source'', enc_object [(''repository'', enc_string (mf_repository m)), (''revision'', enc_string (mf_revision m))]),
     (''enclave'', enc_object [(''measurements'', enc_object
        [(''schema_version'', dec_int (mf_measurements_version m)), (''pcr0'', enc_string (mf_pcr0 m)),
         (''pcr1'', enc_string (mf_pcr1 m)), (''pcr2'', enc_string (mf_pcr2 m))])]),
     (''security_profile'', enc_object [(''body_e2ee'', enc_object
        [(''protocol'', enc_string (mf_protocol m)), (''suite'', enc_string (mf_suite m)),
         (''endpoint'', enc_string (mf_endpoint m))])])] zero_manifest m" by simp
  from decodes_struct [OF this] show ?thesis by (simp add: enc_manifest_def)
qed

lemma ParseManifest_enc:
  assumes "plain_manifest m" "length (enc_manifest m) \<le> maxManifestBytes"
  shows "ParseManifest (enc_manifest m) = (case manifest_validate m of Some e \<Rightarrow> Inl e | None \<Rightarrow> Inr m)"
proof -
  have "json_unmarshal (decode_struct False manifest_fields) zero_manifest (enc_manifest m) = Inr m"
    by (rule json_unmarshal_decodes [OF decodes_manifest [OF assms(1)]]) (simp add: max_nesting_def)
  moreover have "enc_manifest m \<noteq> []" by (simp add: enc_manifest_def enc_object_def)
  ultimately show ?thesis using assms(2) by (simp add: ParseManifest_def)
qed

section \<open>The release listing\<close>

definition enc_asset :: "asset \<Rightarrow> string" where
  "enc_asset a = enc_object [(''name'', enc_string (as_name a)), (''browser_download_url'', enc_string (as_url a))]"

definition enc_listing :: "release_listing \<Rightarrow> string" where
  "enc_listing l = enc_object
    [(''draft'', enc_bool (rl_draft l)), (''prerelease'', enc_bool (rl_prerelease l)),
     (''published_at'', enc_string (rl_published_at l)), (''assets'', enc_array (map enc_asset (rl_assets l)))]"

definition plain_listing :: "release_listing \<Rightarrow> bool" where
  "plain_listing l \<longleftrightarrow> plain (rl_published_at l) \<and> list_all (\<lambda>a. plain (as_name a) \<and> plain (as_url a)) (rl_assets l)"

lemma listing_find:
  "find_field asset_fields ''name'' = Some (field as_name (\<lambda>x. as_name_update (\<lambda>_. x)) decode_string)"
  "find_field asset_fields ''browser_download_url'' = Some (field as_url (\<lambda>x. as_url_update (\<lambda>_. x)) decode_string)"
  "find_field listing_fields ''draft'' = Some (field rl_draft (\<lambda>x. rl_draft_update (\<lambda>_. x)) decode_bool)"
  "find_field listing_fields ''prerelease'' = Some (field rl_prerelease (\<lambda>x. rl_prerelease_update (\<lambda>_. x)) decode_bool)"
  "find_field listing_fields ''published_at'' = Some (field rl_published_at (\<lambda>x. rl_published_at_update (\<lambda>_. x)) decode_string)"
  "find_field listing_fields ''assets'' = Some (field rl_assets (\<lambda>x. rl_assets_update (\<lambda>_. x))
     (decode_slice (decode_struct False asset_fields) zero_asset))"
  by (simp_all add: asset_fields_def listing_fields_def find_field_def)

lemma decodes_asset:
  assumes "plain (as_name a)" "plain (as_url a)"
  shows "decodes (Suc k) (decode_struct False asset_fields) zero_asset (enc_asset a) a"
proof -
  have "members_decode k False asset_fields
      ([(''name'', enc_string (as_name a))] @ [(''browser_download_url'', enc_string (as_url a))])
      zero_asset (zero_asset\<lparr>as_name := as_name a, as_url := as_url a\<rparr>)"
    by (rule members_decode_append listing_find(1,2) [THEN members_decode_put] decodes_plain |
      use assms in \<open>simp add: plain_char_def\<close>)+
  moreover have "zero_asset\<lparr>as_name := as_name a, as_url := as_url a\<rparr> = a"
    by (cases a) (simp add: zero_asset_def)
  ultimately show ?thesis using decodes_struct unfolding enc_asset_def by (metis append_Cons append_Nil)
qed

lemma decodes_listing:
  assumes "plain_listing l"
  shows "decodes (Suc (Suc (Suc k))) (decode_struct False listing_fields) zero_listing (enc_listing l) l"
proof -
  have as: "decodes (Suc (Suc k)) (decode_slice (decode_struct False asset_fields) zero_asset) []
      (enc_array (map enc_asset (rl_assets l))) (rl_assets l)"
    by (rule decodes_slice) (use assms in \<open>auto simp: list_all2_conv_all_nth plain_listing_def list_all_length intro: decodes_asset\<close>)
  have "members_decode (Suc (Suc k)) False listing_fields
      ([(''draft'', enc_bool (rl_draft l))] @ [(''prerelease'', enc_bool (rl_prerelease l))] @
       [(''published_at'', enc_string (rl_published_at l))] @ [(''assets'', enc_array (map enc_asset (rl_assets l)))])
      zero_listing (zero_listing\<lparr>rl_draft := rl_draft l, rl_prerelease := rl_prerelease l,
        rl_published_at := rl_published_at l, rl_assets := rl_assets l\<rparr>)"
    by (rule members_decode_append listing_find(3-6) [THEN members_decode_put] decodes_plain decodes_bool as |
      use assms as in \<open>simp add: plain_char_def plain_listing_def zero_listing_def\<close>)+
  moreover have "zero_listing\<lparr>rl_draft := rl_draft l, rl_prerelease := rl_prerelease l,
        rl_published_at := rl_published_at l, rl_assets := rl_assets l\<rparr> = l"
    by (cases l) (simp add: zero_listing_def)
  ultimately show ?thesis using decodes_struct unfolding enc_listing_def by (metis append_Cons append_Nil)
qed

lemma listings_decoded:
  assumes "list_all plain_listing ls"
  shows "json_unmarshal (decode_slice (decode_struct False listing_fields) zero_listing) [] (enc_array (map enc_listing ls)) = Inr ls"
proof (rule json_unmarshal_decodes)
  show "decodes (Suc (Suc (Suc (Suc 0)))) (decode_slice (decode_struct False listing_fields) zero_listing) []
      (enc_array (map enc_listing ls)) ls"
    by (rule decodes_slice) (use assms in \<open>auto simp: list_all2_conv_all_nth list_all_length intro: decodes_listing\<close>)
qed (simp add: max_nesting_def)

end
