(* ===== verification/Scenario.thy ===== *)
theory Scenario
  imports NexusSafety Documents
begin

text \<open>
  One concrete environment in which the whole program runs: a Gateway of a pinned release that answers
  attestation requests, GitHub with one signed release, an accepting EHBP library, and a disk. The
  parameters of the model are instantiated with concrete functions, so that the properties that need an
  accepted attestation, a derived policy or a running client can be applied.
\<close>

section \<open>The pinned release and its policy\<close>

definition sample_revision :: string where "sample_revision = replicate 40 CHR ''a''"
definition sample_pcr :: string where "sample_pcr = replicate 96 CHR ''b''"
definition sample_pcr_bytes :: bytes where "sample_pcr_bytes = replicate 48 CHR 0xBB"
definition sample_pcrs :: "nat \<Rightarrow> bytes option" where
  "sample_pcrs = [0 \<mapsto> sample_pcr_bytes, 1 \<mapsto> sample_pcr_bytes, 2 \<mapsto> sample_pcr_bytes]"

definition sample_release :: release where
  "sample_release = \<lparr>rel_source_revision = sample_revision, rel_pcr0 = sample_pcr, rel_pcr1 = sample_pcr,
     rel_pcr2 = sample_pcr, rel_pcrs = Map.empty\<rparr>"

definition sample_policy :: policy where
  "sample_policy = document_policy [sample_release\<lparr>rel_pcrs := sample_pcrs\<rparr>]"

definition sample_policy_json :: bytes where "sample_policy_json = policy_document [sample_release]"

lemma sample_pcr_decodes: "decodePCR i sample_pcr = Inr sample_pcr_bytes"
proof -
  have "hex_encode sample_pcr_bytes = sample_pcr" unfolding sample_pcr_def sample_pcr_bytes_def by code_simp
  then show ?thesis by (simp add: decodePCR_iff allZero_iff list_all_iff pcrBytes_def sample_pcr_bytes_def)
qed

lemma sample_texts:
  "sourceRevisionPattern sample_revision" "list_all plain_char sample_revision" "list_all plain_char sample_pcr"
  "length sample_revision = 40" "length sample_pcr = 96"
  by (simp_all add: sourceRevisionPattern_def list_all_iff is_lower_hex_def sample_revision_def sample_pcr_def plain_char_def)

lemma sample_release_plain: "plain_release sample_release"
  by (simp add: plain_release_def sample_release_def sample_texts)

lemma sample_policy_validates: "policy_validate (document_policy [sample_release]) = Inr sample_policy"
  by (simp add: policy_validate_def document_policy_def sample_policy_def release_validate_def sample_release_def
      sample_texts sample_pcr_decodes sample_pcrs_def MaxPolicyReleases_def required_e2ee_def)

lemma sample_policy_wf: "wf_policy sample_policy"
  using policy_validate_Inr [OF sample_policy_validates] by blast

lemma sample_policy_length: "length sample_policy_json \<le> 3000"
proof -
  have "length (enc_release sample_release) \<le> 400"
    by (rule length_enc_release [OF sample_release_plain]) (simp_all add: sample_release_def sample_texts)
  then show ?thesis unfolding sample_policy_json_def by (intro length_policy_document) simp_all
qed

lemma sample_policy_parses: "ParsePolicy sample_policy_json = Inr sample_policy"
  using sample_policy_length unfolding sample_policy_json_def
  by (subst ParsePolicy_document) (simp_all add: sample_release_plain sample_policy_validates)

section \<open>The Gateway\<close>

definition sample_key :: bytes where "sample_key = replicate 32 CHR 0x07"
definition sample_nonce :: bytes where "sample_nonce = replicate 32 CHR 0x09"
definition sample_manifest :: bytes where "sample_manifest = gateway_manifest sample_revision"
definition sample_fetched :: fetched_evidence where
  "sample_fetched = gateway_evidence ''signed document'' sample_manifest sample_key"
definition sample_time :: time where "sample_time = unix_milli 1000000"

definition sample_nitro_document :: nitro_document where
  "sample_nitro_document = \<lparr>nd_module_id = ''module'', nd_timestamp = 1000000, nd_pcrs = sample_pcrs\<rparr>"

definition sample_result :: nitro_result where
  "sample_result = \<lparr>nr_valid = True, nr_errors = [], nr_chain_trusted = True,
     nr_root_fingerprint = expectedAWSRootFingerprint, nr_document = Some sample_nitro_document,
     nr_nonce = sample_nonce, nr_user_data = sha384 sample_manifest, nr_public_key = sample_key\<rparr>"

text \<open>A Nitro verifier that accepts the one document the Gateway signed.\<close>

definition sample_nitro :: nitro where
  "sample_nitro document =
     (if document = ''signed document'' then Inr (Some sample_result) else Inl (Msg ''unknown document''))"

lemma sample_sound: "sound_evidence sample_fetched"
proof -
  obtain v where "parses_to 3 sample_manifest v"
    using gateway_manifest_parses [OF sample_texts(2)] by (auto simp: decodes_def sample_manifest_def)
  then have "parses_to (max_nesting - 1) sample_manifest v" by (rule parses_to_mono) (simp add: max_nesting_def)
  then show ?thesis
    by (auto simp: sound_evidence_def sample_fetched_def gateway_evidence_def sample_key_def hpkePublicKeyBytes_def
        allZero_iff list_all_iff sample_manifest_def gateway_manifest_def enc_claims_def enc_object_def length_sha384)
qed

lemma sample_lookup: "releaseFor sample_policy sample_revision = Some (sample_release\<lparr>rel_pcrs := sample_pcrs\<rparr>)"
  by (simp add: releaseFor_def sample_policy_def document_policy_def sample_release_def)

lemma sample_admissible:
  assumes "v_policy v = sample_policy" "v_max_age v = defaultMaximumAge" "v_max_future_skew v = defaultMaximumFutureSkew"
  shows "admissible v sample_nitro sample_fetched sample_nonce sample_time (sample_release\<lparr>rel_pcrs := sample_pcrs\<rparr>)
    sample_result sample_nitro_document"
  using gateway_manifest_accepted [OF sample_policy_wf sample_lookup sample_texts(2)] assms
  by (simp add: admissible_def sample_nitro_def sample_fetched_def gateway_evidence_def sample_result_def
      sample_nitro_document_def sample_nonce_def nonceBytes_def sample_time_def unix_milli_def unix_epoch_def duration_units
      defaultMaximumAge_def defaultMaximumFutureSkew_def sample_key_def hpkePublicKeyBytes_def allZero_iff list_all_iff
      sample_manifest_def expectedPCRs_def sample_pcrs_def sample_pcr_bytes_def pcrBytes_def)

lemma sample_response_length: "length (enc_response (gateway_payload sample_fetched)) \<le> 1048576"
proof -
  have m: "length sample_manifest \<le> 1000"
    by (simp add: sample_manifest_def gateway_manifest_def enc_claims_def enc_object_def enc_e2ee_def required_e2ee_def
        policy_consts dec_int_def dec_nat.simps plain_char_def sample_texts enc_bool_def)
  have b: "length (b64_std_encode (fe_document sample_fetched)) \<le> 100"
    using length_b64 [of "fe_document sample_fetched"] by (simp add: sample_fetched_def gateway_evidence_def)
  from m b show ?thesis
    by (simp add: enc_response_def gateway_payload_def enc_object_def plain_b64 plain_hex_encode plain_char_def)
       (simp add: sample_fetched_def gateway_evidence_def sample_key_def)
qed

section \<open>The environment\<close>

definition json_reply :: "int \<Rightarrow> bytes \<Rightarrow> wire_response" where
  "json_reply status body = \<lparr>wr_response = \<lparr>resp_status = status,
     resp_header = header_set [] ''Content-Type'' ''application/json'', resp_body = [(body, None)]\<rparr>, wr_redirect = None\<rparr>"

text \<open>The network state says whether the network is up.\<close>

definition sample_transport :: "bool transport" where
  "sample_transport req up =
     (if \<not> up then (Inl (Msg ''connection refused''), up)
      else if has_suffix (req_url req) ''/v1/attestation''
      then (Inr (json_reply 200 (enc_response (gateway_payload sample_fetched))), up)
      else (Inr (json_reply 404 ''{}''), up))"

definition sample_attest :: "bool attest_env" where
  "sample_attest = \<lparr>ae_random = (\<lambda>k up. (Inr (replicate k CHR 0x09), up)), ae_transport = sample_transport,
     ae_now = (\<lambda>up. (sample_time, up)), ae_nitro = (\<lambda>up. (sample_nitro, up))\<rparr>"

lemma json_reply_type:
  "parse_media_type (header_get (resp_header (wr_response (json_reply status body))) ''Content-Type'') = Some ''application/json''"
proof -
  have "parse_media_type ''application/json'' = Some ''application/json''" by code_simp
  then show ?thesis by (simp add: json_reply_def header_get_set)
qed

lemma sample_fetch:
  assumes "v_endpoint v = origin @ ''/v1/attestation''"
  shows "fetch (lift_attest sample_attest) v nonce (True, disk) = (Inr sample_fetched, (True, disk))"
proof -
  have "has_suffix (origin @ ''/v1/attestation'') ''/v1/attestation''"
    by (simp add: has_suffix_def)
  moreover have "read_attestation_response (wr_response (json_reply 200 (enc_response (gateway_payload sample_fetched)))) =
      Inr sample_fetched"
    by (rule response_read [OF sample_sound sample_response_length _ json_reply_type]) (simp_all add: json_reply_def)
  moreover have "wr_redirect (json_reply 200 body) = None" for body by (simp add: json_reply_def)
  ultimately show ?thesis
    by (simp add: fetch_def http_do_def client_do_def numeral_eq_Suc lift_attest_def lift_transport_def lift_net_def
        sample_attest_def sample_transport_def attestation_request_def Let_def assms)
qed

definition sample_verified :: "verifier \<Rightarrow> evidence" where
  "sample_verified v = evidence_of v sample_fetched (sample_release\<lparr>rel_pcrs := sample_pcrs\<rparr>) sample_result sample_nitro_document"

lemma sample_verify:
  assumes "v_endpoint v = origin @ ''/v1/attestation''" "v_policy v = sample_policy"
    "v_max_age v = defaultMaximumAge" "v_max_future_skew v = defaultMaximumFutureSkew"
  shows "Verify (lift_attest sample_attest) v (True, disk) = (Inr (sample_verified v), (True, disk))"
  using sample_fetch [OF assms(1)] validate_complete [OF sample_admissible [OF assms(2-4)]]
  by (simp add: Verify_def sample_verified_def)
     (simp add: lift_attest_def lift_net_def sample_attest_def sample_nonce_def nonceBytes_def)

text \<open>An EHBP library that takes every key and a Gateway behind it that answers every request with one object.\<close>

definition sample_ehbp :: "(unit, bool) ehbp" where
  "sample_ehbp = \<lparr>eh_from_public_key = (\<lambda>k. Inr ()), eh_new_transport = (\<lambda>i. Inr ()),
     eh_transport = (\<lambda>i req up. (if up then Inr (json_reply 200 ''{}'') else Inl (Msg ''connection refused''), up)),
     eh_is_key_config_error = (\<lambda>e. False)\<rparr>"

text \<open>A sigstore whose bundle is valid when it repeats the manifest after a mark.\<close>

definition sample_sigstore :: "(unit, unit, bytes, unit) sigstore" where
  "sample_sigstore = \<lparr>sg_root = (\<lambda>j. Inr ()), sg_new_verifier = (\<lambda>t a b c. Inr ()), sg_parse_bundle = Inr,
     sg_identity = (\<lambda>a b c d. Inr ()),
     sg_verify = (\<lambda>v bundle manifest i. if bundle = ''signed:'' @ manifest then None else Some (Msg ''bad signature''))\<rparr>"

definition sample_env :: "(unit, unit, bytes, unit, unit, bool) sdk_env" where
  "sample_env = \<lparr>se_attest = sample_attest, se_sigstore = sample_sigstore, se_root_json = ''{}'', se_ehbp = sample_ehbp,
     se_page = ''<html>''\<rparr>"

definition sample_origin :: string where "sample_origin = ''https://gateway.example''"

definition sample_config :: nexus_config where
  "sample_config = \<lparr>nx_gateway_url = sample_origin, nx_trust_policy_file = [], nx_trust_policy_json = sample_policy_json,
     nx_attestation_timeout = 0, nx_updates = None, nx_state_file = [], nx_disable_ui = False, nx_disable_catalog = False\<rparr>"

lemma sample_url:
  "normalizeGatewayURL sample_origin = Inr sample_origin"
  "validateEndpointURL (sample_origin @ ''/v1/attestation'') ''/v1/attestation'' = Inr ()"
  "validate_confidential_endpoint (sample_origin @ ConfidentialEndpoint) = Inr ()"
  "is_ok (NewCatalogClient (sample_origin @ ModelsEndpoint) (Some rejecting_client))"
  unfolding rejecting_client_def
  by code_simp+

lemma sample_catalog:
  "NewCatalogClient (sample_origin @ ModelsEndpoint) (Some rejecting_client) =
     Inr \<lparr>cat_endpoint = sample_origin @ ModelsEndpoint, cat_wire = rejecting_client\<rparr>"
  using sample_url(4) by (auto simp: NewCatalogClient_def is_ok_def split: sum.splits if_splits)

definition sample_verifier :: verifier where
  "sample_verifier = \<lparr>v_endpoint = sample_origin @ ''/v1/attestation'', v_policy = sample_policy, v_client = rejecting_client,
     v_max_age = defaultMaximumAge, v_max_future_skew = defaultMaximumFutureSkew\<rparr>"

definition sample_client :: "unit nexus_client" where
  "sample_client = \<lparr>nc_gateway_url = sample_origin, nc_timeout = defaultAttestationTimeout, nc_source = None,
     nc_catalog = Some \<lparr>cat_endpoint = sample_origin @ ModelsEndpoint, cat_wire = rejecting_client\<rparr>,
     nc_verification_ui = True, nc_refresh_interval = None\<rparr>"

lemma sample_new_verifier:
  "NewVerifier (sample_origin @ ''/v1/attestation'') (Some sample_policy) (Some rejecting_client) = Inr sample_verifier"
  by (simp add: NewVerifier_def sample_url policy_validate_wf [OF sample_policy_wf] rejecting_client_def sample_verifier_def)

lemma sample_evidence_time:
  "ev_expires_at (sample_verified sample_verifier) = sample_time + 2 * minute"
  by (simp add: sample_verified_def evidence_of_def Let_def sample_nitro_document_def sample_time_def sample_verifier_def
      defaultMaximumAge_def)

lemma sample_source_verify:
  "source_verify sample_env None (Direct sample_verifier) (True, disk) =
     (Inr (Some (sample_verified sample_verifier)), Direct sample_verifier, (True, disk))"
  using sample_verify [of sample_verifier sample_origin disk]
  by (simp add: source_verify_def plain_verify_def sample_env_def sample_verifier_def)

text \<open>Warming up with a fresh ledger establishes the session of that evidence.\<close>

definition sample_session :: "unit session" where
  "sample_session = \<lparr>ss_ref = 0, ss_client = (), ss_expires_at = sample_time + 2 * minute,
     ss_attestation_id = FingerprintKey (ev_public_key (sample_verified sample_verifier))\<rparr>"

text \<open>The ledger after that evidence has been recorded.\<close>

definition sample_recorded :: "ledger option \<Rightarrow> ledger option" where
  "sample_recorded lo = (case describeEvidence (FingerprintKey (ev_public_key (sample_verified sample_verifier)))
       (sample_verified sample_verifier) sample_time of
     (rec, document, manifest) \<Rightarrow> RecordVerified rec document manifest 0 lo)"

lemma sample_recorded_None: "sample_recorded lo = None \<longleftrightarrow> lo = None"
  by (auto simp: sample_recorded_def RecordVerified_def split: option.splits prod.splits)

lemma sample_establish_recorded:
  "establish (confidential_env sample_env None sample_origin) st (Direct sample_verifier) (True, disk) =
      (Inr (sample_session\<lparr>ss_ref := cs_next_ref st\<rparr>),
       \<lparr>cs_session = Some (sample_session\<lparr>ss_ref := cs_next_ref st\<rparr>), cs_next_ref = Suc (cs_next_ref st),
        cs_ledger = sample_recorded (cs_ledger st)\<rparr>,
       Direct sample_verifier, (True, disk))"
proof -
  let ?env = "confidential_env sample_env None sample_origin" and ?ev = "sample_verified sample_verifier"
  have now: "lift_net (ae_now (se_attest sample_env)) (True, d) = (sample_time, (True, d))" for d
    by (simp add: sample_env_def sample_attest_def lift_net_def)
  let ?s = "sample_session\<lparr>ss_ref := cs_next_ref st\<rparr>"
  have t: "sample_time \<noteq> 0" by (simp add: sample_time_def unix_milli_def unix_epoch_def duration_units)
  have r: "record_verified (ce_now ?env) (FingerprintKey (ev_public_key ?ev)) ?ev st (True, disk) =
      (st\<lparr>cs_ledger := sample_recorded (cs_ledger st)\<rparr>, (True, disk))"
    using now describeEvidence_binding(4) [of "FingerprintKey (ev_public_key ?ev)" ?ev sample_time] t
    by (cases st; cases "cs_ledger st") (auto simp: record_verified_def sample_recorded_def RecordVerified_def split: prod.splits)
  have ex: "evidence_expired (ce_now ?env) (Some ?ev) (True, disk) = (False, (True, disk))"
    by (simp add: evidence_expired_def now sample_evidence_time duration_units)
  show ?thesis
    using r sample_source_verify ex
    by (simp add: establish_def lift_ehbp_def sample_env_def sample_ehbp_def new_session_def Let_def sample_session_def
        sample_evidence_time)
qed

lemma sample_establish:
  obtains l where "establish (confidential_env sample_env None sample_origin) st (Direct sample_verifier) (True, disk) =
      (Inr (sample_session\<lparr>ss_ref := cs_next_ref st\<rparr>),
       \<lparr>cs_session = Some (sample_session\<lparr>ss_ref := cs_next_ref st\<rparr>), cs_next_ref = Suc (cs_next_ref st), cs_ledger = l\<rparr>,
       Direct sample_verifier, (True, disk))"
    "l = None \<longleftrightarrow> cs_ledger st = None"
  by (rule that [OF sample_establish_recorded sample_recorded_None])

lemma sample_config_simps [simp]:
  "nx_gateway_url sample_config = sample_origin" "nx_trust_policy_file sample_config = []"
  "nx_trust_policy_json sample_config = sample_policy_json" "nx_attestation_timeout sample_config = 0"
  "nx_updates sample_config = None" "nx_state_file sample_config = []" "\<not> nx_disable_ui sample_config"
  "\<not> nx_disable_catalog sample_config"
  by (simp_all add: sample_config_def)

lemma sample_policy_json_nonempty [simp]: "sample_policy_json \<noteq> []"
  by (simp add: sample_policy_json_def policy_document_def enc_object_def)

lemma sample_validate: "validateConfig sample_config = Inr (sample_origin, defaultAttestationTimeout)"
  using sample_url(1)
  by (simp add: validateConfig_def policy_sources_def defaultAttestationTimeout_def duration_units trim_space_def)

lemma sample_initial_policy:
  "initial_policy sample_env sample_config (True, disk) = (Inr (None :: unit file_source option, sample_policy), (True, disk))"
  using sample_policy_parses by (simp add: initial_policy_def loadStaticPolicy_def)

definition sample_world :: "ledger \<Rightarrow> fs_env \<times> fs \<Rightarrow> (unit, bool) sdk_world" where
  "sample_world l disk = \<lparr>sw_state = \<lparr>cs_session = Some sample_session, cs_next_ref = 1, cs_ledger = Some l\<rparr>,
     sw_evidence = Direct sample_verifier, sw_base = (True, disk)\<rparr>"

lemma sample_start_recorded:
  assumes "initial_ledger c (True, disk) = Inr l0"
  shows "start_client sample_env c sample_origin None sample_policy (True, disk) =
    (Inr (sample_world (the (sample_recorded (Some l0))) disk), (True, disk))"
proof -
  let ?st = "WithLedger (Some l0) \<lparr>cs_session = None, cs_next_ref = 0, cs_ledger = None\<rparr>"
  let ?st' = "\<lparr>cs_session = Some sample_session, cs_next_ref = 1, cs_ledger = Some (the (sample_recorded (Some l0)))\<rparr>"
  have "sample_recorded (Some l0) = Some (the (sample_recorded (Some l0)))" using sample_recorded_None [of "Some l0"] by auto
  then have w: "WarmUp (confidential_env sample_env None sample_origin) ?st (Direct sample_verifier) (True, disk) =
      (None, ?st', Direct sample_verifier, (True, disk))"
    using sample_establish_recorded [of ?st disk] by (simp add: WarmUp_def sessionFor_def WithLedger_def sample_session_def)
  have n: "NewConfidentialClient (sample_origin @ ConfidentialEndpoint) (Some v) (Some rejecting_client) =
      Inr \<lparr>cs_session = None, cs_next_ref = 0, cs_ledger = None\<rparr>" for v :: "(evidence_source, bool base) verify"
    by (simp add: NewConfidentialClient_def sample_url rejecting_client_def)
  show ?thesis by (simp add: start_client_def sample_new_verifier n w assms sample_world_def)
qed

lemma sample_start:
  assumes "nx_state_file c = []"
  obtains l where "start_client sample_env c sample_origin None sample_policy (True, disk) =
    (Inr (sample_world l disk), (True, disk))"
  by (rule that [OF sample_start_recorded]) (simp add: initial_ledger_def assms)

lemma sample_new_recorded:
  assumes "initial_ledger (sample_config\<lparr>nx_state_file := path\<rparr>) (True, disk) = Inr l0"
  shows "New sample_env (sample_config\<lparr>nx_state_file := path\<rparr>) (True, disk) =
    (Inr (sample_client, sample_world (the (sample_recorded (Some l0))) disk), (True, disk))"
proof -
  have "validateConfig (sample_config\<lparr>nx_state_file := path\<rparr>) = validateConfig sample_config"
    "initial_policy sample_env (sample_config\<lparr>nx_state_file := path\<rparr>) (True, disk) =
      initial_policy sample_env sample_config (True, disk)"
    by (simp_all add: validateConfig_def policy_sources_def initial_policy_def loadStaticPolicy_def sample_url(1))
  then show ?thesis
    using sample_start_recorded [OF assms] sample_validate sample_initial_policy
    by (simp add: New_def initial_catalog_def sample_catalog sample_client_def)
qed

lemma sample_new:
  obtains l where "New sample_env sample_config (True, disk) = (Inr (sample_client, sample_world l disk), (True, disk))"
proof -
  have c: "sample_config\<lparr>nx_state_file := []\<rparr> = sample_config" by (simp add: sample_config_def)
  show ?thesis by (rule that [OF sample_new_recorded [of "[]", unfolded c]]) (simp add: initial_ledger_def)
qed

lemma sample_inv: "sdk_inv sample_env None sample_policy (sample_world l disk)"
proof -
  have i: "sdk_inv sample_env None sample_policy (sample_world l' disk)"
    if n: "New sample_env sample_config (True, disk) = (Inr (sample_client, sample_world l' disk), (True, disk))" for l'
  proof -
    obtain p0 b1 where "initial_policy sample_env sample_config (True, disk) = (Inr (nc_source sample_client, p0), b1)"
      "sdk_inv sample_env (nc_source sample_client) p0 (sample_world l' disk)"
      using New_verified [OF n] by metis
    then show ?thesis by (simp add: sample_initial_policy sample_client_def)
  qed
  obtain l' where "New sample_env sample_config (True, disk) = (Inr (sample_client, sample_world l' disk), (True, disk))"
    by (rule sample_new)
  from i [OF this] show ?thesis by (simp add: sdk_inv_def client_inv_def sample_world_def)
qed

lemma sample_parts:
  "se_attest sample_env = sample_attest" "se_ehbp sample_env = sample_ehbp" "nc_source sample_client = None"
  "nc_gateway_url sample_client = sample_origin"
  by (simp_all add: sample_env_def sample_client_def)

text \<open>A request over the sample session gets the answer of the sample Gateway.\<close>

lemma sample_do:
  assumes "body \<noteq> []"
  shows "sdk_do sample_env sample_client [] [] [] body (sample_world l (fe, disk)) =
    ((Inr (wr_response (json_reply 200 ''{}'')), ss_attestation_id sample_session), sample_world l (fe, disk))"
proof -
  have "\<exists>u. ParseRequestURI (sample_origin @ ConfidentialEndpoint) = Inr u"
    using sample_url(3) by (auto simp: validate_confidential_endpoint_def split: sum.splits)
  then show ?thesis
    using assms
    by (auto simp: sdk_do_def Do_def sample_client_def sample_world_def sessionFor_def sample_env_def sample_attest_def lift_net_def
        sample_session_def duration_units exchange_def http_do_def client_do_def numeral_eq_Suc lift_ehbp_def sample_ehbp_def
        lift_transport_def after_exchange_def json_reply_def)
qed

section \<open>GitHub with one signed release\<close>

definition sample_release_manifest :: release_manifest where
  "sample_release_manifest = \<lparr>mf_schema_version = 2, mf_version = ''v1.0.0'', mf_environment = ''prod'',
     mf_repository = SourceRepository, mf_revision = sample_revision, mf_measurements_version = 2,
     mf_pcr0 = sample_pcr, mf_pcr1 = sample_pcr, mf_pcr2 = sample_pcr,
     mf_protocol = EHBPProtocol, mf_suite = EHBPSuite, mf_endpoint = ConfidentialEndpoint\<rparr>"

definition sample_manifest_url :: string where "sample_manifest_url = ''https://github.com/v1.release.json''"
definition sample_bundle_url :: string where "sample_bundle_url = ''https://github.com/v1.bundle''"

definition sample_listing :: release_listing where
  "sample_listing = \<lparr>rl_draft = False, rl_prerelease = False, rl_published_at = ''2025-01-01T00:00:00Z'',
     rl_assets = [\<lparr>as_name = ''v1.release.json'', as_url = sample_manifest_url\<rparr>,
       \<lparr>as_name = ''v1.release.json.sigstore.json'', as_url = sample_bundle_url\<rparr>]\<rparr>"

definition github_transport :: "bool transport" where
  "github_transport req up =
     (if \<not> up then (Inl (Msg ''connection refused''), up)
      else if req_url req = sample_manifest_url then (Inr (json_reply 200 (enc_manifest sample_release_manifest)), up)
      else if req_url req = sample_bundle_url
      then (Inr (json_reply 200 (''signed:'' @ enc_manifest sample_release_manifest)), up)
      else (Inr (json_reply 200 (enc_array (map enc_listing [sample_listing]))), up))"

definition sample_source :: "(unit, 'c) source" where
  "sample_source = \<lparr>src_repository = DefaultRepository, src_count = 3,
     src_client = \<lparr>hc_check_redirect = Some allowGitHubRedirects\<rparr>, src_verifier = (), src_cache = None\<rparr>"

lemma sample_new_source: "NewSource sample_sigstore ''{}'' [] 0 None = Inr sample_source"
proof -
  have "validRepository DefaultRepository" by code_simp
  then show ?thesis
    by (simp add: NewSource_def Let_def DefaultReleaseCount_def MaxPolicyReleases_def NewReleaseVerifier_def
        sample_sigstore_def sample_source_def)
qed

lemma sample_urls_allowed:
  "checkDownloadURL sample_manifest_url = None" "checkDownloadURL sample_bundle_url = None"
  "checkDownloadURL (''https://api.github.com/repos/'' @ DefaultRepository @ ''/releases?per_page=9'') = None"
  "new_request_error sample_manifest_url = None" "new_request_error sample_bundle_url = None"
  "new_request_error (''https://api.github.com/repos/'' @ DefaultRepository @ ''/releases?per_page=9'') = None"
  by code_simp+

lemma plain_sample_manifest: "plain_manifest sample_release_manifest" "valid_manifest sample_release_manifest"
proof -
  show "plain_manifest sample_release_manifest"
    by (simp add: plain_manifest_def sample_release_manifest_def in_int64_def sample_texts)
       (simp add: plain_char_def SourceRepository_def)
  have "versionPattern ''v1.0.0''" by code_simp
  moreover have "list_all is_lower_hex sample_revision" "list_all is_lower_hex sample_pcr"
    by (simp_all add: sample_revision_def sample_pcr_def list_all_iff is_lower_hex_def)
  moreover have "\<not> list_all (\<lambda>c. c = CHR ''0'') sample_pcr" by (simp add: sample_pcr_def list_all_iff)
  ultimately show "valid_manifest sample_release_manifest"
    by (simp add: valid_manifest_def sample_release_manifest_def valid_measurement_def sample_texts)
qed

lemma sample_manifest_length: "length (enc_manifest sample_release_manifest) \<le> 1500"
  by (simp add: enc_manifest_def sample_release_manifest_def enc_object_def dec_int_def dec_nat.simps sample_texts)
     (simp add: plain_char_def SourceRepository_def policy_consts)

lemma sample_release_verified:
  "Release_Verify sample_sigstore (Some ()) (enc_manifest sample_release_manifest)
     (''signed:'' @ enc_manifest sample_release_manifest) = Inr sample_release_manifest"
proof -
  have "ParseManifest (enc_manifest sample_release_manifest) = Inr sample_release_manifest"
    using sample_manifest_length plain_sample_manifest
    by (subst ParseManifest_enc) (simp_all add: maxManifestBytes_def manifest_validate_iff [THEN iffD2])
  then show ?thesis
    by (simp add: Release_Verify_iff signed_by_release_workflow_def sample_sigstore_def floor_ok_def sample_release_manifest_def)
qed

lemma sample_download:
  assumes "checkDownloadURL u = None" "new_request_error u = None" "0 \<le> limit" "limit < 2 ^ 63 - 1"
    "github_transport (release_request u) True = (Inr (json_reply 200 d), True)" "int (length d) \<le> limit"
    "src_client s = \<lparr>hc_check_redirect = Some allowGitHubRedirects\<rparr>"
  shows "download github_transport s u limit True = (Inr d, True)"
proof -
  have r: "wr_redirect (json_reply 200 d) = None" "resp_status (wr_response (json_reply 200 d)) = 200"
    "resp_body (wr_response (json_reply 200 d)) = [(d, None)]" by (simp_all add: json_reply_def)
  have "ReadAllLimited [(d, None)] limit = Inr d"
    using assms(3,4,6) by (subst ReadAllLimited_iff) simp_all
  then have "read_download u limit (wr_response (json_reply 200 d)) = Inr d"
    by (simp add: read_download_def r json_reply_type)
  then show ?thesis
    using assms(1,2,5,7) r(1) by (simp add: download_def http_do_def client_do_def numeral_eq_Suc)
qed

lemma sample_candidates:
  "listing_candidates [sample_listing] =
     [\<lparr>ca_manifest_url = sample_manifest_url, ca_bundle_url = sample_bundle_url, ca_published_at = ''2025-01-01T00:00:00Z''\<rparr>]"
  unfolding sample_listing_def sample_manifest_url_def sample_bundle_url_def by code_simp

lemma sample_listing_url:
  assumes "src_repository s = DefaultRepository" "src_count s = 3"
  shows "listing_url s = ''https://api.github.com/repos/'' @ DefaultRepository @ ''/releases?per_page=9''"
proof -
  have "dec_nat 9 = ''9''" by code_simp
  then show ?thesis using assms by (simp add: listing_url_def)
qed

lemma sample_listReleases:
  assumes "src_client s = \<lparr>hc_check_redirect = Some allowGitHubRedirects\<rparr>" "src_repository s = DefaultRepository" "src_count s = 3"
  shows "listReleases github_transport s True = (Inr
     [\<lparr>ca_manifest_url = sample_manifest_url, ca_bundle_url = sample_bundle_url, ca_published_at = ''2025-01-01T00:00:00Z''\<rparr>], True)"
proof -
  let ?u = "''https://api.github.com/repos/'' @ DefaultRepository @ ''/releases?per_page=9''"
  have u: "listing_url s = ?u" using sample_listing_url assms(2,3) by blast
  have ne: "?u \<noteq> sample_manifest_url" "?u \<noteq> sample_bundle_url"
    by (simp_all add: sample_manifest_url_def sample_bundle_url_def)
  have "length (enc_array (map enc_listing [sample_listing])) \<le> 1000"
    by (simp add: enc_array_def enc_listing_def enc_object_def sample_listing_def enc_asset_def plain_char_def
        sample_manifest_url_def sample_bundle_url_def enc_bool_def)
  then have "download github_transport s ?u maxReleaseListBytes True =
      (Inr (enc_array (map enc_listing [sample_listing])), True)"
    by (intro sample_download sample_urls_allowed assms)
       (simp_all add: maxReleaseListBytes_def github_transport_def release_request_def Let_def ne del: append.simps)
  moreover have "list_all plain_listing [sample_listing]"
    by (simp add: plain_listing_def sample_listing_def plain_char_def sample_manifest_url_def sample_bundle_url_def)
  ultimately show ?thesis
    using listings_decoded [of "[sample_listing]"] sample_candidates by (simp add: listReleases_def u)
qed

lemma sample_source_fetch:
  assumes "src_client s = \<lparr>hc_check_redirect = Some allowGitHubRedirects\<rparr>" "src_repository s = DefaultRepository"
    "src_count s = 3" "src_verifier s = ()"
  shows "source_fetch sample_sigstore github_transport s True c =
    (Inr [sample_release_manifest], True,
     source_store s [\<lparr>sr_manifest = enc_manifest sample_release_manifest,
       sr_bundle = ''signed:'' @ enc_manifest sample_release_manifest\<rparr>] c)"
proof -
  have m: "download github_transport s sample_manifest_url (int maxManifestBytes) True =
      (Inr (enc_manifest sample_release_manifest), True)"
    using sample_manifest_length
    by (intro sample_download sample_urls_allowed assms)
       (simp_all add: maxManifestBytes_def github_transport_def release_request_def Let_def)
  have "sample_bundle_url \<noteq> sample_manifest_url" by (simp add: sample_manifest_url_def sample_bundle_url_def)
  then have b: "download github_transport s sample_bundle_url maxBundleBytes True =
      (Inr (''signed:'' @ enc_manifest sample_release_manifest), True)"
    using sample_manifest_length
    by (intro sample_download sample_urls_allowed assms)
       (simp_all add: maxBundleBytes_def github_transport_def release_request_def Let_def)
  show ?thesis
    using sample_listReleases [OF assms(1-3)] m b sample_release_verified assms(3,4)
    by (simp add: source_fetch_def fetch_candidate_def)
qed

lemma sample_source_offline:
  assumes "src_client s = \<lparr>hc_check_redirect = Some allowGitHubRedirects\<rparr>" "src_repository s = DefaultRepository" "src_count s = 3"
  obtains e where "source_fetch sample_sigstore github_transport s False c = (Inl e, False, c)"
proof -
  have "listing_url s = ''https://api.github.com/repos/'' @ DefaultRepository @ ''/releases?per_page=9''"
    using sample_listing_url assms(2,3) by blast
  then show ?thesis
    using that sample_urls_allowed(3,6)
    by (auto simp: source_fetch_def listReleases_def download_def http_do_def client_do_def numeral_eq_Suc github_transport_def
        simp del: append.simps)
qed

section \<open>Two requests in flight\<close>

text \<open>Two requests that hold two sessions: the first one is discarded between them.\<close>

definition two_requests :: "ledger option \<Rightarrow> (unit, evidence_source) conf" where
  "two_requests l = \<lparr>cf_client = \<lparr>cs_session = Some (sample_session\<lparr>ss_ref := 1\<rparr>), cs_next_ref = 2, cs_ledger = l\<rparr>,
     cf_verifier = Direct sample_verifier, cf_inflight = [0 \<mapsto> sample_session, 1 \<mapsto> sample_session\<lparr>ss_ref := 1\<rparr>]\<rparr>"

lemma sample_sessionFor:
  fixes disk :: "fs_env \<times> fs"
  assumes "cs_session st = None"
  obtains l where "sessionFor (confidential_env sample_env None sample_origin) st (Direct sample_verifier) (True, disk) =
    (Inr (sample_session\<lparr>ss_ref := cs_next_ref st\<rparr>),
       \<lparr>cs_session = Some (sample_session\<lparr>ss_ref := cs_next_ref st\<rparr>), cs_next_ref = Suc (cs_next_ref st), cs_ledger = l\<rparr>,
       Direct sample_verifier, (True, disk))"
  using sample_establish [of st disk] assms by (metis (no_types, lifting) option.case(1) sessionFor_def)

definition start_conf :: "(unit, evidence_source) conf" where
  "start_conf = initial_conf (first_source (None :: unit file_source option) sample_verifier) None"

lemma two_requests_reached:
  obtains l where "(client_step (background_refresh sample_env None) (confidential_env sample_env None sample_origin))\<^sup>*\<^sup>*
    start_conf (two_requests l)"
proof -
  let ?step = "client_step (background_refresh sample_env None) (confidential_env sample_env None sample_origin)"
  let ?c0 = start_conf
  have c0: "cf_verifier ?c0 = Direct sample_verifier" "cs_session (cf_client ?c0) = None" "cs_next_ref (cf_client ?c0) = 0"
    "cf_inflight ?c0 = Map.empty"
    by (simp_all add: start_conf_def initial_conf_def first_source_def)
  obtain l1 where s1: "sessionFor (confidential_env sample_env None sample_origin) (cf_client ?c0) (cf_verifier ?c0) (True, undefined) =
      (Inr (sample_session\<lparr>ss_ref := 0\<rparr>), \<lparr>cs_session = Some (sample_session\<lparr>ss_ref := 0\<rparr>), cs_next_ref = 1, cs_ledger = l1\<rparr>,
       Direct sample_verifier, (True, undefined))"
    using sample_sessionFor [OF c0(2), of undefined] c0 by (metis One_nat_def)
  have ss: "sample_session\<lparr>ss_ref := 0\<rparr> = sample_session" by (simp add: sample_session_def)
  let ?c1 = "\<lparr>cf_client = \<lparr>cs_session = Some sample_session, cs_next_ref = 1, cs_ledger = l1\<rparr>, cf_verifier = Direct sample_verifier,
    cf_inflight = [0 \<mapsto> sample_session]\<rparr>"
  let ?c2 = "?c1\<lparr>cf_client := discard_session (cf_client ?c1)\<rparr>"
  have t1: "?step ?c0 ?c1" using client_step.acquire [OF s1, of 0] c0 ss by simp
  have t2: "?step ?c1 ?c2" by (rule client_step.discard)
  have c2: "cs_session (cf_client ?c2) = None" "cs_next_ref (cf_client ?c2) = 1" "cf_verifier ?c2 = Direct sample_verifier"
    by (simp_all add: discard_session_def)
  obtain l2 where s2: "sessionFor (confidential_env sample_env None sample_origin) (cf_client ?c2) (cf_verifier ?c2) (True, undefined) =
      (Inr (sample_session\<lparr>ss_ref := 1\<rparr>), \<lparr>cs_session = Some (sample_session\<lparr>ss_ref := 1\<rparr>), cs_next_ref = 2, cs_ledger = l2\<rparr>,
       Direct sample_verifier, (True, undefined))"
    using sample_sessionFor [OF c2(1), of undefined] c2(2,3) by (metis Suc_1)
  have t3: "?step ?c2 (two_requests l2)"
    using client_step.acquire [OF s2, of 1] by (simp add: two_requests_def)
  show ?thesis by (rule that [of l2]) (meson t1 t2 t3 rtranclp.rtrancl_refl rtranclp.rtrancl_into_rtrancl)
qed

lemma sample_establish_after:
  obtains l' where "establish (confidential_env sample_env None sample_origin) (discard_session (sw_state (sample_world l disk)))
      (Direct sample_verifier) (True, disk) =
    (Inr (sample_session\<lparr>ss_ref := 1\<rparr>), \<lparr>cs_session = Some (sample_session\<lparr>ss_ref := 1\<rparr>), cs_next_ref = 2, cs_ledger = l'\<rparr>,
     Direct sample_verifier, (True, disk))"
proof -
  have n: "cs_next_ref (discard_session (sw_state (sample_world l disk))) = 1"
    by (simp add: discard_session_def sample_world_def)
  show ?thesis
    by (rule sample_establish [of "discard_session (sw_state (sample_world l disk))" disk, unfolded n])
       (use that in \<open>simp add: numeral_2_eq_2\<close>)
qed

lemma sample_reaches: "reaches_sender (sdk_handler sample_env sample_client) (chat_request ''{}'') (sample_world l (fe, disk))"
proof -
  have t: "trim_space ''{}'' = ''{}''" "IsJSONObject ''{}''" by code_simp+
  then have c: "check_chat_request (chat_request ''{}'') = Inr ''{}''" by (intro chat_request_checked) simp_all
  have "\<exists>env. enc_envelope ident issued ''{}'' = Inr env" for ident issued
    using t(2) by (simp add: enc_envelope_def json_compact_def IsJSONObject_def)
  moreover have "\<exists>ident. h_new_id (sdk_handler sample_env sample_client) (sample_world l (fe, disk)) = (Inr ident, sample_world l (fe, disk))"
    by (simp add: sdk_handler_def with_base_def randomUUID_def lift_net_def sample_parts sample_attest_def sample_world_def Let_def)
  moreover have "\<exists>issued w2. h_now (sdk_handler sample_env sample_client) (sample_world l (fe, disk)) = (issued, w2)" by force
  ultimately show ?thesis using c by (auto simp: reaches_sender_def chat_request_def)
qed

section \<open>A policy from the signed release\<close>

lemma sample_manifest_verified: "verified_manifest sample_release_manifest"
  using sample_release_verified Release_Verify_verified by blast

lemma sample_derived: "\<exists>p. Release_Policy [Some sample_release_manifest] = Inr p"
  using Release_Policy_iff(1) [of "[sample_release_manifest]"] sample_manifest_verified
  by (auto simp: MaxPolicyReleases_def is_ok_def split: sum.splits)

lemma sample_source_fields:
  "src_client (WithCache sample_source c) = \<lparr>hc_check_redirect = Some allowGitHubRedirects\<rparr>"
  "src_repository (WithCache sample_source c) = DefaultRepository" "src_count (WithCache sample_source c) = 3"
  "src_verifier (WithCache sample_source c) = ()"
  by (simp_all add: sample_source_def WithCache_def)

definition spare_env :: fs_env where
  "spare_env = \<lparr>fe_mkdir = None, fe_temp = Inr ''tmp'', fe_outcomes = [], fe_remove_ok = False\<rparr>"

end
