(* ===== verification/Restart.thy ===== *)
theory Restart
  imports NexusSafety FlushConc Scenario
begin

text \<open>
  What a restart finds (client.go over internal/ledger): the operations of a client change the ledger only
  by recording, and the state file only by a flush, so a client that is closed without an error leaves its
  history where the next \<open>New\<close> reads it.
\<close>

section \<open>The state file in the base world\<close>

text \<open>
  The temporary files of the system are never the state file, the release cache never writes it, and it
  has this content.
\<close>

definition cache_avoids :: "'v file_source option \<Rightarrow> string \<Rightarrow> bool" where
  "cache_avoids s path \<longleftrightarrow> (\<forall>src cache es fe disk. s = Some src \<longrightarrow> src_cache src = Some cache \<longrightarrow> fe_temp fe \<noteq> Inr path \<longrightarrow>
     fst (snd (co_store cache es (fe, disk))) = fe \<and> snd (snd (co_store cache es (fe, disk))) path = disk path)"

definition state_kept :: "'v file_source option \<Rightarrow> string \<Rightarrow> fs_file option \<Rightarrow> 'n base \<Rightarrow> bool" where
  "state_kept s path x b \<longleftrightarrow> cache_avoids s path \<and> fe_temp (fst (snd b)) \<noteq> Inr path \<and> snd (snd b) path = x"

lemma state_kept_snd: "state_kept s path x b \<Longrightarrow> snd b' = snd b \<Longrightarrow> state_kept s path x b'"
  by (simp add: state_kept_def)

lemma lift_net_snd: "lift_net f b = (y, b') \<Longrightarrow> snd b' = snd b"
  by (auto simp: lift_net_def split: prod.splits)

lemma client_hops_lift_snd: "snd (snd (snd (client_hops n (lift_transport tr) check req via b))) = snd b"
proof (induction n arbitrary: req via b)
  case (Suc n)
  obtain r b1 where t: "lift_transport tr req b = (r, b1)" by (metis surj_pair)
  then have b: "snd b1 = snd b" by (auto simp: lift_transport_def dest: lift_net_snd)
  show ?case
  proof (cases "\<exists>wr u. r = Inr wr \<and> wr_redirect wr = Some u \<and> check u (Suc via) = None")
    case True
    then obtain wr u where u: "r = Inr wr" "wr_redirect wr = Some u" "check u (Suc via) = None" by blast
    obtain r' us w' where h: "client_hops n (lift_transport tr) check (req\<lparr>req_url := u\<rparr>) (Suc via) b1 = (r', us, w')"
      by (metis prod_cases3)
    with Suc [of "req\<lparr>req_url := u\<rparr>" "Suc via" b1] b have "snd w' = snd b" by simp
    with t u h show ?thesis by simp
  next
    case False
    then show ?thesis using t b by (auto split: sum.splits option.splits)
  qed
qed simp

lemma http_do_lift_snd: "http_do (lift_transport tr) c req b = (r, b') \<Longrightarrow> snd b' = snd b"
  using client_hops_lift_snd [of 11 tr "client_check c" req 0 b]
  by (auto simp: http_do_def client_do_def split: prod.splits)

lemma Verify_lift_snd: "Verify (lift_attest env) v b = (r, b') \<Longrightarrow> snd b' = snd b"
  by (auto simp: Verify_def lift_attest_def fetch_def split: prod.splits sum.splits dest!: lift_net_snd http_do_lift_snd)

text \<open>A replacement of one file leaves every path alone but its target and its temporary file.\<close>

lemma run_ops_other:
  assumes "\<forall>x\<in>set ops. only_touches name (fst x)" "q \<noteq> name" "q \<noteq> path"
    "run_ops (ops @ [(Rename name path, what)]) os disk = (r, tr)"
  shows "last tr q = disk q"
  using assms(1,4)
proof (induction ops arbitrary: os disk r tr)
  case Nil
  then show ?case using assms(2,3) by (auto split: list.splits outcome.splits option.splits)
next
  case (Cons x ops)
  obtain op w where x: "x = (op, w)" by force
  have fr: "fs_attempt op oc disk q = disk q" for oc
    using fs_attempt_frame [of name op q oc disk] Cons.prems(1) assms(2) by (simp add: x)
  obtain r' tr' where t: "run_ops (ops @ [(Rename name path, what)]) (tl os) (fs_attempt op Done disk) = (r', tr')" by force
  have "last tr' q = fs_attempt op Done disk q" using Cons.IH [OF _ t] Cons.prems(1) by simp
  moreover have "tr' \<noteq> []"
    using run_ops_nonempty [of "ops @ [(Rename name path, what)]" "tl os" "fs_attempt op Done disk"] t by (metis snd_conv)
  ultimately show ?case using Cons.prems(2) t fr by (auto simp: x split: list.splits outcome.splits)
qed

lemma replace_with_other:
  assumes "\<And>name. \<forall>x\<in>set (ops name). only_touches name (fst x)" "fe_temp fe \<noteq> Inr q" "q \<noteq> path"
    "replace_with fe creating (\<lambda>name. ops name @ [(Rename name path, what)]) disk = (r, tr)"
  shows "last tr q = disk q"
proof (cases "fe_temp fe")
  case (Inl e)
  then show ?thesis using assms(4) by (auto simp: replace_with_def)
next
  case (Inr name)
  let ?d = "disk(name \<mapsto> \<lparr>f_data = [], f_mode = mode_0600\<rparr>)"
  obtain r' tr' where t: "run_ops (ops name @ [(Rename name path, what)]) (fe_outcomes fe) ?d = (r', tr')" by force
  have "q \<noteq> name" using assms(2) Inr by auto
  from run_ops_other [OF assms(1) this assms(3) t] assms(4) t Inr this show ?thesis by (auto simp: replace_with_def)
qed

lemma file_cache_avoids:
  assumes "src_cache src = Some (file_cache p)" "p \<noteq> path"
  shows "cache_avoids (Some src) path"
proof -
  have "last tr path = disk path" if "FileCache_Store fe p es disk = (r, tr)" "fe_temp fe \<noteq> Inr path" for fe es disk r tr
    using that assms(2) replace_with_other [OF cache_file_touches that(2) assms(2) [symmetric]]
    by (auto simp: FileCache_Store_def Let_def split: if_splits option.splits)
  then show ?thesis using assms(1) by (auto simp: cache_avoids_def file_cache_def split: prod.splits)
qed

lemma Source_Policy_cache:
  assumes "Source_Policy sg tr s w c = (r, w', c')"
  obtains "c' = c" | cache es where "src_cache s = Some cache" "c' = snd (co_store cache es c)"
  using assms by (auto simp: Source_Policy_def source_fetch_def source_store_def split: prod.splits sum.splits if_splits option.splits)

lemma base_policy_kept:
  assumes "base_policy env src b = (r, b')" "s = Some src" "state_kept s path x b"
  shows "state_kept s path x b'"
proof -
  have "Source_Policy (se_sigstore env) (ae_transport (se_attest env)) src (fst b) (snd b) = (r, fst b', snd b')"
    using assms(1) by (auto simp: base_policy_def split: prod.splits)
  then show ?thesis
  proof (cases rule: Source_Policy_cache)
    case 1
    then show ?thesis using assms(3) by (auto intro: state_kept_snd)
  next
    case (2 cache es)
    with assms(2,3) show ?thesis by (cases "snd b") (auto simp: state_kept_def cache_avoids_def)
  qed
qed

lemma refresh_kept:
  assumes "refresh (refresh_world env s) rv b = (r, rv', b')" "state_kept s path x b"
  shows "state_kept s path x b'"
proof -
  obtain ok rv1 b1 where a: "allowRefresh (lift_net (ae_now (se_attest env))) rv b = (ok, rv1, b1)" by (metis surj_pair)
  then have "snd b1 = snd b"
    by (auto simp: allowRefresh_def Let_def split: prod.splits if_splits dest!: lift_net_snd)
  then have k: "state_kept s path x b1" using assms(2) by (simp add: state_kept_snd)
  obtain p b2 where p: "rf_source (refresh_world env s) b1 = (p, b2)" by (metis surj_pair)
  have "state_kept s path x b2"
  proof (cases s)
    case None
    with p k show ?thesis by (simp add: refresh_world_def)
  next
    case (Some src)
    with p have "base_policy env src b1 = (p, b2)" by (simp add: refresh_world_def)
    from base_policy_kept [OF this Some k] show ?thesis .
  qed
  then show ?thesis
    using assms(1) a p k by (cases ok) (auto simp: refresh_def refresh_world_def split: sum.splits prod.splits option.splits)
qed

lemma refresh_world_attest [simp]: "rf_attest (refresh_world env s) = lift_attest (se_attest env)"
  by (simp add: refresh_world_def)

lemma source_verify_kept:
  assumes "source_verify env s es b = (r, es', b')" "state_kept s path x b"
  shows "state_kept s path x b'"
proof (cases es)
  case (Direct v)
  then show ?thesis using assms
    by (auto simp: source_verify_def plain_verify_def split: prod.splits dest!: Verify_lift_snd intro: state_kept_snd)
next
  case (Following rv)
  obtain r0 rv' where "refreshing_Verify (refresh_world env s) rv b = (r0, rv', b')"
    using assms(1) Following by (auto simp: source_verify_def refreshing_verify_def split: prod.splits)
  then show ?thesis
  proof (cases rule: refreshing_Verify_cases)
    case direct
    then show ?thesis using assms(2) by (auto dest: Verify_lift_snd intro: state_kept_snd)
  next
    case (refused e b1)
    then have "state_kept s path x b1" using assms(2) by (auto dest: Verify_lift_snd intro: state_kept_snd)
    then show ?thesis by (rule refresh_kept [OF refused(4)])
  next
    case (retried e b1 b2)
    then have "state_kept s path x b1" using assms(2) by (auto dest: Verify_lift_snd intro: state_kept_snd)
    from refresh_kept [OF retried(3) this] retried(4) show ?thesis by (auto dest: Verify_lift_snd intro: state_kept_snd)
  qed
qed

section \<open>The ledger changes only by recording\<close>

definition ledger_follows :: "ledger option \<Rightarrow> ledger option \<Rightarrow> bool" where
  "ledger_follows lo lo' \<longleftrightarrow> (\<exists>es. lo' = fold apply_event es lo)"

lemma ledger_follows_refl: "ledger_follows lo lo"
  unfolding ledger_follows_def by (rule exI [of _ "[]"]) simp

lemma ledger_follows_event: "ledger_follows lo lo' \<Longrightarrow> ledger_follows lo (apply_event e lo')"
  unfolding ledger_follows_def by (metis fold_append fold_simps comp_apply)

lemma ledger_follows_record:
  assumes "ledger_follows lo lo'"
  shows "ledger_follows lo (RecordRejected f t lo')" "ledger_follows lo (RecordVerified a d m t lo')" "ledger_follows lo (RecordRequest r lo')"
  using ledger_follows_event [OF assms, of "Rejected f t"] ledger_follows_event [OF assms, of "Verified a d m t"]
    ledger_follows_event [OF assms, of "Requested r"] by simp_all

lemma fold_events_dirty:
  assumes "l_store l = Some s"
  shows "\<exists>l'. fold apply_event es (Some l) = Some l' \<and> map_option st_path (l_store l') = Some (st_path s) \<and> (es \<noteq> [] \<longrightarrow> dirty l')"
  using assms
proof (induction es arbitrary: l s)
  case (Cons e es)
  obtain l1 where l1: "apply_event e (Some l) = Some l1" "map_option st_path (l_store l1) = Some (st_path s)" "dirty l1"
    using Cons.prems by (cases e)
      (auto simp: RecordVerified_def RecordRejected_def RecordRequest_def Let_def markDirty_def dirty_def)
  then obtain s1 where "l_store l1 = Some s1" "st_path s1 = st_path s" by auto
  from Cons.IH [OF this(1)] l1 this(2) show ?case by (cases "es = []") auto
qed simp

definition follows :: "'id client_state \<Rightarrow> 'id client_state \<Rightarrow> bool" where
  "follows st st' \<longleftrightarrow> ledger_follows (cs_ledger st) (cs_ledger st')"

text \<open>
  Whatever the confidential client's surroundings keep of the world is kept by its calls, and they change
  the ledger by recording.
\<close>

locale client_frame =
  fixes env :: "('id, 'v, 'w) client_env" and kept :: "'w \<Rightarrow> bool"
  assumes verify_kept: "kept w \<Longrightarrow> ce_verify env v w = (r, v', w') \<Longrightarrow> kept w'"
    and now_kept: "kept w \<Longrightarrow> ce_now env w = (t, w') \<Longrightarrow> kept w'"
    and exchange_kept: "kept w \<Longrightarrow> exchange env s request w = (res, w') \<Longrightarrow> kept w'"
begin

lemma record_rejected_kept:
  assumes "kept w" "record_rejected (ce_now env) f st w = (st', w')"
  shows "kept w' \<and> follows st st'"
  using assms
  by (auto simp: record_rejected_def follows_def ledger_follows_refl split: option.splits prod.splits
      dest: now_kept intro: ledger_follows_record [OF ledger_follows_refl])

lemma record_verified_kept:
  assumes "kept w" "record_verified (ce_now env) i ev st w = (st', w')"
  shows "kept w' \<and> follows st st'"
  using assms
  by (auto simp: record_verified_def follows_def ledger_follows_refl split: option.splits prod.splits if_splits
      dest: now_kept intro: ledger_follows_record [OF ledger_follows_refl])

lemma evidence_expired_kept: "kept w \<Longrightarrow> evidence_expired (ce_now env) evo w = (x, w') \<Longrightarrow> kept w'"
  by (auto simp: evidence_expired_def split: option.splits prod.splits dest: now_kept)

lemma establish_kept:
  assumes "kept w" "establish env st v w = (r, st', v', w')"
  shows "kept w' \<and> follows st st'"
proof -
  obtain evo v1 w1 where v: "ce_verify env v w = (evo, v1, w1)" by (metis surj_pair)
  have w1: "kept w1" by (rule verify_kept [OF assms(1) v])
  have rej: "kept w3 \<and> follows st st3" if "record_rejected (ce_now env) f st w2 = (st3, w3)" "kept w2" for f w2 st3 w3
    by (rule record_rejected_kept [OF that(2,1)])
  have ver: "kept w3 \<and> follows st st3" if "record_verified (ce_now env) i ev st w2 = (st3, w3)" "kept w2" for i ev w2 st3 w3
    by (rule record_verified_kept [OF that(2,1)])
  show ?thesis
  proof (cases evo)
    case (Inl e)
    with assms(2) v rej [OF _ w1] show ?thesis by (auto simp: establish_def split: prod.splits)
  next
    case (Inr ev)
    obtain x w2 where x: "evidence_expired (ce_now env) ev w1 = (x, w2)" by (metis surj_pair)
    have w2: "kept w2" by (rule evidence_expired_kept [OF w1 x])
    from assms(2) v Inr x rej [OF _ w2] ver [OF _ w2] show ?thesis
      by (auto simp: establish_def Let_def new_session_def follows_def split: prod.splits bool.splits sum.splits)
  qed
qed

lemma sessionFor_kept:
  assumes "kept w" "sessionFor env st v w = (r, st', v', w')"
  shows "kept w' \<and> follows st st'"
proof (cases "cs_session st")
  case None
  then show ?thesis using assms by (simp add: sessionFor_def establish_kept)
next
  case (Some s)
  obtain t w1 where t: "ce_now env w = (t, w1)" by (metis surj_pair)
  have "kept w1" by (rule now_kept [OF assms(1) t])
  with assms(2) Some t establish_kept [OF this] show ?thesis
    by (auto simp: sessionFor_def follows_def ledger_follows_refl split: if_splits)
qed

lemma WarmUp_kept: "kept w \<Longrightarrow> WarmUp env st v w = (e, st', v', w') \<Longrightarrow> kept w' \<and> follows st st'"
  by (auto simp: WarmUp_def split: prod.splits sum.splits dest: sessionFor_kept)

lemma Reverify_kept: "kept w \<Longrightarrow> Reverify env st v w = (e, st', v', w') \<Longrightarrow> kept w' \<and> follows st st'"
  using WarmUp_kept [of w "discard_session st" v e st' v' w'] by (simp add: Reverify_def follows_def discard_session_def)

lemma Do_kept:
  assumes "kept w" "Do env a acc ua body st v w = (r, st', v', w')"
  shows "kept w' \<and> follows st st'"
proof -
  obtain sr st1 v1 w1 where sf: "sessionFor env st v w = (sr, st1, v1, w1)" by (metis surj_pair)
  note k = sessionFor_kept [OF assms(1) sf]
  have ae: "after_exchange env s res st1 = (r2, st2) \<Longrightarrow> follows st st2" for s res r2 st2
    using k by (auto simp: after_exchange_def invalidate_def follows_def split: sum.splits option.splits if_splits)
  show ?thesis
    using assms sf k by (auto simp: Do_def follows_def ledger_follows_refl split: sum.splits prod.splits if_splits
        dest: ae [unfolded follows_def] exchange_kept)
qed

end

interpretation base_frame: client_frame "confidential_env env s u" "state_kept s path x"
  for env :: "('t, 'v, 'b, 'i, 'id, 'n) sdk_env" and s :: "'v file_source option" and u path :: string and x :: "fs_file option"
proof
  fix w w' :: "'n base" and v r v' t ss request res
  assume k: "state_kept s path x w"
  show "ce_verify (confidential_env env s u) v w = (r, v', w') \<Longrightarrow> state_kept s path x w'"
    using source_verify_kept k by simp
  show "ce_now (confidential_env env s u) w = (t, w') \<Longrightarrow> state_kept s path x w'"
    using lift_net_snd [of "ae_now (se_attest env)" w t w'] state_kept_snd [OF k, of w'] by simp
  show "exchange (confidential_env env s u) ss request w = (res, w') \<Longrightarrow> state_kept s path x w'"
    using http_do_lift_snd [of "eh_transport (se_ehbp env) (ss_client ss)" session_http_client request w res w'] state_kept_snd [OF k, of w']
    by (simp add: exchange_def lift_ehbp_def)
qed

section \<open>The operations of a client\<close>

text \<open>The state file holds \<open>x\<close>, and the ledger comes from \<open>lo\<close> by recording.\<close>

definition history_from ::
    "'v file_source option \<Rightarrow> string \<Rightarrow> fs_file option \<Rightarrow> ledger option \<Rightarrow> ('id, 'n) sdk_world \<Rightarrow> bool" where
  "history_from s path x lo w \<longleftrightarrow> state_kept s path x (sw_base w) \<and> ledger_follows lo (cs_ledger (sw_state w))"

lemma history_from_base:
  assumes "history_from s path x lo w" "with_base f w = (y, w')" "\<And>b y b'. f b = (y, b') \<Longrightarrow> snd b' = snd b"
  shows "history_from s path x lo w'"
proof -
  obtain b' where b: "f (sw_base w) = (y, b')" "w' = w\<lparr>sw_base := b'\<rparr>"
    using assms(2) by (auto simp: with_base_def split: prod.splits)
  have "state_kept s path x b'"
    by (rule state_kept_snd [OF _ assms(3) [OF b(1)]]) (use assms(1) in \<open>simp add: history_from_def\<close>)
  with assms(1) b(2) show ?thesis by (simp add: history_from_def)
qed

lemma ledger_follows_trans: "ledger_follows lo l1 \<Longrightarrow> ledger_follows l1 l2 \<Longrightarrow> ledger_follows lo l2"
  unfolding ledger_follows_def by (metis fold_append comp_apply)

lemma randomUUID_lift_snd: "randomUUID (\<lambda>k. lift_net (f k)) b = (r, b') \<Longrightarrow> snd b' = snd b"
  by (auto simp: randomUUID_def Let_def split: prod.splits sum.splits dest: lift_net_snd)

lemma Catalog_Fetch_lift_snd: "Catalog_Fetch (lift_transport tr) cc b = (r, b') \<Longrightarrow> snd b' = snd b"
  by (auto simp: Catalog_Fetch_def split: prod.splits sum.splits dest: http_do_lift_snd)

lemma sdk_do_history:
  assumes "history_from (nc_source nc) path x lo w" "sdk_do env nc a acc ua body w = (r, w')"
  shows "history_from (nc_source nc) path x lo w'"
proof -
  obtain st es b where d: "Do (confidential_env env (nc_source nc) (nc_gateway_url nc)) a acc ua body (sw_state w) (sw_evidence w)
      (sw_base w) = (r, st, es, b)" "w' = \<lparr>sw_state = st, sw_evidence = es, sw_base = b\<rparr>"
    using assms(2) by (auto simp: sdk_do_def split: prod.splits)
  have "state_kept (nc_source nc) path x (sw_base w)" using assms(1) by (simp add: history_from_def)
  from base_frame.Do_kept [OF this d(1)] assms(1) d(2) show ?thesis
    by (auto simp: history_from_def follows_def intro: ledger_follows_trans)
qed

interpretation history: handler_keeps "sdk_handler env nc" "history_from (nc_source nc) path x lo"
  for env :: "('t, 'v, 'b, 'i, 'id, 'n) sdk_env" and nc :: "'v nexus_client" and path x lo
proof
  fix w w' :: "('id, 'n) sdk_world" and t ident f c a acc ua body r
  assume i: "history_from (nc_source nc) path x lo w"
  show "history_from (nc_source nc) path x lo
      (h_set_ledger (sdk_handler env nc) (RecordRequest rc (h_ledger (sdk_handler env nc) w)) w)" for rc
    using i by (simp add: sdk_handler_def history_from_def ledger_follows_record)
  show "h_now (sdk_handler env nc) w = (t, w') \<Longrightarrow> history_from (nc_source nc) path x lo w'"
    unfolding sdk_handler_def handler.simps by (rule history_from_base [OF i _ lift_net_snd])
  show "h_new_id (sdk_handler env nc) w = (ident, w') \<Longrightarrow> history_from (nc_source nc) path x lo w'"
    unfolding sdk_handler_def handler.simps by (rule history_from_base [OF i _ randomUUID_lift_snd])
  show "h_catalog (sdk_handler env nc) = Some f \<Longrightarrow> f w = (c, w') \<Longrightarrow> history_from (nc_source nc) path x lo w'"
  proof -
    assume "h_catalog (sdk_handler env nc) = Some f" "f w = (c, w')"
    then obtain cc where "with_base (Catalog_Fetch (lift_transport (ae_transport (se_attest env))) cc) w = (c, w')"
      by (auto simp: sdk_handler_def)
    then show "history_from (nc_source nc) path x lo w'" by (rule history_from_base [OF i _ Catalog_Fetch_lift_snd])
  qed
  show "h_sender (sdk_handler env nc) a acc ua body w = (r, w') \<Longrightarrow> history_from (nc_source nc) path x lo w'"
    using sdk_do_history [OF i] by (simp add: sdk_handler_def)
qed

lemma Nexus_Verify_history:
  assumes "history_from (nc_source nc) path x lo w" "Nexus_Verify env nc w = (r, w')"
  shows "history_from (nc_source nc) path x lo w'"
proof -
  obtain e st es b where v: "Reverify (confidential_env env (nc_source nc) (nc_gateway_url nc)) (sw_state w) (sw_evidence w)
      (sw_base w) = (e, st, es, b)" by (metis surj_pair)
  have "state_kept (nc_source nc) path x (sw_base w)" using assms(1) by (simp add: history_from_def)
  from base_frame.Reverify_kept [OF this v] assms(1)
  have k: "history_from (nc_source nc) path x lo \<lparr>sw_state = st, sw_evidence = es, sw_base = b\<rparr>"
    by (auto simp: history_from_def follows_def intro: ledger_follows_trans)
  obtain sn w2 where n: "Verification env \<lparr>sw_state = st, sw_evidence = es, sw_base = b\<rparr> = (sn, w2)" by (metis surj_pair)
  then obtain now where "with_base (lift_net (ae_now (se_attest env))) \<lparr>sw_state = st, sw_evidence = es, sw_base = b\<rparr> = (now, w2)"
    by (auto simp: Verification_def split: prod.splits)
  from history_from_base [OF k this lift_net_snd] have "history_from (nc_source nc) path x lo w2" .
  with k v n assms(2) show ?thesis by (cases e) (auto simp: Nexus_Verify_def split: option.splits)
qed

lemma policy_refresh_tick_history:
  assumes "history_from s path x lo w" "s = Some src"
  shows "history_from s path x lo (policy_refresh_tick env src w)"
proof -
  obtain p b where p: "base_policy env src (sw_base w) = (p, b)" by (metis surj_pair)
  from base_policy_kept [OF p assms(2)] assms(1) have "state_kept s path x b" by (simp add: history_from_def)
  with p assms(1) show ?thesis by (auto simp: policy_refresh_tick_def history_from_def split: sum.splits prod.splits)
qed

section \<open>Durability\<close>

text \<open>
  The operations of a client on a machine that leaves the state file to it: nothing outside writes the
  file, and the system's temporary files are new names.
\<close>

definition new_temp :: "string \<Rightarrow> ('id, 'n) sdk_world \<Rightarrow> bool" where
  "new_temp path w \<longleftrightarrow> fresh_temp (fst (snd (sw_base w))) path (snd (snd (sw_base w)))"

inductive managed_step ::
    "('t, 'v, 'b, 'i, 'id, 'n) sdk_env \<Rightarrow> 'v nexus_client \<Rightarrow> string \<Rightarrow> ('id, 'n) sdk_world \<Rightarrow> ('id, 'n) sdk_world \<Rightarrow> bool"
  for env nc path where
  serve: "sdk_serve env nc r rw w = (rw', en, w') \<Longrightarrow> managed_step env nc path w w'"
| verify: "Nexus_Verify env nc w = (r, w') \<Longrightarrow> managed_step env nc path w w'"
| tick: "nc_source nc = Some s \<Longrightarrow> managed_step env nc path w (policy_refresh_tick env s w)"
| flush: "new_temp path w \<Longrightarrow> Nexus_Flush env w = (e, w') \<Longrightarrow>
     managed_step env nc path w w'"
| outside: "fe_temp (fst (snd b)) \<noteq> Inr path \<Longrightarrow> snd (snd b) path = snd (snd (sw_base w)) path \<Longrightarrow>
     managed_step env nc path w (w\<lparr>sw_base := b\<rparr>)"

inductive_cases managed_stepE: "managed_step env nc path w w'"

text \<open>The ledger is marked for writing, or the file holds its history.\<close>

definition durable :: "string \<Rightarrow> ('id, 'n) sdk_world \<Rightarrow> bool" where
  "durable path w \<longleftrightarrow> fe_temp (fst (snd (sw_base w))) \<noteq> Inr path \<and>
     (\<exists>l s. cs_ledger (sw_state w) = Some l \<and> l_store l = Some s \<and> st_path s = path \<and>
        (st_dirty s \<or> (\<exists>f. snd (snd (sw_base w)) path = Some f \<and> holds_history (f_data f) l)))"

lemma history_durable:
  assumes "durable path w" "cache_avoids s path"
    "\<And>x lo. history_from s path x lo w \<Longrightarrow> history_from s path x lo w'"
  shows "durable path w'"
proof -
  obtain l st where l: "cs_ledger (sw_state w) = Some l" "l_store l = Some st" "st_path st = path"
    "st_dirty st \<or> (\<exists>f. snd (snd (sw_base w)) path = Some f \<and> holds_history (f_data f) l)"
    using assms(1) by (auto simp: durable_def)
  have "history_from s path (snd (snd (sw_base w)) path) (Some l) w"
    using assms(1,2) l(1) by (simp add: history_from_def state_kept_def durable_def ledger_follows_refl)
  from assms(3) [OF this] obtain es where k: "fe_temp (fst (snd (sw_base w'))) \<noteq> Inr path"
    "snd (snd (sw_base w')) path = snd (snd (sw_base w)) path" "cs_ledger (sw_state w') = fold apply_event es (Some l)"
    by (auto simp: history_from_def state_kept_def ledger_follows_def)
  obtain l' where "fold apply_event es (Some l) = Some l'" "map_option st_path (l_store l') = Some path" "es \<noteq> [] \<longrightarrow> dirty l'"
    using fold_events_dirty [OF l(2), of es] l(3) by auto
  with k l show ?thesis by (cases "es = []") (auto simp: durable_def dirty_def)
qed

lemma Nexus_Flush_parts:
  assumes "Nexus_Flush env w = (e, w')" "cs_ledger (sw_state w) = Some l"
  obtains now lo tr where "Flush (fst (snd (sw_base w))) now (Some l) (snd (snd (sw_base w))) = (e, lo, tr)"
    "cs_ledger (sw_state w') = lo" "snd (sw_base w') = (fst (snd (sw_base w)), last tr)"
proof -
  obtain now w1 where n: "with_base (lift_net (ae_now (se_attest env))) w = (now, w1)" by (metis surj_pair)
  then have b: "snd (sw_base w1) = snd (sw_base w)" "cs_ledger (sw_state w1) = Some l"
    using assms(2) by (auto simp: with_base_def split: prod.splits dest: lift_net_snd)
  obtain lo tr where f: "Flush (fst (snd (sw_base w))) now (Some l) (snd (snd (sw_base w))) = (e, lo, tr)"
    using assms(1) n b by (auto simp: Nexus_Flush_def split: prod.splits)
  show ?thesis by (rule that [OF f]) (use assms(1) n b f in \<open>auto simp: Nexus_Flush_def split: prod.splits\<close>)
qed

lemma Nexus_Flush_durable:
  assumes "durable path w" "new_temp path w" "Nexus_Flush env w = (e, w')"
  shows "durable path w'" "e = None \<Longrightarrow> \<exists>l l' s f. cs_ledger (sw_state w) = Some l \<and> cs_ledger (sw_state w') = Some l' \<and>
    l_store l' = Some s \<and> \<not> st_dirty s \<and> snd (snd (sw_base w')) path = Some f \<and> holds_history (f_data f) l"
proof -
  obtain l s where l: "cs_ledger (sw_state w) = Some l" "l_store l = Some s" "st_path s = path"
    "st_dirty s \<or> (\<exists>f. snd (snd (sw_base w)) path = Some f \<and> holds_history (f_data f) l)"
    using assms(1) by (auto simp: durable_def)
  obtain now lo tr where f: "Flush (fst (snd (sw_base w))) now (Some l) (snd (snd (sw_base w))) = (e, lo, tr)"
    "cs_ledger (sw_state w') = lo" "snd (sw_base w') = (fst (snd (sw_base w)), last tr)"
    using Nexus_Flush_parts [OF assms(3) l(1)] by metis
  have t: "fe_temp (fst (snd (sw_base w))) \<noteq> Inr path" using assms(1) by (simp add: durable_def)
  have "durable path w' \<and> (e = None \<longrightarrow> (\<exists>l l' s f. cs_ledger (sw_state w) = Some l \<and> cs_ledger (sw_state w') = Some l' \<and>
    l_store l' = Some s \<and> \<not> st_dirty s \<and> snd (snd (sw_base w')) path = Some f \<and> holds_history (f_data f) l))"
  proof (cases "st_dirty s")
    case False
    then have "e = None" "lo = Some l" "last tr = snd (snd (sw_base w))" using f(1) l(2) by (auto simp: Flush_def)
    with False f(2,3) l t show ?thesis by (auto simp: durable_def)
  next
    case True
    then have st: "l_store l = Some \<lparr>st_path = path, st_dirty = True\<rparr>" using l(2,3) by (cases s) simp
    show ?thesis
    proof (cases e)
      case (Some x)
      have fl: "Flush (fst (snd (sw_base w))) now (Some l) (snd (snd (sw_base w))) = (Some x, lo, tr)" using f(1) Some by simp
      from Flush_failed(1) [OF st fl] Some f(2,3) st t show ?thesis by (auto simp: durable_def)
    next
      case None
      obtain l' where l': "lo = Some l'"
        using f(1) st by (auto simp: Flush_def Let_def split: if_splits sum.splits option.splits prod.splits)
      obtain d where d: "enc_state (snapshotForDisk now l) = Inr d"
        "last tr = (snd (snd (sw_base w)))(path \<mapsto> \<lparr>f_data = d, f_mode = mode_0600\<rparr>)" "l' = clear_dirty l"
        using Flush_written [OF st assms(2) [unfolded new_temp_def]] f(1) None l' by metis
      then have h: "holds_history d l" by (auto simp: holds_history_def)
      have c: "l_store (clear_dirty l) = Some \<lparr>st_path = path, st_dirty = False\<rparr>" using st by (simp add: clear_dirty_def)
      from None l' d(2,3) h c f(2,3) l(1) t show ?thesis by (simp add: durable_def)
    qed
  qed
  then show "durable path w'" "e = None \<Longrightarrow> \<exists>l l' s f. cs_ledger (sw_state w) = Some l \<and> cs_ledger (sw_state w') = Some l' \<and>
    l_store l' = Some s \<and> \<not> st_dirty s \<and> snd (snd (sw_base w')) path = Some f \<and> holds_history (f_data f) l" by blast+
qed

lemma managed_step_durable:
  assumes "managed_step env nc path w w'" "durable path w" "cache_avoids (nc_source nc) path"
  shows "durable path w'"
  using assms(1)
proof (rule managed_stepE)
  fix r rw rw' en
  assume s: "sdk_serve env nc r rw w = (rw', en, w')"
  show ?thesis by (rule history_durable [OF assms(2,3) history.serve_keeps [OF _ s [unfolded sdk_serve_def]]])
next
  fix r
  assume v: "Nexus_Verify env nc w = (r, w')"
  show ?thesis by (rule history_durable [OF assms(2,3) Nexus_Verify_history [OF _ v]])
next
  fix s
  assume t: "w' = policy_refresh_tick env s w" and s: "nc_source nc = Some s"
  show ?thesis unfolding t by (rule history_durable [OF assms(2,3) policy_refresh_tick_history [OF _ s]])
next
  fix e
  assume "new_temp path w" "Nexus_Flush env w = (e, w')"
  then show ?thesis by (rule Nexus_Flush_durable(1) [OF assms(2)])
next
  fix b
  assume "w' = w\<lparr>sw_base := b\<rparr>" "fe_temp (fst (snd b)) \<noteq> Inr path" "snd (snd b) path = snd (snd (sw_base w)) path"
  then show ?thesis using assms(2) by (simp add: durable_def)
qed

lemma durable_written:
  assumes "durable path w" "cs_ledger (sw_state w) = Some l" "l_store l = Some s" "\<not> st_dirty s"
  obtains f where "snd (snd (sw_base w)) path = Some f" "holds_history (f_data f) l"
  using assms by (auto simp: durable_def)

lemma managed_steps_durable:
  "(managed_step env nc path)\<^sup>*\<^sup>* w w' \<Longrightarrow> durable path w \<Longrightarrow> cache_avoids (nc_source nc) path \<Longrightarrow> durable path w'"
  by (induction rule: rtranclp_induct) (auto intro: managed_step_durable)

section \<open>From New to the next New\<close>

lemma loadFrom_store: "l_store (loadFrom contents l) = l_store l"
  by (simp add: loadFrom_def split: sum.split)

lemma initial_ledger_store:
  "initial_ledger c b = Inr l \<Longrightarrow> nx_state_file c \<noteq> [] \<Longrightarrow>
     l_store l = Some \<lparr>st_path = nx_state_file c, st_dirty = False\<rparr>"
  by (auto simp: initial_ledger_def OpenLedger_def loadFrom_store split: sum.splits option.splits)

lemma initial_policy_kept:
  assumes "initial_policy env c b = (Inr (s, p0), b')" "\<forall>u. nx_updates c = Some u \<longrightarrow> tu_cache_file u \<noteq> path"
    "fe_temp (fst (snd b)) \<noteq> Inr path"
  shows "state_kept s path (snd (snd b) path) b'"
proof (cases "nx_updates c")
  case None
  then have "s = None" "b' = b" using assms(1) by (auto simp: initial_policy_def split: sum.splits)
  with assms(3) show ?thesis by (simp add: state_kept_def cache_avoids_def)
next
  case (Some u)
  then obtain src where src: "newReleaseSource (se_sigstore env) (se_root_json env) u rejecting_client = Inr src"
    "base_policy env src b = (Inr p0, b')" "s = Some src"
    using assms(1) by (auto simp: initial_policy_def split: sum.splits prod.splits)
  have "src_cache src = None \<or> src_cache src = Some (file_cache (tu_cache_file u))"
    using src(1) by (auto simp: newReleaseSource_def NewFileCache_def WithCache_def split: sum.splits if_splits dest: NewSource_guarded)
  then have "cache_avoids s path"
    using file_cache_avoids [of src "tu_cache_file u" path] assms(2) Some src(3) by (auto simp: cache_avoids_def)
  with assms(3) have "state_kept s path (snd (snd b) path) b" by (simp add: state_kept_def)
  then show ?thesis by (rule base_policy_kept [OF src(2,3)])
qed

text \<open>A client that has just started has a record to write: its first attestation.\<close>

lemma New_durable:
  assumes "New env c b = (Inr (nc, w), b')" "nx_state_file c \<noteq> []"
    "\<forall>u. nx_updates c = Some u \<longrightarrow> tu_cache_file u \<noteq> nx_state_file c" "fe_temp (fst (snd b)) \<noteq> Inr (nx_state_file c)"
  shows "durable (nx_state_file c) w" "cache_avoids (nc_source nc) (nx_state_file c)"
proof -
  let ?path = "nx_state_file c"
  obtain u p0 b1 b2 where c: "initial_policy env c b = (Inr (nc_source nc, p0), b1)"
    "start_client env c u (nc_source nc) p0 b1 = (Inr w, b2)"
    using assms(1) by (cases b') (auto simp: New_def split: sum.splits prod.splits)
  note k = initial_policy_kept [OF c(1) assms(3,4)]
  then show "cache_avoids (nc_source nc) ?path" by (simp add: state_kept_def)
  obtain v st0 l st es'
  where n: "NewConfidentialClient (u @ ConfidentialEndpoint) (Some (source_verify env (nc_source nc))) (Some rejecting_client) = Inr st0"
    and l: "initial_ledger c b1 = Inr l"
    and wu: "WarmUp (confidential_env env (nc_source nc) u) (WithLedger (Some l) st0) (first_source (nc_source nc) v) b1 = (None, st, es', b2)"
      "w = \<lparr>sw_state = st, sw_evidence = es', sw_base = b2\<rparr>"
    by (rule start_client_warm [OF c(2)])
  have t: "fe_temp (fst (snd b2)) \<noteq> Inr ?path"
    using base_frame.WarmUp_kept [OF k wu(1)] by (simp add: state_kept_def)
  have st0: "cs_session (WithLedger (Some l) st0) = None" "cs_ledger (WithLedger (Some l) st0) = Some l"
    using NewConfidentialClient_state [OF n] by (simp_all add: WithLedger_def)
  obtain ss where "establish (confidential_env env (nc_source nc) u) (WithLedger (Some l) st0) (first_source (nc_source nc) v) b1 =
      (Inr ss, st, es', b2)"
    using wu(1) st0(1) by (auto simp: WarmUp_def sessionFor_def split: prod.splits sum.splits)
  then obtain ev w1 where "cs_ledger st = cs_ledger (fst (record_verified (ce_now (confidential_env env (nc_source nc) u))
      (ss_attestation_id ss) ev (WithLedger (Some l) st0) w1))"
    by (rule establish_Inr) (rule that)
  with st0(2) obtain a d m now where "cs_ledger st = RecordVerified a d m now (Some l)"
    by (auto simp: record_verified_def split: prod.splits if_splits)
  then have "cs_ledger st = fold apply_event [Verified a d m now] (Some l)" by simp
  with fold_events_dirty [OF initial_ledger_store [OF l assms(2)], of "[Verified a d m now]"] wu(2) t
  show "durable ?path w" by (auto simp: durable_def dirty_def)
qed

lemma history_reopens:
  assumes "holds_history d l" "storable_ledger l" "nx_state_file c \<noteq> []" "fe_mkdir (fst (snd b)) = None"
    "map_option f_data (snd (snd b) (nx_state_file c)) = Some d"
  shows "initial_ledger c b =
    Inr ((if length d \<le> maxStateBytes then l\<lparr>l_attestations := map compacted (l_attestations l)\<rparr> else NewLedger)
         \<lparr>l_store := Some \<lparr>st_path = nx_state_file c, st_dirty = False\<rparr>\<rparr>)"
proof -
  let ?l0 = "NewLedger\<lparr>l_store := Some \<lparr>st_path = nx_state_file c, st_dirty = False\<rparr>\<rparr>"
  obtain now where e: "enc_state (snapshotForDisk now l) = Inr d" using assms(1) by (auto simp: holds_history_def)
  have i: "initial_ledger c b = Inr (loadFrom (Inr d) ?l0)"
    using assms(3-5) by (auto simp: initial_ledger_def OpenLedger_def os_read_file_def)
  show ?thesis
  proof (cases "length d \<le> maxStateBytes")
    case True
    with loadFrom_flushed [OF assms(2) enc_state_year [OF e] e True, of ?l0] i show ?thesis by (simp add: NewLedger_def)
  next
    case False
    with i show ?thesis by (simp add: loadFrom_def)
  qed
qed

section \<open>Records that can be stored\<close>

lemma utf8_valid_append: "utf8_valid s \<Longrightarrow> utf8_valid t \<Longrightarrow> utf8_valid (s @ t)"
proof (induction s rule: utf8_valid.induct)
  case (2 c s)
  show ?case
  proof (cases "ord_of c < 128")
    case True
    with 2 show ?thesis by (simp add: utf8_valid.simps(2))
  next
    case False
    let ?n = "utf8_multi (c # s)"
    have n: "?n \<noteq> 0" and v: "utf8_valid (drop ?n (c # s))"
      using 2(3) False by (auto simp: utf8_valid.simps(2) split: if_splits)
    have p: "?n \<le> length (c # s)" "utf8_multi (c # s @ t) = ?n"
      using utf8_multi_prefix [OF refl n, of "drop ?n (c # s) @ t"] by (auto simp: append_assoc [symmetric] simp del: append_assoc)
    have "utf8_valid (drop ?n (c # s) @ t)" using 2(2) [OF False n v 2(4)] .
    moreover have "drop ?n (c # s) @ t = drop ?n (c # s @ t)" using p(1) drop_append [of ?n "c # s" t] by simp
    ultimately show ?thesis using p(2) False n by (simp add: utf8_valid.simps(2))
  qed
qed simp

lemma utf8_valid_ascii_cons: "ord_of c < 128 \<Longrightarrow> utf8_valid (c # s) = utf8_valid s"
  by (simp add: utf8_valid.simps(2))

lemma utf8_short: "list_all plain_char s \<Longrightarrow> utf8_valid (short s)"
proof -
  assume "list_all plain_char s"
  then have "utf8_valid (take 16 s)" by (intro utf8_valid_plain) (auto simp: list_all_iff dest: in_set_takeD)
  moreover have "utf8_valid [CHR 0xE2, CHR 0x80, CHR 0xA6]" by code_simp
  ultimately show ?thesis using \<open>list_all plain_char s\<close> by (simp add: short_def utf8_valid_append utf8_valid_plain)
qed

lemma utf8_dec_int: "utf8_valid (dec_int i)"
  using plain_dec_nat by (intro utf8_valid_plain) (simp add: dec_int_def plain_char_def)

lemma utf8_humanDuration: "utf8_valid (humanDuration d)"
  by (simp add: humanDuration_def Let_def utf8_valid_append utf8_dec_int utf8_valid_ascii_cons)

lemma utf8_signedAgo: "utf8_valid (signedAgo d)"
  by (simp add: signedAgo_def utf8_valid_append utf8_humanDuration utf8_valid_ascii_cons)

text \<open>The record of accepted evidence can be stored, when the texts in it are UTF-8.\<close>

lemma describe_storable:
  assumes "describeEvidence ident ev now = (rec, document, manifest)"
    "\<forall>s\<in>set [ident, pf_module_id (ev_proof ev), pf_source_revision (ev_proof ev), pf_workload (ev_proof ev), pf_profile (ev_proof ev),
       e2ee_protocol (pf_e2ee (ev_proof ev)), e2ee_suite (pf_e2ee (ev_proof ev)), e2ee_endpoint (pf_e2ee (ev_proof ev))]. utf8_valid s"
    "list_all plain_char (pf_root_fingerprint (ev_proof ev))"
    "\<forall>t\<in>set [now, ev_attested_at ev, ev_expires_at ev]. json_year_ok t" "now \<noteq> 0"
    "in_int64 (int (length document))" "storable_manifest manifest"
  shows "storable_attestation (verified_record rec document manifest now')"
proof -
  have c: "\<forall>c\<in>set (describe_checks ev age). utf8_valid (ck_name c) \<and> utf8_valid (ck_detail c)" for age
    using assms(2,3)
    by (simp add: describe_checks_def Let_def passed_check_def utf8_valid_append utf8_valid_ascii_cons utf8_short utf8_signedAgo
        utf8_humanDuration)
  have p: "utf8_valid (pcr_hex (pf_pcrs (ev_proof ev)) i)" for i
    by (simp add: pcr_hex_def utf8_valid_plain plain_hex_encode split: option.split)
  show ?thesis
    using assms c p
    by (auto simp: storable_attestation_def verified_record_def describeEvidence_def Let_def zero_attestation_def
        OutcomeVerified_def utf8_valid_ascii_cons utf8_valid_plain plain_hex_encode)
qed

section \<open>A client with a state file\<close>

lemma sample_manifest_tight: "compact in_str esc sample_manifest = sample_manifest"
proof -
  have "list_all (\<lambda>c. \<not> is_ws c \<and> c \<notin> set [CHR ''<'', CHR ''>'', CHR ''&'', CHR 0xE2]) sample_manifest" by code_simp
  then show ?thesis by (rule compact_tight)
qed

lemma sample_time_year: "json_year_ok sample_time" "json_year_ok (sample_time + 2 * minute)" "sample_time \<noteq> 0"
  by code_simp+

lemma sample_manifest_storable: "storable_manifest sample_manifest"
proof -
  obtain v where v: "parses_to 3 sample_manifest v"
    using gateway_manifest_parses [OF sample_texts(2)] by (auto simp: decodes_def sample_manifest_def)
  then have "parses_to manifest_depth sample_manifest v" by (rule parses_to_mono) (simp add: manifest_depth_def max_nesting_def)
  with json_parse_enc [OF v] v show ?thesis
    by (auto simp: storable_manifest_def sample_manifest_tight json_valid_def max_nesting_def parses_to_def)
qed

definition sample_state_config :: nexus_config where
  "sample_state_config = sample_config\<lparr>nx_state_file := ''state''\<rparr>"

definition sample_first_ledger :: ledger where
  "sample_first_ledger = the (sample_recorded (Some (NewLedger\<lparr>l_store := Some \<lparr>st_path = ''state'', st_dirty = False\<rparr>\<rparr>)))"

lemma sample_state_new:
  "New sample_env sample_state_config (True, good_disk, Map.empty) =
     (Inr (sample_client, sample_world sample_first_ledger (good_disk, Map.empty)), (True, good_disk, Map.empty))"
  unfolding sample_state_config_def sample_first_ledger_def
  by (rule sample_new_recorded)
     (simp add: initial_ledger_def OpenLedger_def good_disk_def os_read_file_def loadFrom_def)

lemma sample_evidence_texts:
  "pf_module_id (ev_proof (sample_verified sample_verifier)) = ''module''"
  "pf_root_fingerprint (ev_proof (sample_verified sample_verifier)) = expectedAWSRootFingerprint"
  "pf_source_revision (ev_proof (sample_verified sample_verifier)) = sample_revision"
  "pf_e2ee (ev_proof (sample_verified sample_verifier)) = required_e2ee"
  "pf_workload (ev_proof (sample_verified sample_verifier)) = GatewayWorkload"
  "pf_profile (ev_proof (sample_verified sample_verifier)) = GatewayProfile"
  "pf_manifest (ev_proof (sample_verified sample_verifier)) = sample_manifest"
  "pf_document (ev_proof (sample_verified sample_verifier)) = ''signed document''"
  "ev_attested_at (sample_verified sample_verifier) = sample_time"
  by (simp_all add: sample_verified_def evidence_of_def Let_def sample_result_def sample_nitro_document_def sample_verifier_def
      sample_policy_def document_policy_def sample_release_def sample_fetched_def gateway_evidence_def sample_time_def)

lemma sample_first_ledger_storable:
  "l_store sample_first_ledger = Some \<lparr>st_path = ''state'', st_dirty = True\<rparr>" "storable_ledger sample_first_ledger"
proof -
  let ?ev = "sample_verified sample_verifier" and ?l0 = "NewLedger\<lparr>l_store := Some \<lparr>st_path = ''state'', st_dirty = False\<rparr>\<rparr>"
  obtain rec document manifest where d: "describeEvidence (FingerprintKey (ev_public_key ?ev)) ?ev sample_time = (rec, document, manifest)"
    by (metis prod_cases3)
  then have l: "sample_first_ledger = the (RecordVerified rec document manifest 0 (Some ?l0))"
    by (simp add: sample_first_ledger_def sample_recorded_def)
  show "l_store sample_first_ledger = Some \<lparr>st_path = ''state'', st_dirty = True\<rparr>"
    by (simp add: l RecordVerified_def markDirty_def)
  have f: "l_attestations sample_first_ledger = [verified_record rec document manifest 0]" "l_requests sample_first_ledger = []"
    by (simp_all add: l RecordVerified_def markDirty_def NewLedger_def appendCapped_def maxAttestations_def)
  have "storable_attestation (verified_record rec document manifest 0)"
    using describeEvidence_binding(5,6) [OF d] sample_manifest_storable sample_time_year
    by (intro describe_storable [OF d])
       (simp_all add: sample_evidence_texts sample_evidence_time FingerprintKey_def plain_hex_encode utf8_valid_plain sample_texts
        required_e2ee_def policy_consts plain_char_def expectedAWSRootFingerprint_def in_int64_def)
  then show "storable_ledger sample_first_ledger"
    by (simp add: storable_ledger_def f maxAttestations_def maxRequests_def)
qed

lemma sample_close:
  obtains w' where "Nexus_Close sample_env sample_client (sample_world sample_first_ledger (good_disk, fs)) =
    (None, sample_client\<lparr>nc_refresh_interval := None\<rparr>, w')"
    "cs_ledger (sw_state w') = Some (clear_dirty sample_first_ledger)" "fst (snd (sw_base w')) = good_disk"
proof -
  let ?w = "sample_world sample_first_ledger (good_disk, fs)"
  have now: "lift_net (ae_now (se_attest sample_env)) (True, d) = (sample_time, (True, d))" for d
    by (simp add: sample_env_def sample_attest_def lift_net_def)
  have "storable_state (snapshotForDisk sample_time (clear_dirty sample_first_ledger))"
    using sample_first_ledger_storable sample_time_year(1)
    by (simp add: storable_state_def snapshotForDisk_def storable_ledger_def stateSchemaVersion_def in_int64_def clear_dirty_def)
  then obtain data where d: "enc_state (snapshotForDisk sample_time (clear_dirty sample_first_ledger)) = Inr data"
    using enc_state_ok by blast
  have "fst (writeFileAtomic good_disk ''state'' data fs) = None"
    by (simp add: writeFileAtomic_def replace_with_def good_disk_def ledger_file_ops_def)
  then obtain disks where "writeFileAtomic good_disk ''state'' data fs = (None, disks)" by (metis prod.collapse)
  then have "Flush good_disk sample_time (Some sample_first_ledger) fs = (None, Some (clear_dirty sample_first_ledger), disks)"
    using d by (simp add: Flush_def Let_def sample_first_ledger_storable)
  then obtain w' where "Nexus_Flush sample_env ?w = (None, w')" "cs_ledger (sw_state w') = Some (clear_dirty sample_first_ledger)"
    "fst (snd (sw_base w')) = good_disk"
    by (simp add: Nexus_Flush_def with_base_def sample_world_def now)
  then show ?thesis using that by (simp add: Nexus_Close_def)
qed

section \<open>Properties\<close>

text \<open>C13: A client that was started with a state file and is closed without an error leaves its history to the
  next start: whatever was served, verified, refreshed and flushed in between, the ledger the next \<open>New\<close>
  opens is the one that was closed, with compacted manifests (or an empty one, when the file is larger than
  the reader takes).\<close>

theorem history_survives_restart:
  assumes "New env c b = (Inr (nc, w0), b0)" "nx_state_file c \<noteq> []"
    "\<forall>u. nx_updates c = Some u \<longrightarrow> tu_cache_file u \<noteq> nx_state_file c"
    "fe_temp (fst (snd b)) \<noteq> Inr (nx_state_file c)"
    "(managed_step env nc (nx_state_file c))\<^sup>*\<^sup>* w0 w"
    "new_temp (nx_state_file c) w"
    "Nexus_Close env nc w = (None, nc', w')" "cs_ledger (sw_state w) = Some l" "storable_ledger l"
    "fe_mkdir (fst (snd b')) = None" "snd (snd b') (nx_state_file c) = snd (snd (sw_base w')) (nx_state_file c)"
  shows "\<exists>f. snd (snd (sw_base w')) (nx_state_file c) = Some f \<and> initial_ledger c b' =
    Inr ((if length (f_data f) \<le> maxStateBytes then l\<lparr>l_attestations := map compacted (l_attestations l)\<rparr> else NewLedger)
         \<lparr>l_store := Some \<lparr>st_path = nx_state_file c, st_dirty = False\<rparr>\<rparr>)"
proof -
  have d: "durable (nx_state_file c) w"
    using managed_steps_durable [OF assms(5)] New_durable [OF assms(1-4)] by blast
  have fl: "Nexus_Flush env w = (None, w')" using assms(7) by (auto simp: Nexus_Close_def split: prod.splits)
  obtain f where f: "snd (snd (sw_base w')) (nx_state_file c) = Some f" "holds_history (f_data f) l"
    using Nexus_Flush_durable(2) [OF d assms(6) fl] assms(8) by auto
  with history_reopens [OF f(2) assms(9,2,10)] assms(11) show ?thesis by simp
qed

theorem history_survives_restart_witness:
  "\<exists>w' f. Nexus_Close sample_env sample_client (sample_world sample_first_ledger (good_disk, Map.empty)) =
       (None, sample_client\<lparr>nc_refresh_interval := None\<rparr>, w') \<and> snd (snd (sw_base w')) ''state'' = Some f \<and>
     initial_ledger sample_state_config (sw_base w') =
       Inr ((if length (f_data f) \<le> maxStateBytes
          then sample_first_ledger\<lparr>l_attestations := map compacted (l_attestations sample_first_ledger)\<rparr> else NewLedger)
         \<lparr>l_store := Some \<lparr>st_path = ''state'', st_dirty = False\<rparr>\<rparr>)"
proof -
  let ?w = "sample_world sample_first_ledger (good_disk, Map.empty)"
  obtain w' where c: "Nexus_Close sample_env sample_client ?w = (None, sample_client\<lparr>nc_refresh_interval := None\<rparr>, w')"
    and d: "fst (snd (sw_base w')) = good_disk"
    by (rule sample_close)
  have w: "fst (snd (sw_base ?w)) = good_disk" "snd (snd (sw_base ?w)) = Map.empty" "cs_ledger (sw_state ?w) = Some sample_first_ledger"
    by (simp_all add: sample_world_def)
  have m: "fe_mkdir (fst (snd (sw_base w'))) = None" using d by (simp add: good_disk_def)
  from c m w sample_first_ledger_storable(2) show ?thesis
    using history_survives_restart [OF sample_state_new _ _ _ rtranclp.rtrancl_refl _ c w(3) _ m, simplified]
    by (auto simp: sample_state_config_def new_temp_def fresh_temp_def good_disk_def)
qed

end
