(* ===== verification/Proxy.thy ===== *)
theory Proxy
  imports Cmd Restart
begin

text \<open>
  The life of the proxy process (\<open>run\<close> in cmd/nexus-proxy/main.go), from the first request to the exit: the
  goroutine of the server, the ticker that writes the state file, the signal, the shutdown and the deferred
  \<open>Close\<close>, as a step relation. A flush is its three critical sections (\<open>Ledger.Flush\<close> in
  internal/ledger/store.go), each a step of its own: \<open>run\<close> never waits for a flush of the ticker.
\<close>

section \<open>The sections of a flush\<close>

definition put_ledger :: "ledger \<Rightarrow> ('id, 'n) sdk_world \<Rightarrow> ('id, 'n) sdk_world" where
  "put_ledger l w = w\<lparr>sw_state := (sw_state w)\<lparr>cs_ledger := Some l\<rparr>\<rparr>"

text \<open>Under the mutex of the store: nothing to do, or the mark is cleared.\<close>

definition begin_flush :: "('id, 'n) sdk_world \<Rightarrow> ('id, 'n) sdk_world option" where
  "begin_flush w = (case cs_ledger (sw_state w) of
     None \<Rightarrow> None
   | Some l \<Rightarrow> (case l_store l of
       None \<Rightarrow> None
     | Some s \<Rightarrow> if st_dirty s then Some (put_ledger (clear_dirty l) w) else None))"

text \<open>Under the mutex of the ledger, which is \<open>l\<close> by now: the snapshot and its encoding.\<close>

definition take_flush ::
    "('t, 'v, 'b, 'i, 'id, 'n) sdk_env \<Rightarrow> ledger \<Rightarrow> ('id, 'n) sdk_world \<Rightarrow> bytes result \<times> ('id, 'n) sdk_world" where
  "take_flush env l w = (case with_base (lift_net (ae_now (se_attest env))) w of (now, w1) \<Rightarrow>
     (case enc_state (snapshotForDisk now l) of
        Inl e \<Rightarrow> (Inl (Wrapf ''encode ledger state: '' e []), put_ledger (markDirty l) w1)
      | Inr d \<Rightarrow> (Inr d, w1)))"

text \<open>Under no mutex: the file is replaced, or the ledger is marked again.\<close>

definition write_flush :: "bytes \<Rightarrow> ledger \<Rightarrow> ('id, 'n) sdk_world \<Rightarrow> error option \<times> ('id, 'n) sdk_world" where
  "write_flush d l w = (case l_store l of
     None \<Rightarrow> (None, w)
   | Some s \<Rightarrow> (case writeFileAtomic (fst (snd (sw_base w))) (st_path s) d (snd (snd (sw_base w))) of
       (e, tr) \<Rightarrow> (e, put_ledger (if e = None then l else markDirty l)
         (w\<lparr>sw_base := (fst (sw_base w), fst (snd (sw_base w)), last tr)\<rparr>))))"


section \<open>The process\<close>

text \<open>
  Where \<open>run\<close> is: in the select, in the flush after a signal, in \<open>server.Shutdown\<close>, waiting for the result of
  \<open>Serve\<close>, returning a status, in the flush of the deferred \<open>Close\<close>, or gone, with the error of \<open>Close\<close>.
\<close>

datatype proxy_phase = Listening | Flushing | ShuttingDown | Awaiting | Exiting int | Closing int | Exited int "error option"

text \<open>
  \<open>px_server\<close> is the channel \<open>serverErrors\<close>: what \<open>Serve\<close> has returned. \<open>px_ticker\<close>: the goroutine of the ticker
  is there; \<open>px_stop\<close>: the channel \<open>stopFlushing\<close> is closed. \<open>px_flushes\<close>: the flushes that are running, of the ticker's
  goroutine and of the main one.
\<close>

record ('id, 'n) proxy_state =
  px_phase :: proxy_phase
  px_server :: "error option option"
  px_ticker :: bool
  px_stop :: bool
  px_flushes :: "nat \<Rightarrow> flush_phase option"
  px_world :: "('id, 'n) sdk_world"

abbreviation ticker_thread :: nat where "ticker_thread \<equiv> 0"
abbreviation main_thread :: nat where "main_thread \<equiv> 1"

definition proxy_start :: "proxy_config \<Rightarrow> ('id, 'n) sdk_world \<Rightarrow> ('id, 'n) proxy_state" where
  "proxy_start c w = \<lparr>px_phase = Listening, px_server = None, px_ticker = (pc_state_file c \<noteq> []), px_stop = False,
     px_flushes = Map.empty, px_world = w\<rparr>"

fun exited :: "proxy_phase \<Rightarrow> bool" where
  "exited (Exited status e) = True"
| "exited _ = False"

text \<open>\<open>Close\<close> stops the background refresh and waits for it before it flushes.\<close>

fun refreshing_phase :: "proxy_phase \<Rightarrow> bool" where
  "refreshing_phase (Closing status) = False"
| "refreshing_phase (Exited status e) = False"
| "refreshing_phase _ = True"

definition after_shutdown :: "error option \<Rightarrow> proxy_phase" where
  "after_shutdown e = (if e = None then Awaiting else Exiting 1)"

text \<open>The main goroutine calls \<open>sdk.Flush\<close>: with nothing to write the call is over at once.\<close>

definition main_flush :: "proxy_phase \<Rightarrow> proxy_phase \<Rightarrow> ('id, 'n) proxy_state \<Rightarrow> ('id, 'n) proxy_state" where
  "main_flush during after x = (case begin_flush (px_world x) of
     None \<Rightarrow> x\<lparr>px_phase := after\<rparr>
   | Some w \<Rightarrow> x\<lparr>px_phase := during, px_flushes := (px_flushes x)(main_thread \<mapsto> Cleared), px_world := w\<rparr>)"

text \<open>A flush returns: the ticker goes on, the main goroutine too, where the flush was called.\<close>

definition flush_returns :: "nat \<Rightarrow> error option \<Rightarrow> ('id, 'n) proxy_state \<Rightarrow> ('id, 'n) proxy_state" where
  "flush_returns i e x = x\<lparr>px_flushes := (px_flushes x)(i := None),
     px_phase := (if i \<noteq> main_thread then px_phase x
       else (case px_phase x of Flushing \<Rightarrow> ShuttingDown | Closing status \<Rightarrow> Exited status e | p \<Rightarrow> p))\<rparr>"

text \<open>
  Requests run on goroutines of the server, also while it shuts down and after a shutdown that failed; a
  request is one step, and \<open>recorded\<close> is one record of a request that is still running. The ticker starts a flush only
  when its last one has returned; a closed \<open>stopFlushing\<close> stops it at its select, where a tick may come first. A
  process whose server has failed never closes \<open>stopFlushing\<close>. The exit stops every goroutine where it is.
\<close>

inductive proxy_step ::
    "('t, 'v, 'b, 'i, 'id, 'n) sdk_env \<Rightarrow> 'v nexus_client \<Rightarrow> string \<Rightarrow> ('id, 'n) proxy_state \<Rightarrow> ('id, 'n) proxy_state \<Rightarrow> bool"
  for env nc path where
  request: "\<not> exited (px_phase x) \<Longrightarrow> sdk_serve env nc r rw (px_world x) = (rw', en, w') \<Longrightarrow>
     proxy_step env nc path x (x\<lparr>px_world := w'\<rparr>)"
| recorded: "\<not> exited (px_phase x) \<Longrightarrow> apply_event ev (cs_ledger (sw_state (px_world x))) = Some l \<Longrightarrow>
     proxy_step env nc path x (x\<lparr>px_world := put_ledger l (px_world x)\<rparr>)"
| refresh: "refreshing_phase (px_phase x) \<Longrightarrow> nc_source nc = Some s \<Longrightarrow>
     proxy_step env nc path x (x\<lparr>px_world := policy_refresh_tick env s (px_world x)\<rparr>)"
| outside: "\<not> exited (px_phase x) \<Longrightarrow> fe_temp (fst (snd b)) \<noteq> Inr path \<Longrightarrow>
     snd (snd b) path = snd (snd (sw_base (px_world x))) path \<Longrightarrow>
     proxy_step env nc path x (x\<lparr>px_world := (px_world x)\<lparr>sw_base := b\<rparr>\<rparr>)"
| tick: "\<not> exited (px_phase x) \<Longrightarrow> px_ticker x \<Longrightarrow> px_flushes x ticker_thread = None \<Longrightarrow> begin_flush (px_world x) = Some w' \<Longrightarrow>
     proxy_step env nc path x (x\<lparr>px_flushes := (px_flushes x)(ticker_thread \<mapsto> Cleared), px_world := w'\<rparr>)"
| ticker_stops: "\<not> exited (px_phase x) \<Longrightarrow> px_stop x \<Longrightarrow> px_flushes x ticker_thread = None \<Longrightarrow>
     proxy_step env nc path x (x\<lparr>px_ticker := False\<rparr>)"
| taken: "\<not> exited (px_phase x) \<Longrightarrow> px_flushes x i = Some Cleared \<Longrightarrow> cs_ledger (sw_state (px_world x)) = Some l \<Longrightarrow>
     take_flush env l (px_world x) = (Inr d, w') \<Longrightarrow>
     proxy_step env nc path x (x\<lparr>px_flushes := (px_flushes x)(i \<mapsto> Taken d), px_world := w'\<rparr>)"
| unencodable: "\<not> exited (px_phase x) \<Longrightarrow> px_flushes x i = Some Cleared \<Longrightarrow> cs_ledger (sw_state (px_world x)) = Some l \<Longrightarrow>
     take_flush env l (px_world x) = (Inl e, w') \<Longrightarrow>
     proxy_step env nc path x (flush_returns i (Some e) (x\<lparr>px_world := w'\<rparr>))"
| written: "\<not> exited (px_phase x) \<Longrightarrow> px_flushes x i = Some (Taken d) \<Longrightarrow> cs_ledger (sw_state (px_world x)) = Some l \<Longrightarrow>
     new_temp path (px_world x) \<Longrightarrow> write_flush d l (px_world x) = (e, w') \<Longrightarrow>
     proxy_step env nc path x (flush_returns i e (x\<lparr>px_world := w'\<rparr>))"
| serve_returns: "\<not> exited (px_phase x) \<Longrightarrow> px_server x = None \<Longrightarrow> proxy_step env nc path x (x\<lparr>px_server := Some err\<rparr>)"
| stopped: "px_phase x = Listening \<Longrightarrow> px_server x = Some err \<Longrightarrow>
     proxy_step env nc path x (x\<lparr>px_phase := Exiting (serve_status err)\<rparr>)"
| signalled: "px_phase x = Listening \<Longrightarrow> proxy_step env nc path x (main_flush Flushing ShuttingDown (x\<lparr>px_stop := True\<rparr>))"
| shut_down: "px_phase x = ShuttingDown \<Longrightarrow> proxy_step env nc path x (x\<lparr>px_phase := after_shutdown e\<rparr>)"
| awaited: "px_phase x = Awaiting \<Longrightarrow> px_server x = Some err \<Longrightarrow>
     proxy_step env nc path x (x\<lparr>px_phase := Exiting (serve_status err)\<rparr>)"
| closing: "px_phase x = Exiting status \<Longrightarrow> proxy_step env nc path x (main_flush (Closing status) (Exited status None) x)"

inductive_cases proxy_stepE: "proxy_step env nc path x x'"

section \<open>The process as a run of flushes\<close>

text \<open>What FlushConc sees of the process.\<close>

definition flush_view :: "string \<Rightarrow> ('id, 'n) proxy_state \<Rightarrow> flush_conf" where
  "flush_view path x = \<lparr>fc_ledger = the (cs_ledger (sw_state (px_world x))),
     fc_file = map_option f_data (snd (snd (sw_base (px_world x))) path), fc_flushes = px_flushes x\<rparr>"



definition stored_at :: "string \<Rightarrow> ledger \<Rightarrow> bool" where
  "stored_at path l \<longleftrightarrow> map_option st_path (l_store l) = Some path"

lemma stored_at_simps [simp]:
  "stored_at path (markDirty l) = stored_at path l" "stored_at path (clear_dirty l) = stored_at path l"
  by (auto simp: stored_at_def markDirty_def clear_dirty_def split: option.splits)



lemma put_ledger_simps [simp]:
  "sw_base (put_ledger l w) = sw_base w" "cs_ledger (sw_state (put_ledger l w)) = Some l"
  by (simp_all add: put_ledger_def)






text \<open>The steps that are sections of a flush, and those that are none.\<close>

lemma main_flush_cases:
  obtains "begin_flush (px_world x) = None" "main_flush during after x = x\<lparr>px_phase := after\<rparr>"
  | w' where "begin_flush (px_world x) = Some w'" "main_flush during after x =
      x\<lparr>px_phase := during, px_flushes := (px_flushes x)(main_thread \<mapsto> Cleared), px_world := w'\<rparr>"
  by (cases "begin_flush (px_world x)") (simp_all add: main_flush_def)



lemma flush_returns_simps [simp]:
  "px_world (flush_returns i e x) = px_world x" "px_server (flush_returns i e x) = px_server x"
  "px_flushes (flush_returns i e x) = (px_flushes x)(i := None)"
  by (simp_all add: flush_returns_def)



section \<open>What every run keeps\<close>










section \<open>Runs whose flushes do not overlap\<close>

lemma view_returned:
  "px_world x = w \<Longrightarrow> flush_view path (flush_returns i e x) = (flush_view path x)\<lparr>fc_flushes := (px_flushes x)(i := None)\<rparr>"
  by (simp add: flush_view_def)







section \<open>A process with a state file\<close>

definition sample_args :: "string list" where
  "sample_args = [''--gateway-url=https://gateway.example'', ''--trust-policy=policy.json'']"

definition sample_disk :: fs where
  "sample_disk = [''policy.json'' \<mapsto> \<lparr>f_data = sample_policy_json, f_mode = 420\<rparr>]"

definition sample_cmd :: proxy_config where
  "sample_cmd = \<lparr>pc_gateway_origin = sample_origin, pc_trust_policy_path = ''policy.json'', pc_listen_address = ''127.0.0.1:3301'',
     pc_listen_scope = ''loopback'', pc_attestation_timeout = defaultRequestTimeout, pc_verification_ui = True,
     pc_model_catalog = True, pc_state_file = [], pc_policy_updates = False, pc_policy_cache_file = [], pc_policy_refresh = hour\<rparr>"

lemma sample_flags: "parseFlags sample_args = Inr sample_cmd"
  unfolding sample_args_def sample_cmd_def sample_origin_def by code_simp

lemma sample_cmd_new_recorded:
  assumes "initial_ledger (sdk_config (sample_cmd\<lparr>pc_state_file := path\<rparr>)) (True, fe, sample_disk) = Inr l0"
  obtains nc where "New sample_env (sdk_config (sample_cmd\<lparr>pc_state_file := path\<rparr>)) (True, fe, sample_disk) =
      (Inr (nc, sample_world (the (sample_recorded (Some l0))) (fe, sample_disk)), (True, fe, sample_disk))" "nc_source nc = None"
proof -
  let ?c = "sdk_config (sample_cmd\<lparr>pc_state_file := path\<rparr>)"
  have c: "nx_gateway_url ?c = sample_origin" "nx_trust_policy_file ?c = ''policy.json''" "nx_trust_policy_json ?c = []"
    "nx_attestation_timeout ?c = defaultRequestTimeout" "nx_updates ?c = None" "\<not> nx_disable_ui ?c"
    "\<not> nx_disable_catalog ?c"
    by (simp_all add: sdk_config_def sample_cmd_def)
  have "trim_space ''policy.json'' = ''policy.json''" by code_simp
  then have v: "validateConfig ?c = Inr (sample_origin, defaultRequestTimeout)"
    using sample_url(1) by (simp add: validateConfig_def policy_sources_def c defaultRequestTimeout_def duration_units)
  have "ReadAllLimited [(sample_policy_json, None)] maxPolicyBytes = Inr sample_policy_json"
    using sample_policy_length by (subst ReadAllLimited_iff) (simp_all add: maxPolicyBytes_def)
  then have "loadStaticPolicy sample_disk ?c = Inr sample_policy"
    using sample_policy_parses by (simp add: loadStaticPolicy_def c LoadPolicy_def fs_open_def sample_disk_def)
  then have p: "initial_policy sample_env ?c (True, fe, sample_disk) = (Inr (None :: unit file_source option, sample_policy), (True, fe, sample_disk))"
    by (simp add: initial_policy_def c)
  note s = sample_start_recorded [OF assms]
  show ?thesis
    by (rule that [of "\<lparr>nc_gateway_url = sample_origin, nc_timeout = defaultRequestTimeout, nc_source = None,
        nc_catalog = Some \<lparr>cat_endpoint = sample_origin @ ModelsEndpoint, cat_wire = rejecting_client\<rparr>,
        nc_verification_ui = True, nc_refresh_interval = None\<rparr>"])
       (simp_all add: New_def v p s initial_catalog_def c sample_catalog)
qed

lemma sample_cmd_new:
  obtains nc l where "New sample_env (sdk_config sample_cmd) (True, fe, sample_disk) =
      (Inr (nc, sample_world l (fe, sample_disk)), (True, fe, sample_disk))"
proof -
  have c: "sample_cmd\<lparr>pc_state_file := []\<rparr> = sample_cmd" by (simp add: sample_cmd_def)
  have l: "initial_ledger (sdk_config (sample_cmd\<lparr>pc_state_file := []\<rparr>)) (True, fe, sample_disk) = Inr NewLedger"
    by (simp add: initial_ledger_def sdk_config_def)
  show ?thesis by (rule sample_cmd_new_recorded [OF l, unfolded c]) (rule that)
qed

definition sample_state_cmd :: proxy_config where
  "sample_state_cmd = sample_cmd\<lparr>pc_state_file := ''state''\<rparr>"

lemma sample_state_cmd_new:
  obtains nc where "New sample_env (sdk_config sample_state_cmd) (True, good_disk, sample_disk) =
      (Inr (nc, sample_world sample_first_ledger (good_disk, sample_disk)), (True, good_disk, sample_disk))"
proof -
  have "initial_ledger (sdk_config (sample_cmd\<lparr>pc_state_file := ''state''\<rparr>)) (True, good_disk, sample_disk) =
      Inr (NewLedger\<lparr>l_store := Some \<lparr>st_path = ''state'', st_dirty = False\<rparr>\<rparr>)"
    by (simp add: initial_ledger_def sdk_config_def OpenLedger_def good_disk_def os_read_file_def loadFrom_def sample_disk_def)
  from sample_cmd_new_recorded [OF this] that show ?thesis
    unfolding sample_state_cmd_def sample_first_ledger_def by blast
qed



section \<open>Properties\<close>




text \<open>
  What is not excluded: a process can end with success, with its \<open>Close\<close> returning no error and nothing marked for
  writing, while the flush of its ticker still has the only copy of the history in its hand; the exit stops it, and
  there is no state file.
\<close>

theorem exit_can_lose_history:
  "\<exists>nc w0 x. New sample_env (sdk_config sample_state_cmd) (True, good_disk, sample_disk) = (Inr (nc, w0), (True, good_disk, sample_disk)) \<and>
     (proxy_step sample_env nc ''state'')\<^sup>*\<^sup>* (proxy_start sample_state_cmd w0) x \<and> px_phase x = Exited 0 None \<and>
     cs_ledger (sw_state (px_world x)) = Some (clear_dirty sample_first_ledger) \<and> snd (snd (sw_base (px_world x))) ''state'' = None"
proof -
  obtain nc where n: "New sample_env (sdk_config sample_state_cmd) (True, good_disk, sample_disk) =
      (Inr (nc, sample_world sample_first_ledger (good_disk, sample_disk)), (True, good_disk, sample_disk))"
    by (rule sample_state_cmd_new)
  let ?w = "sample_world sample_first_ledger (good_disk, sample_disk)"
  let ?w1 = "put_ledger (clear_dirty sample_first_ledger) ?w"
  have b: "begin_flush ?w = Some ?w1"
    using sample_first_ledger_storable(1) by (simp add: begin_flush_def sample_world_def)
  have c: "begin_flush ?w1 = None" using sample_first_ledger_storable(1) by (simp add: begin_flush_def clear_dirty_def)
  let ?x = "proxy_start sample_state_cmd ?w" and ?step = "proxy_step sample_env nc ''state''"
  let ?x1 = "?x\<lparr>px_flushes := [ticker_thread \<mapsto> Cleared], px_world := ?w1\<rparr>"
  let ?x2 = "?x1\<lparr>px_stop := True, px_phase := ShuttingDown\<rparr>"
  let ?x3 = "?x2\<lparr>px_phase := Awaiting\<rparr>"
  let ?x4 = "?x3\<lparr>px_server := Some (Some (Sent ServerClosed))\<rparr>"
  let ?x5 = "?x4\<lparr>px_phase := Exiting 0\<rparr>"
  let ?x6 = "?x5\<lparr>px_phase := Exited 0 None\<rparr>"
  have "px_ticker ?x" by (simp add: proxy_start_def sample_state_cmd_def)
  then have "?step ?x ?x1" using proxy_step.tick [of ?x ?w1 sample_env nc "''state''"] b by (simp add: proxy_start_def)
  moreover have "?step ?x1 ?x2"
    using proxy_step.signalled [of ?x1 sample_env nc "''state''"] c by (simp add: proxy_start_def main_flush_def)
  moreover have "?step ?x2 ?x3"
    using proxy_step.shut_down [of ?x2 sample_env nc "''state''" None] by (simp add: proxy_start_def after_shutdown_def)
  moreover have "?step ?x3 ?x4"
    using proxy_step.serve_returns [of ?x3 sample_env nc "''state''" "Some (Sent ServerClosed)"] by (simp add: proxy_start_def)
  moreover have "?step ?x4 ?x5"
    using proxy_step.awaited [of ?x4 "Some (Sent ServerClosed)" sample_env nc "''state''"] by (simp add: proxy_start_def serve_status_def)
  moreover have "?step ?x5 ?x6"
    using proxy_step.closing [of ?x5 0 sample_env nc "''state''"] c by (simp add: proxy_start_def main_flush_def)
  ultimately have "?step\<^sup>*\<^sup>* ?x ?x6" by (meson rtranclp.rtrancl_into_rtrancl rtranclp.rtrancl_refl)
  moreover have "snd (snd (sw_base (px_world ?x6))) ''state'' = None" by (simp add: sample_world_def sample_disk_def)
  moreover have "px_phase ?x6 = Exited 0 None" "cs_ledger (sw_state (px_world ?x6)) = Some (clear_dirty sample_first_ledger)" by simp_all
  ultimately show ?thesis using n by blast
qed

end
