(* ===== verification/InProcess.thy ===== *)
theory InProcess
  imports Nexus
begin

text \<open>
  The response writer of the in-process transport (\<open>inProcessResponseWriter\<close> in client.go): the
  handler writes into a pipe whose other end is the body of the response. It implements the response
  writer the handler is modelled with, and the response it gives is the one \<open>RoundTrip\<close> returns. Also the
  request that \<open>ChatCompletions\<close> makes of its arguments.
\<close>

section \<open>The writer\<close>

text \<open>
  \<open>iw_written\<close> is what went into the pipe, \<open>iw_closed\<close> how it was closed, \<open>iw_faults\<close> what the
  reading side does to the next writes. The channel \<open>ready\<close> and the two \<open>Once\<close> values are the
  booleans they encode.
\<close>

record inproc_writer =
  iw_header :: header
  iw_response_header :: header
  iw_status :: int
  iw_terminal_err :: "error option"
  iw_ready :: bool
  iw_written :: bytes
  iw_closed :: "error option option"
  iw_faults :: "(nat \<times> error) option list"

definition newInProcessResponseWriter :: inproc_writer where
  "newInProcessResponseWriter = \<lparr>iw_header = [], iw_response_header = [], iw_status = 0, iw_terminal_err = None,
     iw_ready = False, iw_written = [], iw_closed = None, iw_faults = []\<rparr>"

definition iw_WriteHeader :: "int \<Rightarrow> inproc_writer \<Rightarrow> inproc_writer" where
  "iw_WriteHeader status iw =
     (if iw_ready iw then iw
      else iw\<lparr>iw_status := status, iw_response_header := iw_header iw, iw_ready := True\<rparr>)"

definition iw_Write :: "bytes \<Rightarrow> inproc_writer \<Rightarrow> error option \<times> inproc_writer" where
  "iw_Write data iw0 = (let iw = iw_WriteHeader 200 iw0 in case iw_faults iw of
     Some (n, e) # fs \<Rightarrow> (Some e, iw\<lparr>iw_written := iw_written iw @ take n data, iw_faults := fs\<rparr>)
   | _ \<Rightarrow> (None, iw\<lparr>iw_written := iw_written iw @ data, iw_faults := tl (iw_faults iw)\<rparr>))"

definition iw_Flush :: "inproc_writer \<Rightarrow> inproc_writer" where
  "iw_Flush iw = iw_WriteHeader 200 iw"

definition iw_finish :: "error option \<Rightarrow> inproc_writer \<Rightarrow> inproc_writer" where
  "iw_finish err iw =
     (if iw_closed iw \<noteq> None then iw
      else (case err of
        Some e \<Rightarrow> (if iw_ready iw then iw else iw\<lparr>iw_terminal_err := Some e, iw_ready := True\<rparr>)\<lparr>iw_closed := Some (Some e)\<rparr>
      | None \<Rightarrow> (iw_WriteHeader 200 iw)\<lparr>iw_closed := Some None\<rparr>))"

text \<open>What \<open>RoundTrip\<close> makes of a finished writer whose caller does not cancel and reads the whole body.\<close>

definition iw_response :: "inproc_writer \<Rightarrow> http_response result" where
  "iw_response iw = (case iw_terminal_err iw of
     Some e \<Rightarrow> Inl e
   | None \<Rightarrow>
      (if iw_status iw = 0 then Inl (Msg ''embedded Nexus handler returned no status'')
       else Inr \<lparr>resp_status = iw_status iw, resp_header = iw_response_header iw,
              resp_body = [(iw_written iw, case iw_closed iw of None \<Rightarrow> None | Some e \<Rightarrow> e)]\<rparr>))"

section \<open>Chat completions of an embedding program\<close>

text \<open>The request that \<open>ChatCompletions\<close> hands to the handler.\<close>

definition embedded_chat :: "string \<Rightarrow> bytes \<Rightarrow> local_request" where
  "embedded_chat apiKey body = \<lparr>lr_method = ''POST'', lr_path = LocalChatEndpoint, lr_raw_query = [],
     lr_header = header_set (header_set (header_set [] ''Authorization'' (''Bearer '' @ apiKey)) ''Content-Type'' ''application/json'')
       ''Accept'' ''application/json'', lr_body = [(body, None)], lr_gone = False\<rparr>"

lemma in_process_chat_url:
  "case ParseRequestURI (InProcessBaseURL @ ''/chat/completions'') of Inl e \<Rightarrow> False
   | Inr u \<Rightarrow> url_scheme u = ''http'' \<and> url_host u = ''nexus.local'' \<and> url_path u = LocalChatEndpoint \<and> url_raw_query u = []"
  by code_simp

lemma embedded_chat_header:
  "header_get (lr_header (embedded_chat key body)) ''Authorization'' = ''Bearer '' @ key"
  "header_get (lr_header (embedded_chat key body)) ''Content-Type'' = ''application/json''"
  "header_get (lr_header (embedded_chat key body)) ''Accept'' = ''application/json''"
  "header_get (lr_header (embedded_chat key body)) ''User-Agent'' = []"
proof -
  have "canonical_key ''Authorization'' = ''Authorization''" "canonical_key ''Content-Type'' = ''Content-Type''"
    "canonical_key ''Accept'' = ''Accept''" "canonical_key ''User-Agent'' = ''User-Agent''" "header_get [] ''User-Agent'' = []"
    by code_simp+
  then show "header_get (lr_header (embedded_chat key body)) ''Authorization'' = ''Bearer '' @ key"
    "header_get (lr_header (embedded_chat key body)) ''Content-Type'' = ''application/json''"
    "header_get (lr_header (embedded_chat key body)) ''Accept'' = ''application/json''"
    "header_get (lr_header (embedded_chat key body)) ''User-Agent'' = []"
    by (simp_all add: embedded_chat_def header_get_set)
qed

lemma ChatCompletions_handled:
  assumes "trim_space key \<noteq> []" "trim_space body \<noteq> []" "json_valid body"
  obtains rw en w' where "sdk_serve env nc (embedded_chat key body) pipe_writer w = (rw, en, w')"
    "ChatCompletions env (Some nc) True key body w = (pipe_response rw en, w')"
proof -
  obtain rw en w' where s: "sdk_serve env nc (embedded_chat key body) pipe_writer w = (rw, en, w')" by (metis surj_pair)
  obtain u where u: "ParseRequestURI (InProcessBaseURL @ ''/chat/completions'') = Inr u" "url_scheme u = ''http''"
    "url_host u = ''nexus.local''" "url_path u = LocalChatEndpoint" "url_raw_query u = []"
    using in_process_chat_url by (auto split: sum.splits)
  have "ChatCompletions env (Some nc) True key body w = (pipe_response rw en, w')"
    using assms s u by (simp add: ChatCompletions_def in_process_do_def HTTPClient_def Handler_def handlerTransport_def
        http_do_def client_do_def numeral_eq_Suc embedded_chat_def Let_def split: sum.split)
  with s show ?thesis by (rule that)
qed

section \<open>The refinement\<close>

text \<open>The calls a handler makes on its response writer.\<close>

datatype writer_op = SetHeader string string | WriteHeader int | WriteData bytes | FlushData

fun iw_op :: "writer_op \<Rightarrow> inproc_writer \<Rightarrow> inproc_writer" where
  "iw_op (SetHeader k v) iw = iw\<lparr>iw_header := header_set (iw_header iw) k v\<rparr>"
| "iw_op (WriteHeader s) iw = iw_WriteHeader s iw"
| "iw_op (WriteData d) iw = snd (iw_Write d iw)"
| "iw_op FlushData iw = iw_Flush iw"

fun rw_op :: "writer_op \<Rightarrow> response_writer \<Rightarrow> response_writer" where
  "rw_op (SetHeader k v) rw = rw_set k v rw"
| "rw_op (WriteHeader s) rw = rw_write_header s rw"
| "rw_op (WriteData d) rw = snd (rw_write d rw)"
| "rw_op FlushData rw = rw_flush rw"

text \<open>A handler that flushes only after it has sent a header or data, and sends no status 0.\<close>

fun flush_after_header :: "writer_op list \<Rightarrow> bool" where
  "flush_after_header [] = True"
| "flush_after_header (FlushData # ops) = False"
| "flush_after_header (SetHeader k v # ops) = flush_after_header ops"
| "flush_after_header (op # ops) = True"

definition no_zero_status :: "writer_op list \<Rightarrow> bool" where
  "no_zero_status = list_all (\<lambda>op. op \<noteq> WriteHeader 0)"

text \<open>The concrete writer in the middle of a run represents the abstract one.\<close>

definition represents_writer :: "inproc_writer \<Rightarrow> response_writer \<Rightarrow> bool" where
  "represents_writer iw rw \<longleftrightarrow> rw_header rw = iw_header iw \<and> rw_body rw = iw_written iw \<and> rw_faults rw = iw_faults iw \<and>
     iw_terminal_err iw = None \<and> iw_closed iw = None \<and> (iw_ready iw \<longrightarrow> iw_status iw \<noteq> 0) \<and>
     rw_sent rw = (if iw_ready iw then Some (iw_status iw, iw_response_header iw) else None)"

lemma writer_represents_new: "represents_writer newInProcessResponseWriter pipe_writer"
  by (simp add: represents_writer_def newInProcessResponseWriter_def pipe_writer_def)

lemma represents_write_header:
  "represents_writer iw rw \<Longrightarrow> s \<noteq> 0 \<Longrightarrow> represents_writer (iw_WriteHeader s iw) (rw_write_header s rw)"
  by (auto simp: represents_writer_def iw_WriteHeader_def rw_write_header_def)

lemma represents_write:
  assumes "represents_writer iw rw"
  shows "fst (iw_Write d iw) = fst (rw_write d rw)" "represents_writer (snd (iw_Write d iw)) (snd (rw_write d rw))"
proof -
  have "represents_writer (iw_WriteHeader 200 iw) (rw_write_header 200 rw)" by (rule represents_write_header [OF assms]) simp
  then show "fst (iw_Write d iw) = fst (rw_write d rw)" "represents_writer (snd (iw_Write d iw)) (snd (rw_write d rw))"
    by (auto simp: represents_writer_def iw_Write_def rw_write_def Let_def split: list.splits option.splits)
qed

lemma represents_op:
  assumes "represents_writer iw rw" "op \<noteq> WriteHeader 0" "op = FlushData \<Longrightarrow> iw_ready iw"
  shows "represents_writer (iw_op op iw) (rw_op op rw)"
  using assms
proof (cases op)
  case FlushData
  with assms show ?thesis by (auto simp: represents_writer_def iw_Flush_def iw_WriteHeader_def rw_flush_def)
qed (auto simp: represents_write represents_write_header, simp add: represents_writer_def rw_set_def)

lemma iw_Write_ready: "iw_ready (snd (iw_Write d iw))"
  by (auto simp: iw_Write_def iw_WriteHeader_def Let_def split: list.splits option.splits)

lemma iw_op_ready: "iw_ready iw \<Longrightarrow> iw_ready (iw_op op iw)"
  by (cases op) (auto simp: iw_WriteHeader_def iw_Write_ready iw_Flush_def)

lemma represents_ops:
  assumes "represents_writer iw rw" "no_zero_status ops" "iw_ready iw \<or> flush_after_header ops"
  shows "represents_writer (fold iw_op ops iw) (fold rw_op ops rw)"
  using assms
proof (induction ops arbitrary: iw rw)
  case (Cons op ops)
  have "represents_writer (iw_op op iw) (rw_op op rw)"
    using Cons.prems by (intro represents_op) (auto simp: no_zero_status_def)
  moreover have "iw_ready (iw_op op iw) \<or> flush_after_header ops"
    using Cons.prems(3) iw_op_ready by (cases op) (auto simp: iw_WriteHeader_def iw_Write_ready iw_Flush_def)
  ultimately show ?case using Cons by (simp add: no_zero_status_def)
qed simp

text \<open>How the handler's goroutine ends: a return, or a panic with \<open>http.ErrAbortHandler\<close>.\<close>

fun end_error :: "serve_end \<Rightarrow> error option" where
  "end_error Returned = None"
| "end_error Aborted = Some (Sent UnexpectedEOF)"

lemma represents_writer_response:
  "represents_writer iw rw \<Longrightarrow> iw_response (iw_finish (end_error en) iw) = pipe_response rw en"
  by (cases en) (auto simp: represents_writer_def iw_finish_def iw_WriteHeader_def iw_response_def pipe_response_def)

section \<open>Properties\<close>

text \<open>The in-process response writer implements the response writer the handler is written against: for every
  sequence of calls that flushes only after a header and sends no status 0, and whether the handler returns or
  aborts, the response the caller gets is the one of the transport's model.\<close>

theorem in_process_writer_refines:
  assumes "flush_after_header ops" "no_zero_status ops"
  shows "iw_response (iw_finish (end_error en) (fold iw_op ops newInProcessResponseWriter)) =
    pipe_response (fold rw_op ops pipe_writer) en"
  by (rule represents_writer_response [OF represents_ops [OF writer_represents_new]]) (use assms in simp_all)

theorem in_process_writer_refines_witness:
  "iw_response (iw_finish (Some (Sent UnexpectedEOF))
     (fold iw_op [SetHeader ''Content-Type'' ''text/event-stream'', WriteHeader 200, FlushData, WriteData ''data: x''] newInProcessResponseWriter)) =
   Inr \<lparr>resp_status = 200, resp_header = header_set [] ''Content-Type'' ''text/event-stream'',
     resp_body = [(''data: x'', Some (Sent UnexpectedEOF))]\<rparr>"
proof -
  let ?ops = "[SetHeader ''Content-Type'' ''text/event-stream'', WriteHeader 200, FlushData, WriteData ''data: x'']"
  have "flush_after_header ?ops" "no_zero_status ?ops" by (simp_all add: no_zero_status_def)
  from in_process_writer_refines [OF this, of Aborted] show ?thesis
    by (simp add: pipe_response_def pipe_writer_def rw_set_def rw_write_header_def rw_flush_def rw_write_def)
qed

end
