(* ===== verification/InProcessConc.thy ===== *)
theory InProcessConc
  imports InProcess
begin

text \<open>
  The goroutines of the in-process transport (\<open>handlerTransport.RoundTrip\<close> in client.go): the handler, the
  caller that waits for the header and then reads the body, and the cancellation of the request's context,
  as the interleavings of a step relation. \<open>io.Pipe\<close> is synchronous: a write is handed over to reads, in
  pieces, and returns \<open>io.ErrClosedPipe\<close> once either end is closed.
\<close>

section \<open>The state of one round trip\<close>

text \<open>
  A handler is a program of calls on its writer that sees the error each write returned, may look whether
  the request has been cancelled, and ends with a return (\<open>None\<close>) or a panic (the error \<open>RoundTrip\<close> makes
  of it).
\<close>

datatype handler_prog =
    Ends "error option"
  | Calls writer_op "error option \<Rightarrow> handler_prog"
  | Looks "bool \<Rightarrow> handler_prog"

datatype caller = Waiting | Holding int header | Failed error

text \<open>
  \<open>tt_prog\<close> is what is left of the handler (\<open>None\<close> once its goroutine has ended), \<open>tt_writing\<close> tells that
  its first call is a write inside the pipe, \<open>tt_gone\<close> that the reader has been closed, \<open>tt_read\<close> and
  \<open>tt_end\<close> what the caller has read of the body.
\<close>

record transport_state =
  tt_writer :: inproc_writer
  tt_prog :: "handler_prog option"
  tt_writing :: bool
  tt_cancelled :: "error option"
  tt_caller :: caller
  tt_gone :: bool
  tt_read :: bytes
  tt_end :: "error option option"

definition start_transport :: "handler_prog \<Rightarrow> transport_state" where
  "start_transport p = \<lparr>tt_writer = newInProcessResponseWriter, tt_prog = Some p, tt_writing = False, tt_cancelled = None,
     tt_caller = Waiting, tt_gone = False, tt_read = [], tt_end = None\<rparr>"

definition ErrClosedPipe :: error where "ErrClosedPipe = Msg ''io: read/write on closed pipe''"

definition pipe_done :: "transport_state \<Rightarrow> bool" where
  "pipe_done s \<longleftrightarrow> tt_gone s \<or> iw_closed (tt_writer s) \<noteq> None"

section \<open>Steps\<close>

text \<open>What the caller does when the header is ready.\<close>

definition take_response :: "transport_state \<Rightarrow> transport_state" where
  "take_response s = (case tt_cancelled s of
     Some e \<Rightarrow> s\<lparr>tt_caller := Failed e, tt_gone := True\<rparr>
   | None \<Rightarrow> (case iw_terminal_err (tt_writer s) of
       Some e \<Rightarrow> s\<lparr>tt_caller := Failed e, tt_gone := True\<rparr>
     | None \<Rightarrow>
         (if iw_status (tt_writer s) = 0
          then s\<lparr>tt_caller := Failed (Msg ''embedded Nexus handler returned no status''), tt_gone := True\<rparr>
          else s\<lparr>tt_caller := Holding (iw_status (tt_writer s)) (iw_response_header (tt_writer s))\<rparr>)))"

text \<open>
  The pipe takes a piece of the write: the first \<open>n\<close> bytes. The write returns when nothing is left of it.
\<close>

definition hand_over :: "nat \<Rightarrow> bytes \<Rightarrow> (error option \<Rightarrow> handler_prog) \<Rightarrow> transport_state \<Rightarrow> transport_state" where
  "hand_over n d k s = s\<lparr>tt_writer := (tt_writer s)\<lparr>iw_written := iw_written (tt_writer s) @ take n d\<rparr>,
     tt_read := tt_read s @ take n d,
     tt_writing := drop n d \<noteq> [],
     tt_prog := Some (if drop n d = [] then k None else Calls (WriteData (drop n d)) k)\<rparr>"

inductive transport_step :: "transport_state \<Rightarrow> transport_state \<Rightarrow> bool" where
  called: "tt_prog s = Some (Calls op k) \<Longrightarrow> \<forall>d. op \<noteq> WriteData d \<Longrightarrow>
     transport_step s (s\<lparr>tt_writer := iw_op op (tt_writer s), tt_prog := Some (k None)\<rparr>)"
| looked: "tt_prog s = Some (Looks f) \<Longrightarrow> transport_step s (s\<lparr>tt_prog := Some (f (tt_cancelled s \<noteq> None))\<rparr>)"
| writing: "tt_prog s = Some (Calls (WriteData d) k) \<Longrightarrow> \<not> tt_writing s \<Longrightarrow>
     transport_step s (s\<lparr>tt_writer := iw_WriteHeader 200 (tt_writer s), tt_writing := True\<rparr>)"
| delivered: "tt_prog s = Some (Calls (WriteData d) k) \<Longrightarrow> tt_writing s \<Longrightarrow> \<not> pipe_done s \<Longrightarrow> tt_caller s = Holding status hdr \<Longrightarrow>
     0 < n \<Longrightarrow> transport_step s (hand_over n d k s)"
| broken: "tt_prog s = Some (Calls (WriteData d) k) \<Longrightarrow> tt_writing s \<Longrightarrow> pipe_done s \<Longrightarrow>
     transport_step s (s\<lparr>tt_writing := False, tt_prog := Some (k (Some ErrClosedPipe))\<rparr>)"
| ended: "tt_prog s = Some (Ends e) \<Longrightarrow> transport_step s (s\<lparr>tt_writer := iw_finish e (tt_writer s), tt_prog := None\<rparr>)"
| answered: "tt_caller s = Waiting \<Longrightarrow> iw_ready (tt_writer s) \<Longrightarrow> transport_step s (take_response s)"
| given_up: "tt_caller s = Waiting \<Longrightarrow> tt_cancelled s = Some e \<Longrightarrow>
     transport_step s (s\<lparr>tt_writer := iw_finish (Some e) (tt_writer s), tt_caller := Failed e, tt_gone := True\<rparr>)"
| read_end: "tt_caller s = Holding status hdr \<Longrightarrow> \<not> tt_gone s \<Longrightarrow> iw_closed (tt_writer s) = Some e \<Longrightarrow> tt_end s = None \<Longrightarrow>
     transport_step s (s\<lparr>tt_end := Some e\<rparr>)"

text \<open>What nobody has to do: cancel the request, or close the body before its end.\<close>

inductive transport_event :: "transport_state \<Rightarrow> transport_state \<Rightarrow> bool" where
  cancel: "tt_cancelled s = None \<Longrightarrow> transport_event s (s\<lparr>tt_cancelled := Some e\<rparr>)"
| close_body: "tt_caller s = Holding status hdr \<Longrightarrow> \<not> tt_gone s \<Longrightarrow> transport_event s (s\<lparr>tt_gone := True\<rparr>)"

definition transport_run :: "transport_state \<Rightarrow> transport_state \<Rightarrow> bool" where
  "transport_run s s' \<longleftrightarrow> transport_step s s' \<or> transport_event s s'"

inductive_cases transport_stepE: "transport_step s s'"
inductive_cases transport_eventE: "transport_event s s'"

lemmas transport_runE = transport_run_def [THEN iffD1, elim_format]

section \<open>The run without a cancellation\<close>

primrec run_prog :: "handler_prog \<Rightarrow> inproc_writer \<Rightarrow> inproc_writer" where
  "run_prog (Ends e) iw = iw_finish e iw"
| "run_prog (Calls op k) iw = run_prog (k None) (iw_op op iw)"
| "run_prog (Looks f) iw = run_prog (f False) iw"

text \<open>The calls of that run, and how it ends.\<close>

primrec prog_ops :: "handler_prog \<Rightarrow> writer_op list" where
  "prog_ops (Ends e) = []"
| "prog_ops (Calls op k) = op # prog_ops (k None)"
| "prog_ops (Looks f) = prog_ops (f False)"

primrec prog_end :: "handler_prog \<Rightarrow> error option" where
  "prog_end (Ends e) = e"
| "prog_end (Calls op k) = prog_end (k None)"
| "prog_end (Looks f) = prog_end (f False)"

lemma run_prog_ops: "run_prog p iw = iw_finish (prog_end p) (fold iw_op (prog_ops p) iw)"
  by (induction p arbitrary: iw) simp_all

text \<open>What the writer has once the header is sent is what it has in the end.\<close>

definition sent_as :: "inproc_writer \<Rightarrow> inproc_writer \<Rightarrow> bool" where
  "sent_as iw iw' \<longleftrightarrow> iw_ready iw' \<and> iw_status iw' = iw_status iw \<and> iw_response_header iw' = iw_response_header iw \<and>
     iw_terminal_err iw' = iw_terminal_err iw"

lemma sent_as_op: "iw_ready iw \<Longrightarrow> sent_as iw (iw_op op iw)"
  by (cases op) (auto simp: sent_as_def iw_WriteHeader_def iw_Write_def iw_Flush_def Let_def split: list.splits option.splits)

lemma sent_as_finish: "iw_ready iw \<Longrightarrow> sent_as iw (iw_finish e iw)"
  by (auto simp: sent_as_def iw_finish_def iw_WriteHeader_def split: option.splits)

lemma sent_as_run: "iw_ready iw \<Longrightarrow> sent_as iw (run_prog p iw)"
proof (induction p arbitrary: iw)
  case (Calls op k)
  have r: "sent_as iw (iw_op op iw)" by (rule sent_as_op [OF Calls.prems])
  then have "sent_as (iw_op op iw) (run_prog (k None) (iw_op op iw))"
    using Calls.IH [of "k None" "iw_op op iw"] by (simp add: sent_as_def)
  with r show ?case by (simp add: sent_as_def)
qed (simp_all add: sent_as_finish)

text \<open>A write inside the pipe is the rest of its data to the writer.\<close>

lemma iw_op_write:
  "iw_faults iw = [] \<Longrightarrow> iw_ready iw \<Longrightarrow> iw_op (WriteData d) iw = iw\<lparr>iw_written := iw_written iw @ d\<rparr>"
  by (cases iw) (simp add: iw_Write_def iw_WriteHeader_def)

lemma iw_op_write_header: "iw_op (WriteData d) (iw_WriteHeader 200 iw) = iw_op (WriteData d) iw"
  by (simp add: iw_Write_def iw_WriteHeader_def Let_def)

lemma iw_op_faults: "iw_faults iw = [] \<Longrightarrow> iw_faults (iw_op op iw) = []"
  by (cases op) (auto simp: iw_WriteHeader_def iw_Write_def iw_Flush_def Let_def)

lemma iw_op_open: "iw_closed (iw_op op iw) = iw_closed iw" "iw_terminal_err (iw_op op iw) = iw_terminal_err iw"
  by (cases op; auto simp: iw_WriteHeader_def iw_Write_def iw_Flush_def Let_def split: list.splits option.splits)+

lemma iw_op_written: "\<forall>d. op \<noteq> WriteData d \<Longrightarrow> iw_written (iw_op op iw) = iw_written iw"
  by (cases op) (auto simp: iw_WriteHeader_def iw_Flush_def)

lemma iw_WriteHeader_simps [simp]:
  "iw_ready (iw_WriteHeader s iw)" "iw_closed (iw_WriteHeader s iw) = iw_closed iw" "iw_faults (iw_WriteHeader s iw) = iw_faults iw"
  "iw_terminal_err (iw_WriteHeader s iw) = iw_terminal_err iw" "iw_written (iw_WriteHeader s iw) = iw_written iw"
  by (simp_all add: iw_WriteHeader_def)

lemma iw_finish_simps [simp]:
  "iw_closed (iw_finish e iw) = (if iw_closed iw = None then Some e else iw_closed iw)"
  "iw_faults (iw_finish e iw) = iw_faults iw" "iw_written (iw_finish e iw) = iw_written iw"
  "iw_closed iw = None \<Longrightarrow> iw_ready (iw_finish e iw)" "iw_ready iw \<Longrightarrow> iw_ready (iw_finish e iw)"
  by (auto simp: iw_finish_def split: option.splits)

lemma run_prog_written: "iw_faults iw = [] \<Longrightarrow> \<exists>rest. iw_written (run_prog p iw) = iw_written iw @ rest"
proof (induction p arbitrary: iw)
  case (Calls op k)
  have "\<exists>rest. iw_written (run_prog (k None) (iw_op op iw)) = iw_written (iw_op op iw) @ rest"
    using Calls.IH iw_op_faults [OF Calls.prems] by blast
  moreover have "\<exists>rest. iw_written (iw_op op iw) = iw_written iw @ rest"
    using Calls.prems iw_op_written [of op iw] by (cases op) (auto simp: iw_Write_def Let_def)
  ultimately show ?case by auto
qed auto

section \<open>Invariants\<close>

text \<open>The shape of the state: who may be waiting for what.\<close>

definition transport_wf :: "transport_state \<Rightarrow> bool" where
  "transport_wf s \<longleftrightarrow> iw_faults (tt_writer s) = [] \<and>
     (tt_writing s \<longrightarrow> iw_ready (tt_writer s) \<and> (\<exists>d k. tt_prog s = Some (Calls (WriteData d) k))) \<and>
     (tt_prog s = None \<longrightarrow> iw_closed (tt_writer s) \<noteq> None) \<and>
     (iw_closed (tt_writer s) \<noteq> None \<longrightarrow> iw_ready (tt_writer s) \<and> (tt_prog s = None \<or> tt_gone s)) \<and>
     ((\<exists>e. tt_caller s = Failed e) \<longrightarrow> tt_gone s) \<and> (tt_caller s = Waiting \<longrightarrow> \<not> tt_gone s \<and> tt_end s = None) \<and>
     (\<forall>e. tt_end s = Some e \<longrightarrow> iw_closed (tt_writer s) = Some e)"

lemma transport_wf_start: "transport_wf (start_transport p)"
  by (simp add: transport_wf_def start_transport_def newInProcessResponseWriter_def)

lemma take_response_simps [simp]:
  "tt_writer (take_response s) = tt_writer s" "tt_prog (take_response s) = tt_prog s" "tt_writing (take_response s) = tt_writing s"
  "tt_read (take_response s) = tt_read s" "tt_end (take_response s) = tt_end s" "tt_cancelled (take_response s) = tt_cancelled s"
  by (auto simp: take_response_def split: option.split)

lemma take_response_caller: "tt_caller (take_response s) \<noteq> Waiting" "tt_gone s \<Longrightarrow> tt_gone (take_response s)"
  by (auto simp: take_response_def split: option.split)

lemma hand_over_simps [simp]:
  "tt_caller (hand_over n d k s) = tt_caller s" "tt_cancelled (hand_over n d k s) = tt_cancelled s"
  "tt_gone (hand_over n d k s) = tt_gone s" "tt_end (hand_over n d k s) = tt_end s"
  by (simp_all add: hand_over_def)

lemma transport_step_wf:
  assumes "transport_step s s'" "transport_wf s"
  shows "transport_wf s'"
  using assms
proof (cases rule: transport_step.cases)
  case (called op k)
  then show ?thesis using assms(2) iw_op_faults [of "tt_writer s" op] iw_op_ready [of "tt_writer s" op]
    by (auto simp: transport_wf_def iw_op_open)
next
  case (answered)
  then show ?thesis using assms(2) by (auto simp: transport_wf_def take_response_def split: option.splits)
qed (auto simp: transport_wf_def hand_over_def pipe_done_def)

lemma transport_event_wf:
  assumes "transport_event s s'" "transport_wf s"
  shows "transport_wf s'"
  using assms(1)
proof (cases rule: transport_event.cases)
  case (cancel e)
  with assms(2) show ?thesis unfolding cancel(1) transport_wf_def by simp
next
  case (close_body status hdr)
  with assms(2) show ?thesis unfolding close_body(1) transport_wf_def by simp
qed

text \<open>
  Without a cancellation and with an open body, the run so far continues to \<open>final\<close>, the writer of the run in
  which every write succeeds; what the caller has been told is part of it.
\<close>

definition on_course :: "inproc_writer \<Rightarrow> transport_state \<Rightarrow> bool" where
  "on_course final s \<longleftrightarrow> tt_read s = iw_written (tt_writer s) \<and>
     (case tt_prog s of None \<Rightarrow> tt_writer s = final
      | Some q \<Rightarrow> run_prog q (tt_writer s) = final \<and> iw_terminal_err (tt_writer s) = None)"

definition transport_inv :: "inproc_writer \<Rightarrow> transport_state \<Rightarrow> bool" where
  "transport_inv final s \<longleftrightarrow>
     (\<forall>e. tt_caller s = Failed e \<longrightarrow> tt_cancelled s = Some e \<or> iw_response final = Inl e) \<and>
     (tt_cancelled s = None \<longrightarrow>
        (\<not> tt_gone s \<longrightarrow> on_course final s) \<and>
        (\<forall>status hdr. tt_caller s = Holding status hdr \<longrightarrow> status \<noteq> 0 \<and> iw_status final = status \<and>
           iw_response_header final = hdr \<and> iw_terminal_err final = None \<and> (\<exists>rest. iw_written final = tt_read s @ rest)) \<and>
        (\<forall>e. tt_end s = Some e \<longrightarrow> tt_read s = iw_written final \<and> iw_closed final = Some e))"

lemma transport_inv_start: "transport_inv (run_prog p newInProcessResponseWriter) (start_transport p)"
  by (simp add: transport_inv_def on_course_def start_transport_def newInProcessResponseWriter_def)

lemma on_course_final:
  assumes "on_course final s" "iw_ready (tt_writer s)" "transport_wf s"
  shows "iw_status final = iw_status (tt_writer s)" "iw_response_header final = iw_response_header (tt_writer s)"
    "iw_terminal_err final = iw_terminal_err (tt_writer s)" "\<exists>rest. iw_written final = tt_read s @ rest"
  using assms sent_as_run [of "tt_writer s"] run_prog_written [of "tt_writer s"]
  by (auto simp: on_course_def sent_as_def transport_wf_def split: option.splits)

lemma on_course_delivered:
  assumes "on_course final s" "transport_wf s" "tt_prog s = Some (Calls (WriteData d) k)" "tt_writing s"
  shows "on_course final (hand_over n d k s)"
proof -
  have w: "iw_faults (tt_writer s) = []" "iw_ready (tt_writer s)" using assms(2,4) by (auto simp: transport_wf_def)
  let ?w = "(tt_writer s)\<lparr>iw_written := iw_written (tt_writer s) @ take n d\<rparr>"
  have w': "?w\<lparr>iw_written := iw_written ?w @ drop n d\<rparr> = (tt_writer s)\<lparr>iw_written := iw_written (tt_writer s) @ d\<rparr>" by simp
  have "run_prog (if drop n d = [] then k None else Calls (WriteData (drop n d)) k) ?w =
      run_prog (k None) ((tt_writer s)\<lparr>iw_written := iw_written (tt_writer s) @ d\<rparr>)"
  proof (cases "drop n d = []")
    case False
    with w iw_op_write [of ?w "drop n d"] w' show ?thesis by (simp del: iw_op.simps)
  qed simp
  with assms(1,3) iw_op_write [OF w, of d] show ?thesis
    by (simp add: on_course_def hand_over_def del: iw_op.simps)
qed

lemma transport_step_inv:
  assumes "transport_step s s'" "transport_inv final s" "transport_wf s"
  shows "transport_inv final s'"
  using assms(1)
proof (cases rule: transport_step.cases)
  case (called op k)
  then show ?thesis using assms(2) iw_op_written [of op "tt_writer s"]
    by (auto simp: transport_inv_def on_course_def iw_op_open)
next
  case (looked f)
  then show ?thesis using assms(2) by (auto simp: transport_inv_def on_course_def)
next
  case (writing d k)
  then show ?thesis using assms(2)
    by (auto simp: transport_inv_def on_course_def iw_op_write_header simp del: iw_op.simps)
next
  case (delivered d k status hdr n)
  have g: "\<not> tt_gone s" "tt_end s = None" using delivered(4) assms(3) by (auto simp: pipe_done_def transport_wf_def)
  have wf: "transport_wf (hand_over n d k s)" using transport_step_wf [OF assms(1,3)] delivered(1) by simp
  have r: "iw_ready (tt_writer (hand_over n d k s))"
    using assms(3) delivered(3) by (auto simp: transport_wf_def hand_over_def)
  have o: "on_course final (hand_over n d k s)" if "tt_cancelled s = None"
    using assms(2) that g(1) on_course_delivered [OF _ assms(3) delivered(2,3)] by (simp add: transport_inv_def)
  have "\<exists>rest. iw_written final = tt_read (hand_over n d k s) @ rest" if "tt_cancelled s = None"
    by (rule on_course_final(4) [OF o [OF that] r wf])
  with o g assms(2) show ?thesis unfolding delivered(1) transport_inv_def by simp
next
  case (broken d k)
  then show ?thesis using assms(2,3) by (auto simp: transport_inv_def transport_wf_def pipe_done_def)
next
  case (ended e)
  then show ?thesis using assms(2) by (auto simp: transport_inv_def on_course_def)
next
  case answered
  have g: "\<not> tt_gone s" "tt_end s = None" using answered(2) assms(3) by (auto simp: transport_wf_def)
  show ?thesis
  proof (cases "tt_cancelled s")
    case (Some e)
    with answered(1) show ?thesis by (simp add: transport_inv_def take_response_def)
  next
    case None
    then have o: "on_course final s" using assms(2) g(1) by (simp add: transport_inv_def)
    note f = on_course_final [OF o answered(3) assms(3)]
    show ?thesis
    proof (cases "iw_terminal_err (tt_writer s) = None \<and> iw_status (tt_writer s) \<noteq> 0")
      case True
      with None have "take_response s = s\<lparr>tt_caller := Holding (iw_status (tt_writer s)) (iw_response_header (tt_writer s))\<rparr>"
        by (simp add: take_response_def)
      moreover have "on_course final (take_response s)" using o by (cases "tt_prog s") (simp_all add: on_course_def)
      ultimately show ?thesis using True f g answered(1) by (simp add: transport_inv_def)
    next
      case False
      then obtain e where "iw_response final = Inl e" "take_response s = s\<lparr>tt_caller := Failed e, tt_gone := True\<rparr>"
        using None f(1,3) by (cases "iw_terminal_err (tt_writer s)") (simp_all add: iw_response_def take_response_def)
      with g answered(1) show ?thesis by (simp add: transport_inv_def)
    qed
  qed
next
  case (given_up e)
  then show ?thesis using assms(2) by (auto simp: transport_inv_def)
next
  case (read_end status hdr e)
  then show ?thesis using assms(2,3) by (auto simp: transport_inv_def on_course_def transport_wf_def)
qed

lemma transport_event_inv: "transport_event s s' \<Longrightarrow> transport_inv final s \<Longrightarrow> transport_inv final s'"
  by (auto simp: transport_inv_def elim!: transport_eventE)

lemma transport_runs_inv:
  assumes "transport_run\<^sup>*\<^sup>* (start_transport p) s"
  shows "transport_inv (run_prog p newInProcessResponseWriter) s \<and> transport_wf s"
  using assms
proof (induction rule: rtranclp_induct)
  case base
  show ?case by (simp add: transport_inv_start transport_wf_start)
next
  case (step s s')
  then show ?case
    using transport_step_inv transport_step_wf transport_event_inv transport_event_wf
    unfolding transport_run_def by blast
qed

section \<open>Every run ends\<close>

text \<open>What is left to do before the handler goes on: the write it is in, and the four decisions that are taken once.\<close>

definition transport_measure :: "transport_state \<Rightarrow> nat" where
  "transport_measure s =
     (case tt_prog s of Some (Calls (WriteData d) k) \<Rightarrow> length d | _ \<Rightarrow> 0) + (if tt_writing s then 0 else 1) +
     (if tt_cancelled s = None then 1 else 0) + (if tt_caller s = Waiting then 1 else 0) +
     (if tt_end s = None then 1 else 0) + (if tt_gone s then 0 else 1)"

text \<open>A step goes on to the next call of the handler, or does some of what is left before it.\<close>

lemma transport_run_measure:
  assumes "transport_run s s'" "transport_wf s"
  shows "transport_measure s' < transport_measure s \<and> (tt_prog s' = tt_prog s \<or>
      (\<exists>d d' k. tt_prog s = Some (Calls (WriteData d) k) \<and> tt_prog s' = Some (Calls (WriteData d') k))) \<or>
    (\<exists>op k e. tt_prog s = Some (Calls op k) \<and> tt_prog s' = Some (k e)) \<or>
    (\<exists>f b. tt_prog s = Some (Looks f) \<and> tt_prog s' = Some (f b)) \<or>
    (\<exists>e. tt_prog s = Some (Ends e) \<and> tt_prog s' = None)"
  using assms(1) unfolding transport_run_def
proof
  assume "transport_step s s'"
  then show ?thesis
  proof (cases rule: transport_step.cases)
    case answered
    have "transport_measure (take_response s) < transport_measure s"
      using answered(2) take_response_caller [of s] unfolding transport_measure_def take_response_simps by simp
    then show ?thesis unfolding answered(1) by simp
  next
    case (called op k)
    then have "tt_prog s' = Some (k None)" by simp
    with called(2) show ?thesis by blast
  next
    case (looked f)
    then have "tt_prog s' = Some (f (tt_cancelled s \<noteq> None))" by simp
    with looked(2) show ?thesis by blast
  next
    case (writing d k)
    then show ?thesis by (simp add: transport_measure_def)
  next
    case (delivered d k status hdr n)
    show ?thesis
    proof (cases "drop n d = []")
      case True
      with delivered(1) have "tt_prog s' = Some (k None)" by (simp add: hand_over_def)
      with delivered(2) show ?thesis by blast
    next
      case False
      then have "length (drop n d) < length d" using delivered(6) by auto
      with False show ?thesis unfolding delivered(1) transport_measure_def
        using delivered(2,3) by (simp add: hand_over_def)
    qed
  next
    case (broken d k)
    then have "tt_prog s' = Some (k (Some ErrClosedPipe))" by simp
    with broken(2) show ?thesis by blast
  next
    case (ended e)
    then show ?thesis by simp
  next
    case (given_up e)
    have "transport_measure s' < transport_measure s"
      using given_up(2) unfolding given_up(1) transport_measure_def by simp
    then show ?thesis using given_up(1) by simp
  next
    case (read_end status hdr e)
    have "transport_measure s' < transport_measure s"
      using read_end(5) unfolding read_end(1) transport_measure_def by simp
    then show ?thesis using read_end(1) by simp
  qed
next
  assume "transport_event s s'"
  then have "transport_measure s' < transport_measure s \<and> tt_prog s' = tt_prog s"
    by (cases rule: transport_event.cases) (simp_all add: transport_measure_def)
  then show ?thesis by simp
qed

lemma transport_run_wf: "transport_run s s' \<Longrightarrow> transport_wf s \<Longrightarrow> transport_wf s'"
  using transport_step_wf transport_event_wf by (auto simp: transport_run_def)

text \<open>No run of a state is infinite.\<close>

definition settles :: "transport_state \<Rightarrow> bool" where
  "settles s \<longleftrightarrow> \<not> (\<exists>f. f 0 = s \<and> (\<forall>i. transport_run (f i) (f (Suc i))))"

lemma settles_step: "(\<And>s'. transport_run s s' \<Longrightarrow> settles s') \<Longrightarrow> settles s"
  unfolding settles_def
proof safe
  fix f
  assume s: "\<And>s'. transport_run (f 0) s' \<Longrightarrow> \<not> (\<exists>g. g 0 = s' \<and> (\<forall>i. transport_run (g i) (g (Suc i))))"
    and f: "\<forall>i. transport_run (f i) (f (Suc i))"
  have "\<exists>g. g 0 = f (Suc 0) \<and> (\<forall>i. transport_run (g i) (g (Suc i)))" by (rule exI [of _ "\<lambda>i. f (Suc i)"]) (simp add: f)
  with s f show False by blast
qed

lemma settles_within:
  assumes "transport_wf s" "P (tt_prog s)" "\<And>d d' k. P (Some (Calls (WriteData d) k)) \<Longrightarrow> P (Some (Calls (WriteData d') k))"
    "\<And>t op k e. P (Some (Calls op k)) \<Longrightarrow> transport_wf t \<Longrightarrow> tt_prog t = Some (k e) \<Longrightarrow> settles t"
    "\<And>t f b. P (Some (Looks f)) \<Longrightarrow> transport_wf t \<Longrightarrow> tt_prog t = Some (f b) \<Longrightarrow> settles t"
    "\<And>t e. P (Some (Ends e)) \<Longrightarrow> transport_wf t \<Longrightarrow> tt_prog t = None \<Longrightarrow> settles t"
  shows "settles s"
  using assms(1,2)
proof (induction "transport_measure s" arbitrary: s rule: less_induct)
  case less
  show ?case
  proof (rule settles_step)
    fix s'
    assume r: "transport_run s s'"
    note wf = transport_run_wf [OF r less.prems(1)]
    from transport_run_measure [OF r less.prems(1)] show "settles s'"
      using less.hyps [of s'] less.prems(2) wf assms(3-6) by metis
  qed
qed

lemma ended_settles: "transport_wf s \<Longrightarrow> tt_prog s = None \<Longrightarrow> settles s"
  by (rule settles_within [where P = "\<lambda>q. q = None"]) simp_all

lemma prog_settles: "transport_wf s \<Longrightarrow> tt_prog s = Some p \<Longrightarrow> settles s"
proof (induction p arbitrary: s)
  case (Ends e)
  show ?case by (rule settles_within [where P = "\<lambda>q. q = Some (Ends e)"]) (use Ends ended_settles in auto)
next
  case (Calls op k)
  show ?case
    by (rule settles_within [where P = "\<lambda>q. \<exists>op. q = Some (Calls op k)"]) (use Calls in auto)
next
  case (Looks f)
  show ?case by (rule settles_within [where P = "\<lambda>q. q = Some (Looks f)"]) (use Looks in auto)
qed

text \<open>Nothing waits for ever: a state without a step is one in which the handler has ended and the caller is done.\<close>

definition round_trip_over :: "transport_state \<Rightarrow> bool" where
  "round_trip_over s \<longleftrightarrow> tt_prog s = None \<and> tt_caller s \<noteq> Waiting \<and> (tt_gone s \<or> tt_end s \<noteq> None)"

lemma transport_progress:
  assumes "transport_wf s" "\<not> round_trip_over s"
  obtains s' where "transport_step s s'"
proof (cases "tt_prog s")
  case None
  then have c: "iw_closed (tt_writer s) \<noteq> None" "iw_ready (tt_writer s)" using assms(1) by (auto simp: transport_wf_def)
  show ?thesis
  proof (cases "tt_caller s")
    case Waiting
    then show ?thesis using that c(2) transport_step.answered by blast
  next
    case (Holding status hdr)
    with assms(2) None have "\<not> tt_gone s" "tt_end s = None" by (auto simp: round_trip_over_def)
    then show ?thesis using that Holding c(1) transport_step.read_end by blast
  next
    case (Failed e)
    then show ?thesis using assms None by (auto simp: round_trip_over_def transport_wf_def)
  qed
next
  case (Some p)
  show ?thesis
  proof (cases p)
    case (Calls op k)
    show ?thesis
    proof (cases "\<exists>d. op = WriteData d")
      case True
      then obtain d where p: "tt_prog s = Some (Calls (WriteData d) k)" using Some Calls by auto
      show ?thesis
      proof (cases "tt_writing s \<and> \<not> pipe_done s")
        case w: True
        then have "iw_ready (tt_writer s)" "\<not> tt_gone s" using assms(1) by (auto simp: transport_wf_def pipe_done_def)
        with assms(1) w show ?thesis
          using that p transport_step.answered transport_step.delivered [OF p, of _ _ 1]
          by (cases "tt_caller s") (auto simp: transport_wf_def)
      next
        case False
        then show ?thesis using that p transport_step.writing transport_step.broken by blast
      qed
    next
      case False
      then show ?thesis using that Some Calls transport_step.called by blast
    qed
  qed (use that Some transport_step.ended transport_step.looked in blast)+
qed

section \<open>Properties\<close>

text \<open>C36: However the goroutines of an in-process request interleave, the caller gets the response the transport's
  model gives: the header it sends, and of the body what has been written so far, all of it when the caller has
  seen the end; an error is the one of that response or the cancellation.\<close>

theorem in_process_delivers:
  assumes "transport_run\<^sup>*\<^sup>* (start_transport p) s" "flush_after_header (prog_ops p)" "no_zero_status (prog_ops p)"
    "prog_end p = end_error en"
  shows "case tt_caller s of
      Waiting \<Rightarrow> True
    | Failed e \<Rightarrow> tt_cancelled s = Some e \<or> pipe_response (fold rw_op (prog_ops p) pipe_writer) en = Inl e
    | Holding status hdr \<Rightarrow> tt_cancelled s = None \<longrightarrow>
        (\<exists>rest e. pipe_response (fold rw_op (prog_ops p) pipe_writer) en =
            Inr \<lparr>resp_status = status, resp_header = hdr, resp_body = [(tt_read s @ rest, e)]\<rparr> \<and>
          (tt_end s \<noteq> None \<longrightarrow> tt_end s = Some e \<and> rest = []))"
proof -
  let ?R = "run_prog p newInProcessResponseWriter"
  have "represents_writer (fold iw_op (prog_ops p) newInProcessResponseWriter) (fold rw_op (prog_ops p) pipe_writer)"
    by (rule represents_ops [OF writer_represents_new assms(3)]) (simp add: assms(2))
  then have r: "iw_response ?R = pipe_response (fold rw_op (prog_ops p) pipe_writer) en" and c: "\<exists>e. iw_closed ?R = Some e"
    unfolding run_prog_ops assms(4) by (simp_all add: represents_writer_response represents_writer_def)
  have i: "transport_inv ?R s" using transport_runs_inv [OF assms(1)] by blast
  show ?thesis
  proof (cases "tt_caller s")
    case (Holding status hdr)
    show ?thesis
    proof (cases "tt_cancelled s")
      case None
      with i Holding have h: "status \<noteq> 0" "iw_status ?R = status" "iw_response_header ?R = hdr" "iw_terminal_err ?R = None"
          "\<exists>rest. iw_written ?R = tt_read s @ rest" "\<forall>e. tt_end s = Some e \<longrightarrow> tt_read s = iw_written ?R \<and> iw_closed ?R = Some e"
        by (simp_all add: transport_inv_def)
      obtain rest e where re: "iw_written ?R = tt_read s @ rest" "iw_closed ?R = Some e" using h(5) c by blast
      have "iw_response ?R = Inr \<lparr>resp_status = status, resp_header = hdr, resp_body = [(tt_read s @ rest, e)]\<rparr>"
        using h(1-4) re by (simp add: iw_response_def)
      moreover have "tt_end s \<noteq> None \<longrightarrow> tt_end s = Some e \<and> rest = []" using h(6) re by auto
      ultimately show ?thesis unfolding r Holding by (simp only: caller.case) blast
    qed (simp add: Holding)
  next
    case (Failed e)
    with i show ?thesis by (simp add: transport_inv_def r)
  qed simp
qed

text \<open>A handler that sends two bytes, and the run in which the caller reads the first of them and then the second.\<close>

definition sample_prog :: handler_prog where
  "sample_prog = Calls (WriteHeader 200) (\<lambda>_. Calls (WriteData ''ab'') (\<lambda>_. Ends None))"

definition sample_transport_end :: transport_state where
  "sample_transport_end = \<lparr>tt_writer = newInProcessResponseWriter\<lparr>iw_status := 200, iw_ready := True, iw_written := ''ab'',
     iw_closed := Some None\<rparr>, tt_prog = None, tt_writing = False, tt_cancelled = None, tt_caller = Holding 200 [],
     tt_gone = False, tt_read = ''ab'', tt_end = Some None\<rparr>"

lemma sample_transport_runs: "transport_run\<^sup>*\<^sup>* (start_transport sample_prog) sample_transport_end"
proof -
  have st: "transport_run\<^sup>*\<^sup>* a c" if "transport_step a b" "transport_run\<^sup>*\<^sup>* b c" for a b c
    using that by (auto simp: transport_run_def intro: converse_rtranclp_into_rtranclp)
  let ?k = "\<lambda>_. Ends None" and ?w = "newInProcessResponseWriter\<lparr>iw_status := 200, iw_ready := True\<rparr>"
  let ?s1 = "(start_transport sample_prog)\<lparr>tt_writer := ?w, tt_prog := Some (Calls (WriteData ''ab'') ?k)\<rparr>"
  let ?s3 = "?s1\<lparr>tt_caller := Holding 200 [], tt_writing := True\<rparr>"
  have 1: "transport_step (start_transport sample_prog) ?s1"
    using transport_step.called [of "start_transport sample_prog" "WriteHeader 200" "\<lambda>_. Calls (WriteData ''ab'') ?k"]
    by (simp add: start_transport_def sample_prog_def newInProcessResponseWriter_def iw_WriteHeader_def)
  have 2: "transport_step ?s1 (?s1\<lparr>tt_caller := Holding 200 []\<rparr>)"
    using transport_step.answered [of ?s1] by (simp add: take_response_def start_transport_def newInProcessResponseWriter_def)
  have 3: "transport_step (?s1\<lparr>tt_caller := Holding 200 []\<rparr>) ?s3"
    using transport_step.writing [of "?s1\<lparr>tt_caller := Holding 200 []\<rparr>" "''ab''" ?k]
    by (simp add: start_transport_def newInProcessResponseWriter_def iw_WriteHeader_def)
  have 4: "transport_step ?s3 (hand_over 1 ''ab'' ?k ?s3)"
    by (rule transport_step.delivered) (simp_all add: start_transport_def newInProcessResponseWriter_def pipe_done_def)
  have 5: "transport_step (hand_over 1 ''ab'' ?k ?s3) (hand_over 1 ''b'' ?k (hand_over 1 ''ab'' ?k ?s3))"
    by (rule transport_step.delivered)
       (simp_all add: start_transport_def newInProcessResponseWriter_def pipe_done_def hand_over_def)
  let ?s5 = "hand_over 1 ''b'' ?k (hand_over 1 ''ab'' ?k ?s3)"
  let ?s6 = "?s5\<lparr>tt_writer := iw_finish None (tt_writer ?s5), tt_prog := None\<rparr>"
  have 6: "transport_step ?s5 ?s6" by (rule transport_step.ended) (simp add: hand_over_def)
  have 7: "transport_step ?s6 (?s6\<lparr>tt_end := Some None\<rparr>)"
    by (rule transport_step.read_end)
       (simp_all add: start_transport_def newInProcessResponseWriter_def hand_over_def iw_finish_def iw_WriteHeader_def)
  have "?s6\<lparr>tt_end := Some None\<rparr> = sample_transport_end"
    by (simp add: start_transport_def newInProcessResponseWriter_def hand_over_def iw_finish_def iw_WriteHeader_def sample_transport_end_def)
  then show ?thesis using st [OF 1 st [OF 2 st [OF 3 st [OF 4 st [OF 5 st [OF 6 st [OF 7 rtranclp.rtrancl_refl]]]]]]] by simp
qed

theorem in_process_delivers_witness:
  "transport_run\<^sup>*\<^sup>* (start_transport sample_prog) sample_transport_end \<and> tt_end sample_transport_end = Some None \<and>
   (\<exists>rest e. pipe_response (fold rw_op (prog_ops sample_prog) pipe_writer) Returned =
      Inr \<lparr>resp_status = 200, resp_header = [], resp_body = [(''ab'' @ rest, e)]\<rparr> \<and> Some None = Some e \<and> rest = [])"
  using in_process_delivers [OF sample_transport_runs, of Returned] sample_transport_runs
  by (simp add: sample_transport_end_def sample_prog_def no_zero_status_def)

text \<open>C37: Every in-process request comes to an end: no run of its goroutines is infinite, and where neither the handler
  nor the caller can go on, the handler's goroutine has ended and the caller has its error, has closed the
  body or has seen its end, whatever was cancelled or abandoned before.\<close>

theorem in_process_ends:
  assumes "transport_run\<^sup>*\<^sup>* (start_transport p) s"
  shows "\<not> (\<exists>f. f 0 = s \<and> (\<forall>i. transport_run (f i) (f (Suc i)))) \<and>
    ((\<exists>s'. transport_step s s') \<or> tt_prog s = None \<and> tt_caller s \<noteq> Waiting \<and> (tt_gone s \<or> tt_end s \<noteq> None))"
proof -
  have wf: "transport_wf s" using transport_runs_inv [OF assms] by blast
  then have "settles s" using ended_settles prog_settles by (cases "tt_prog s") blast+
  moreover have "(\<exists>s'. transport_step s s') \<or> round_trip_over s" using transport_progress [OF wf] by blast
  ultimately show ?thesis by (simp add: settles_def round_trip_over_def)
qed

theorem in_process_ends_witness:
  "\<not> (\<exists>f. f 0 = sample_transport_end \<and> (\<forall>i. transport_run (f i) (f (Suc i))))"
  using in_process_ends [OF sample_transport_runs] by blast

end
