(* ===== verification/FrameGuard.thy ===== *)
theory FrameGuard
  imports GoHttp Encoding
begin

text \<open>
  The response guard below the EHBP library (internal/confidential/frame_guard.go): the raw
  response body is checked frame by frame while it is read. The names of the two things the guard
  takes from the EHBP protocol package, the response nonce header and the problem media type, are
  parameters.
\<close>

definition maxEncryptedResponseFrame :: nat where "maxEncryptedResponseFrame = 67108864"
definition maxProblemResponseBody :: nat where "maxProblemResponseBody = 65536"

record ehbp_protocol =
  ResponseNonceHeader :: string
  ProblemJSONMediaType :: string

section \<open>The frame reader\<close>

text \<open>\<open>header [4]byte\<close> is a quadruple; \<open>frameRemaining\<close> never exceeds \<open>2 ^ 32 - 1\<close>.\<close>

type_synonym prefix = "char \<times> char \<times> char \<times> char"

fun prefix_bytes :: "prefix \<Rightarrow> bytes" where
  "prefix_bytes (a, b, c, d) = [a, b, c, d]"

text \<open>What \<open>io.ReadFull(r.source, r.header[:])\<close> leaves in the array.\<close>

fun overwrite_prefix :: "prefix \<Rightarrow> bytes \<Rightarrow> prefix" where
  "overwrite_prefix (a, b, c, d) [] = (a, b, c, d)"
| "overwrite_prefix (a, b, c, d) [w] = (w, b, c, d)"
| "overwrite_prefix (a, b, c, d) [w, x] = (w, x, c, d)"
| "overwrite_prefix (a, b, c, d) [w, x, y] = (w, x, y, d)"
| "overwrite_prefix (a, b, c, d) (w # x # y # z # _) = (w, x, y, z)"

fun be_uint32 :: "prefix \<Rightarrow> nat" where
  "be_uint32 (a, b, c, d) = ((ord_of a * 256 + ord_of b) * 256 + ord_of c) * 256 + ord_of d"

record frame_guard =
  fg_source :: reader
  fg_header :: prefix
  fg_header_offset :: nat
  fg_frame_remaining :: nat
  fg_pending_error :: "error option"
  fg_eof :: bool

definition zero_prefix :: prefix where
  "zero_prefix = (CHR 0x00, CHR 0x00, CHR 0x00, CHR 0x00)"

definition new_frame_guard :: "reader \<Rightarrow> frame_guard" where
  "new_frame_guard src = \<lparr>fg_source = src, fg_header = zero_prefix, fg_header_offset = 0,
     fg_frame_remaining = 0, fg_pending_error = None, fg_eof = False\<rparr>"

text \<open>How much a reader may still do: a bound on its later calls that make progress.\<close>

fun reader_weight :: "reader \<Rightarrow> nat" where
  "reader_weight [] = 0"
| "reader_weight ((bs, e) # r) = Suc (length bs + reader_weight r)"

lemma read_weight_empty: "read n r = (([], None), r') \<Longrightarrow> 0 < n \<Longrightarrow> reader_weight r' < reader_weight r"
  by (cases r) (auto split: if_splits)

lemma fill_weight: "fill n r = (d, None, r') \<Longrightarrow> reader_weight r' \<le> reader_weight r \<and> (0 < n \<longrightarrow> reader_weight r' < reader_weight r)"
  by (induction n r arbitrary: d r' rule: fill.induct) (fastforce split: if_splits option.splits prod.splits)+

lemma read_full_weight: "read_full n r = (d, None, r') \<Longrightarrow> 0 < n \<Longrightarrow> reader_weight r' < reader_weight r"
  using fill_weight by (auto simp: read_full_def split: prod.splits if_splits)

definition truncated_ciphertext :: error where
  "truncated_ciphertext = Msg ''truncated EHBP response ciphertext''"
definition truncated_prefix :: error where
  "truncated_prefix = Msg ''truncated EHBP response frame prefix''"
definition zero_frame :: error where
  "zero_frame = Msg ''zero-length EHBP response frame''"
definition oversized_frame :: error where
  "oversized_frame = Msg (''EHBP response frame exceeds '' @ dec_nat maxEncryptedResponseFrame @ '' bytes'')"

definition in_prefix :: "frame_guard \<Rightarrow> bool" where
  "in_prefix g \<longleftrightarrow> fg_header_offset g < 4 \<and> (fg_header_offset g > 0 \<or> fg_frame_remaining g > 0)"

definition prefix_part :: "nat \<Rightarrow> frame_guard \<Rightarrow> bytes" where
  "prefix_part room g = take room (drop (fg_header_offset g) (prefix_bytes (fg_header g)))"

lemma prefix_length [simp]: "length (prefix_bytes h) = 4"
  by (cases h) simp

lemma prefix_part_length: "length (prefix_part room g) = min room (4 - fg_header_offset g)"
  by (simp add: prefix_part_def)

lemma less_diff_nonempty: "o' < n \<Longrightarrow> a \<noteq> [] \<Longrightarrow> n - (o' + length a) < n - o'"
  by (cases a) auto

text \<open>
  The loop of \<open>Read\<close>: \<open>n\<close> is the length of the destination, \<open>out\<close> what has been written to it.
\<close>

function guard_loop :: "nat \<Rightarrow> bytes \<Rightarrow> frame_guard \<Rightarrow> (bytes \<times> error option) \<times> frame_guard" where
  "guard_loop n out g =
     (if \<not> length out < n then ((out, None), g)
      else if in_prefix g
      then (let h = prefix_part (n - length out) g; g' = g\<lparr>fg_header_offset := fg_header_offset g + length h\<rparr>
        in if length (out @ h) = n then ((out @ h, None), g') else guard_loop n (out @ h) g')
      else if fg_frame_remaining g > 0
      then (case read (min (n - length out) (fg_frame_remaining g)) (fg_source g) of ((bs, e), src) \<Rightarrow>
        (let left = fg_frame_remaining g - length bs; g' = g\<lparr>fg_source := src, fg_frame_remaining := left\<rparr> in
         (case e of
           Some err \<Rightarrow>
             (let err' = (if error_is err EOF \<and> left > 0 then truncated_ciphertext else err)
              in if out @ bs \<noteq> [] then ((out @ bs, None), g'\<lparr>fg_pending_error := Some err'\<rparr>)
                 else (([], Some err'), g'))
         | None \<Rightarrow>
             (if bs = [] then guard_loop n out g'
              else if left = 0
              then guard_loop n (out @ bs) (g'\<lparr>fg_header_offset := 0, fg_header := zero_prefix\<rparr>)
              else guard_loop n (out @ bs) g'))))
      else (case read_full 4 (fg_source g) of (d, e, src) \<Rightarrow>
        (let g' = g\<lparr>fg_source := src, fg_header := overwrite_prefix (fg_header g) d\<rparr> in
         (case e of
           Some err \<Rightarrow>
             (if error_is err EOF \<and> d = []
              then (if out \<noteq> [] then ((out, None), g'\<lparr>fg_eof := True\<rparr>)
                    else (([], Some (Sent EOF)), g'\<lparr>fg_eof := True\<rparr>))
              else if out \<noteq> [] then ((out, None), g'\<lparr>fg_pending_error := Some truncated_prefix\<rparr>)
              else (([], Some truncated_prefix), g'))
         | None \<Rightarrow>
             (let frameLength = be_uint32 (fg_header g') in
              if frameLength = 0 then ((out, Some zero_frame), g')
              else if frameLength > maxEncryptedResponseFrame then ((out, Some oversized_frame), g')
              else guard_loop n out (g'\<lparr>fg_frame_remaining := frameLength, fg_header_offset := 0\<rparr>))))))"
  by pat_completeness auto

termination
proof (relation "measures [\<lambda>(n, out, g). n - length out, \<lambda>(n, out, g). reader_weight (fg_source g)]", goal_cases)
  case 1
  then show ?case by simp
next
  case (2 n out g h g')
  then show ?case by (auto simp: in_prefix_def prefix_part_length)
qed (auto simp: read_weight_empty less_diff_nonempty intro: read_full_weight [OF sym])

declare guard_loop.simps [simp del]

definition guard_read :: "nat \<Rightarrow> frame_guard \<Rightarrow> (bytes \<times> error option) \<times> frame_guard" where
  "guard_read n g =
     (if n = 0 then (([], None), g)
      else (case fg_pending_error g of
        Some err \<Rightarrow> (([], Some err), g\<lparr>fg_pending_error := None\<rparr>)
      | None \<Rightarrow> (if fg_eof g then (([], Some (Sent EOF)), g) else guard_loop n [] g)))"

section \<open>Readers\<close>

text \<open>
  A source whose first error ends it: nothing follows an error, and only \<open>io.EOF\<close> may come with
  the last bytes.
\<close>

fun final_errors :: "reader \<Rightarrow> bool" where
  "final_errors [] = True"
| "final_errors ((bs, None) # r) = final_errors r"
| "final_errors ((bs, Some e) # r) = (r = [] \<and> (bs = [] \<or> e = Sent EOF))"

definition eof_none :: "error \<Rightarrow> error option" where
  "eof_none e = (if e = Sent EOF then None else Some e)"

lemma read_None:
  assumes "read n r = ((bs, None), r')" "final_errors r" "0 < n"
  shows "drain r = (bs @ fst (drain r'), snd (drain r'))" "final_errors r'"
proof -
  have "drain r = (bs @ fst (drain r'), snd (drain r')) \<and> final_errors r'"
  proof (cases r)
    case (Cons x s)
    obtain cs e where x: "x = (cs, e)" by force
    show ?thesis
    proof (cases "length cs \<le> n")
      case True
      with assms Cons x show ?thesis by (auto split: prod.splits)
    next
      case False
      with assms Cons x have b: "bs = take n cs" "r' = (drop n cs, e) # s" by auto
      then have "final_errors r'" using assms(2) Cons x False by (cases e) auto
      moreover have "cs = bs @ drop n cs" using b by simp
      ultimately show ?thesis using b Cons x by (auto split: option.splits prod.splits)
    qed
  qed (use assms in simp)
  then show "drain r = (bs @ fst (drain r'), snd (drain r'))" "final_errors r'" by blast+
qed

lemma read_Some:
  assumes "read n r = ((bs, Some e), r')" "final_errors r"
  shows "drain r = (bs, eof_none e)" "bs = [] \<or> e = Sent EOF" "final_errors r'"
  using assms by (cases r; auto simp: eof_none_def split: if_splits)+

lemma fill_None:
  "fill n r = (d, None, r') \<Longrightarrow> final_errors r \<Longrightarrow>
     drain r = (d @ fst (drain r'), snd (drain r')) \<and> final_errors r' \<and> length d = n"
proof (induction n r arbitrary: d r' rule: fill.induct)
  case (3 n bs e r)
  note IH = 3
  consider "length bs > Suc n" | "length bs = Suc n" | "length bs < Suc n" by linarith
  then show ?case
  proof cases
    case 1
    with IH(2) have d: "d = take (Suc n) bs" "r' = (drop (Suc n) bs, e) # r" by auto
    with IH(3) 1 have "final_errors r'" by (cases e) auto
    moreover have "bs = d @ drop (Suc n) bs" using d by simp
    ultimately show ?thesis using d 1 by (auto split: option.splits prod.splits)
  next
    case 2
    with IH(2,3) show ?thesis by (cases e) (auto split: prod.splits)
  next
    case 3
    with IH(2) obtain d' where e: "e = None" and f: "fill (Suc n - length bs) r = (d', None, r')" and d: "d = bs @ d'"
      by (auto split: option.splits prod.splits if_splits)
    have "drain r = (d' @ fst (drain r'), snd (drain r')) \<and> final_errors r' \<and> length d' = Suc n - length bs"
      using IH(1) [OF _ _ e f] 3 IH(3) e by simp
    with e d 3 show ?thesis by (auto split: prod.splits)
  qed
qed auto

lemma fill_Some:
  "fill n r = (d, Some e, r') \<Longrightarrow> final_errors r \<Longrightarrow> drain r = (d, eof_none e) \<and> length d < n \<and> final_errors r'"
proof (induction n r arbitrary: d r' rule: fill.induct)
  case (3 n bs e0 r)
  then have l: "length bs < Suc n" by (auto split: if_splits)
  show ?case
  proof (cases e0)
    case None
    with 3(2) l obtain d' where f: "fill (Suc n - length bs) r = (d', Some e, r')" and d: "d = bs @ d'"
      by (auto split: prod.splits)
    have "drain r = (d', eof_none e) \<and> length d' < Suc n - length bs \<and> final_errors r'"
      using 3(1) [OF _ _ None f] l 3(3) None by simp
    with None d l show ?thesis by auto
  next
    case (Some e1)
    with 3(2,3) l show ?thesis by (auto simp: eof_none_def)
  qed
qed (auto simp: eof_none_def)

section \<open>What the guard lets through\<close>

text \<open>
  The reference: the bytes of a whole stream that the guard delivers, and whether it ends cleanly.
  Every complete frame passes, and of an incomplete one what there is after a complete length prefix; a
  zero, oversized or incomplete one ends the stream uncleanly.
\<close>

definition is_eof :: "error option \<Rightarrow> bool" where
  "is_eof e = (case e of None \<Rightarrow> True | Some err \<Rightarrow> error_is err EOF)"

definition prepend :: "bytes \<Rightarrow> bytes \<times> bool \<Rightarrow> bytes \<times> bool" where
  "prepend a s = (a @ fst s, snd s)"

lemma prepend_simps [simp]:
  "prepend [] s = s" "prepend a (prepend b s) = prepend (a @ b) s" "prepend a (b, c) = (a @ b, c)"
  by (simp_all add: prepend_def)

fun to_prefix :: "bytes \<Rightarrow> prefix" where
  "to_prefix d = overwrite_prefix zero_prefix d"

function frame_stream :: "bytes \<Rightarrow> error option \<Rightarrow> bytes \<times> bool" where
  "frame_stream d e =
     (if d = [] \<and> is_eof e then ([], True)
      else if length d < 4 then ([], False)
      else (let l = be_uint32 (to_prefix d) in
        if l = 0 \<or> l > maxEncryptedResponseFrame then ([], False)
        else if length d < 4 + l then (d, False)
        else prepend (take (4 + l) d) (frame_stream (drop (4 + l) d) e)))"
  by pat_completeness auto
termination by (relation "measure (length \<circ> fst)") auto

declare frame_stream.simps [simp del]

definition payload_stream :: "nat \<Rightarrow> bytes \<Rightarrow> error option \<Rightarrow> bytes \<times> bool" where
  "payload_stream k d e = (if length d < k then (d, False) else prepend (take k d) (frame_stream (drop k d) e))"

text \<open>What is still to come from a guard in the middle of its work.\<close>

definition source_stream :: "frame_guard \<Rightarrow> bytes \<times> bool" where
  "source_stream g = (case drain (fg_source g) of (d, e) \<Rightarrow>
     (if in_prefix g
      then prepend (drop (fg_header_offset g) (prefix_bytes (fg_header g))) (payload_stream (fg_frame_remaining g) d e)
      else if fg_frame_remaining g > 0 then payload_stream (fg_frame_remaining g) d e
      else frame_stream d e))"

definition guard_stream :: "frame_guard \<Rightarrow> bytes \<times> bool" where
  "guard_stream g = (case fg_pending_error g of
     Some err \<Rightarrow> ([], error_is err EOF)
   | None \<Rightarrow> if fg_eof g then ([], True) else source_stream g)"

definition guard_ok :: "frame_guard \<Rightarrow> bool" where
  "guard_ok g \<longleftrightarrow> final_errors (fg_source g) \<and> fg_frame_remaining g \<le> maxEncryptedResponseFrame \<and>
     (0 < fg_header_offset g \<and> fg_header_offset g < 4 \<longrightarrow> 0 < fg_frame_remaining g)"

lemma overwrite_full: "length d = 4 \<Longrightarrow> overwrite_prefix h d = to_prefix d \<and> prefix_bytes (to_prefix d) = d"
  by (cases h) (auto simp: zero_prefix_def numeral_eq_Suc length_Suc_conv)

lemma to_prefix_append: "length d = 4 \<Longrightarrow> to_prefix (d @ r) = to_prefix d"
  by (auto simp: zero_prefix_def numeral_eq_Suc length_Suc_conv)

lemma frame_stream_frame:
  assumes "length d = 4" "l = be_uint32 (to_prefix d)" "0 < l" "l \<le> maxEncryptedResponseFrame"
  shows "frame_stream (d @ r) e = prepend d (payload_stream l r e)"
proof -
  have "frame_stream (d @ r) e = (if length (d @ r) < 4 + l then (d @ r, False)
      else prepend (take (4 + l) (d @ r)) (frame_stream (drop (4 + l) (d @ r)) e))"
    using assms by (subst frame_stream.simps) (auto simp: to_prefix_append Let_def simp del: to_prefix.simps)
  then show ?thesis using assms(1) by (simp add: payload_stream_def)
qed

lemma frame_stream_bad:
  assumes "length d = 4" "l = be_uint32 (to_prefix d)" "l = 0 \<or> maxEncryptedResponseFrame < l"
  shows "frame_stream (d @ r) e = ([], False)"
  using assms by (subst frame_stream.simps) (auto simp: to_prefix_append simp del: to_prefix.simps)

lemma payload_split: "length a \<le> k \<Longrightarrow> payload_stream k (a @ b) e = prepend a (payload_stream (k - length a) b e)"
  by (auto simp: payload_stream_def)

lemma payload_zero: "payload_stream 0 d e = frame_stream d e"
  by (simp add: payload_stream_def)

lemma take_drop_length: "ys = take k ys @ drop (length (take k ys)) ys"
  by (simp add: min_def)

text \<open>One round of the loop, by its three cases.\<close>

lemma stream_prefix:
  assumes "guard_ok g" "in_prefix g" "h = prefix_part room g"
  defines "g' \<equiv> g\<lparr>fg_header_offset := fg_header_offset g + length h\<rparr>"
  shows "source_stream g = prepend h (source_stream g')" "guard_ok g'"
proof -
  have r: "0 < fg_frame_remaining g" and o: "fg_header_offset g < 4"
    using assms(1,2) by (auto simp: guard_ok_def in_prefix_def)
  have h: "drop (fg_header_offset g) (prefix_bytes (fg_header g)) =
      h @ drop (fg_header_offset g + length h) (prefix_bytes (fg_header g))"
    unfolding assms(3) prefix_part_def
    using take_drop_length [of "drop (fg_header_offset g) (prefix_bytes (fg_header g))" room]
    by (simp add: add.commute)
  show "guard_ok g'" using assms(1) r by (simp add: guard_ok_def g'_def)
  show "source_stream g = prepend h (source_stream g')"
  proof (cases "fg_header_offset g + length h < 4")
    case True
    then have "in_prefix g'" using r by (simp add: in_prefix_def g'_def)
    with assms(2) h show ?thesis by (simp add: source_stream_def g'_def split: prod.splits)
  next
    case False
    then have "\<not> in_prefix g'" by (simp add: in_prefix_def g'_def)
    with assms(2) h r False show ?thesis by (simp add: source_stream_def g'_def split: prod.splits)
  qed
qed

lemma stream_payload_None:
  assumes "guard_ok g" "\<not> in_prefix g" "0 < fg_frame_remaining g" "0 < m" "m \<le> fg_frame_remaining g"
    "read m (fg_source g) = ((bs, None), src)"
  defines "g1 \<equiv> g\<lparr>fg_source := src, fg_frame_remaining := fg_frame_remaining g - length bs\<rparr>"
  defines "g2 \<equiv> (if bs \<noteq> [] \<and> fg_frame_remaining g1 = 0 then g1\<lparr>fg_header_offset := 0, fg_header := zero_prefix\<rparr> else g1)"
  shows "source_stream g = prepend bs (source_stream g2)" "guard_ok g2"
proof -
  note d = read_None [OF assms(6) _ assms(4)]
  have f: "final_errors (fg_source g)" using assms(1) by (simp add: guard_ok_def)
  have len: "length bs \<le> fg_frame_remaining g" using read_length [OF assms(6)] assms(5) by simp
  have off: "4 \<le> fg_header_offset g" using assms(2,3) by (auto simp: in_prefix_def)
  show "guard_ok g2" using assms(1) d(2) [OF f] off by (auto simp: guard_ok_def g1_def g2_def)
  have np: "\<not> in_prefix g2" using off by (auto simp: in_prefix_def g1_def g2_def)
  obtain dd ee where dr: "drain src = (dd, ee)" by force
  have "source_stream g = payload_stream (fg_frame_remaining g) (bs @ dd) ee"
    using d(1) [OF f] dr assms(2,3) by (simp add: source_stream_def)
  also have "\<dots> = prepend bs (payload_stream (fg_frame_remaining g - length bs) dd ee)"
    by (rule payload_split [OF len])
  also have "payload_stream (fg_frame_remaining g - length bs) dd ee = source_stream g2"
    using np dr by (auto simp: source_stream_def g1_def g2_def payload_zero split: if_splits)
  finally show "source_stream g = prepend bs (source_stream g2)" .
qed

lemma stream_payload_Some:
  assumes "guard_ok g" "\<not> in_prefix g" "0 < fg_frame_remaining g" "m \<le> fg_frame_remaining g"
    "read m (fg_source g) = ((bs, Some err), src)"
  defines "err' \<equiv> (if error_is err EOF \<and> fg_frame_remaining g - length bs > 0 then truncated_ciphertext else err)"
  shows "source_stream g = (bs, error_is err' EOF)" "final_errors src"
proof -
  have f: "final_errors (fg_source g)" using assms(1) by (simp add: guard_ok_def)
  note d = read_Some [OF assms(5) f]
  have len: "length bs \<le> fg_frame_remaining g" using read_length [OF assms(5)] assms(4) by simp
  have s: "source_stream g = payload_stream (fg_frame_remaining g) bs (eof_none err)"
    using d(1) assms(2,3) by (simp add: source_stream_def)
  show "source_stream g = (bs, error_is err' EOF)"
  proof (cases "length bs = fg_frame_remaining g")
    case True
    then have "err = Sent EOF" using d(2) assms(3) by auto
    then show ?thesis using s True by (simp add: payload_stream_def frame_stream.simps eof_none_def is_eof_def err'_def)
  next
    case False
    then show ?thesis using s len by (auto simp: payload_stream_def err'_def truncated_ciphertext_def)
  qed
  show "final_errors src" by (rule d(3))
qed

lemma read_full_None:
  assumes "read_full n r = (d, None, r')" "final_errors r"
  shows "drain r = (d @ fst (drain r'), snd (drain r'))" "final_errors r'" "length d = n"
  using fill_None [of n r d r'] assms by (auto simp: read_full_def split: prod.splits if_splits)

lemma read_full_Some:
  assumes "read_full n r = (d, Some e, r')" "final_errors r"
  shows "length d < n" "final_errors r'" "error_is e EOF \<and> d = [] \<longleftrightarrow> is_eof (snd (drain r)) \<and> d = []" "fst (drain r) = d"
proof -
  obtain e0 where f: "fill n r = (d, Some e0, r')" and e: "e = (if e0 = Sent EOF \<and> d \<noteq> [] then Sent UnexpectedEOF else e0)"
  proof -
    obtain x y z where f: "fill n r = (x, y, z)" by (cases "fill n r") auto
    with assms(1) obtain e0 where "y = Some e0" by (cases y) (auto simp: read_full_def)
    with f assms(1) show ?thesis by (intro that [of e0]) (auto simp: read_full_def)
  qed
  from fill_Some [OF f assms(2)] e
  show "length d < n" "final_errors r'" "error_is e EOF \<and> d = [] \<longleftrightarrow> is_eof (snd (drain r)) \<and> d = []" "fst (drain r) = d"
    by (auto simp: eof_none_def is_eof_def)
qed

lemma stream_header_Some:
  assumes "guard_ok g" "\<not> in_prefix g" "fg_frame_remaining g = 0" "read_full 4 (fg_source g) = (d, Some err, src)"
  shows "source_stream g = ([], error_is err EOF \<and> d = [])" "final_errors src"
proof -
  have f: "final_errors (fg_source g)" using assms(1) by (simp add: guard_ok_def)
  note r = read_full_Some [OF assms(4) f]
  obtain e where dr: "drain (fg_source g) = (d, e)" using r(4) by (cases "drain (fg_source g)") auto
  show "source_stream g = ([], error_is err EOF \<and> d = [])"
    using assms(2,3) dr r(1,3) by (auto simp: source_stream_def frame_stream.simps [of d])
  show "final_errors src" by (rule r(2))
qed

lemma stream_header_None:
  assumes "guard_ok g" "\<not> in_prefix g" "fg_frame_remaining g = 0" "read_full 4 (fg_source g) = (d, None, src)"
  defines "g1 \<equiv> g\<lparr>fg_source := src, fg_header := overwrite_prefix (fg_header g) d\<rparr>"
  defines "l \<equiv> be_uint32 (fg_header g1)"
  shows "l = 0 \<or> maxEncryptedResponseFrame < l \<Longrightarrow> source_stream g = ([], False)"
    "0 < l \<Longrightarrow> l \<le> maxEncryptedResponseFrame \<Longrightarrow>
       source_stream g = source_stream (g1\<lparr>fg_frame_remaining := l, fg_header_offset := 0\<rparr>) \<and>
       guard_ok (g1\<lparr>fg_frame_remaining := l, fg_header_offset := 0\<rparr>)"
    "final_errors src"
proof -
  have f: "final_errors (fg_source g)" using assms(1) by (simp add: guard_ok_def)
  note r = read_full_None [OF assms(4) f]
  obtain dd e where dr: "drain src = (dd, e)" by force
  have l: "l = be_uint32 (to_prefix d)" "prefix_bytes (fg_header g1) = d"
    using overwrite_full [OF r(3), of "fg_header g"] by (simp_all add: l_def g1_def del: to_prefix.simps)
  have s: "source_stream g = frame_stream (d @ dd) e"
    using assms(2,3) r(1) dr by (simp add: source_stream_def)
  show "source_stream g = ([], False)" if "l = 0 \<or> maxEncryptedResponseFrame < l"
    using s frame_stream_bad [OF r(3) l(1) that] by simp
  show "source_stream g = source_stream (g1\<lparr>fg_frame_remaining := l, fg_header_offset := 0\<rparr>) \<and>
       guard_ok (g1\<lparr>fg_frame_remaining := l, fg_header_offset := 0\<rparr>)" if "0 < l" "l \<le> maxEncryptedResponseFrame"
    using s frame_stream_frame [OF r(3) l(1) that] that dr l(2) r(2)
    by (simp add: source_stream_def in_prefix_def guard_ok_def g1_def)
  show "final_errors src" by (rule r(2))
qed

text \<open>
  The loop: what it adds to \<open>out\<close> is the next part of the stream. When it returns no error the
  rest is still to come; when it returns one, nothing is, and the error is \<open>io.EOF\<close> just for a
  clean end.
\<close>

definition loop_correct :: "nat \<Rightarrow> bytes \<Rightarrow> frame_guard \<Rightarrow> (bytes \<times> error option) \<times> frame_guard \<Rightarrow> bool" where
  "loop_correct n out g res = (case res of ((outs, err), g') \<Rightarrow>
     \<exists>new. outs = out @ new \<and> length outs \<le> n \<and> (err = None \<longrightarrow> outs \<noteq> []) \<and>
       (case err of
          None \<Rightarrow> source_stream g = prepend new (guard_stream g') \<and>
                  (fg_pending_error g' = None \<and> \<not> fg_eof g' \<longrightarrow> guard_ok g')
        | Some e \<Rightarrow> source_stream g = (new, error_is e EOF)))"

lemma loop_correct_prepend:
  assumes "loop_correct n (out @ a) g2 res" "source_stream g = prepend a (source_stream g2)"
  shows "loop_correct n out g res"
proof -
  obtain outs err g' where res: "res = ((outs, err), g')" by (cases res) auto
  with assms(1) obtain new where "outs = (out @ a) @ new" by (auto simp: loop_correct_def)
  with assms res show ?thesis
    by (auto simp: loop_correct_def intro!: exI [of _ "a @ new"] split: option.splits)
qed

lemma loop_correct_stop:
  assumes "source_stream g = prepend a (guard_stream g')" "length (out @ a) \<le> n" "out @ a \<noteq> []"
    "fg_pending_error g' = None \<and> \<not> fg_eof g' \<longrightarrow> guard_ok g'"
  shows "loop_correct n out g ((out @ a, None), g')"
  using assms by (auto simp: loop_correct_def)

lemma loop_correct_error:
  assumes "source_stream g = (a, error_is e EOF)" "length (out @ a) \<le> n"
  shows "loop_correct n out g ((out @ a, Some e), g')"
  using assms by (auto simp: loop_correct_def)

lemma guard_stream_open: "fg_pending_error g = None \<Longrightarrow> \<not> fg_eof g \<Longrightarrow> guard_stream g = source_stream g"
  by (simp add: guard_stream_def)

lemma not_EOF_errors [simp]:
  "\<not> error_is truncated_prefix EOF" "\<not> error_is zero_frame EOF" "\<not> error_is oversized_frame EOF"
  "\<not> error_is truncated_ciphertext EOF"
  by (simp_all add: truncated_prefix_def zero_frame_def oversized_frame_def truncated_ciphertext_def)

lemma guard_loop_correct:
  "guard_ok g \<Longrightarrow> fg_pending_error g = None \<Longrightarrow> \<not> fg_eof g \<Longrightarrow> length out \<le> n \<Longrightarrow> 0 < n \<Longrightarrow>
     loop_correct n out g (guard_loop n out g)"
proof (induction n out g rule: guard_loop.induct)
  case (1 n out g)
  note ok = 1(6) and pe = 1(7) and eo = 1(8) and len = 1(9) and n = 1(10)
  consider (full) "length out = n" | (prefix) "length out < n" "in_prefix g"
    | (payload) "length out < n" "\<not> in_prefix g" "0 < fg_frame_remaining g"
    | (header) "length out < n" "\<not> in_prefix g" "fg_frame_remaining g = 0"
    using len by linarith
  then show ?case
  proof cases
    case full
    with n have "out \<noteq> []" by auto
    with full show ?thesis
      using loop_correct_stop [of g "[]" g out n] ok pe eo by (simp add: guard_loop.simps guard_stream_open)
  next
    case prefix
    define h where "h = prefix_part (n - length out) g"
    let ?g' = "g\<lparr>fg_header_offset := fg_header_offset g + length h\<rparr>"
    note s = stream_prefix [OF ok prefix(2) h_def]
    have hl: "length (out @ h) \<le> n" using prefix(1) by (simp add: h_def prefix_part_length)
    have r: "guard_loop n out g = (if length (out @ h) = n then ((out @ h, None), ?g') else guard_loop n (out @ h) ?g')"
      using prefix by (subst guard_loop.simps) (simp add: h_def Let_def)
    show ?thesis
    proof (cases "length (out @ h) = n")
      case True
      then have "out @ h \<noteq> []" using n by auto
      with True r s pe eo show ?thesis
        using loop_correct_stop [of g h ?g' out n] by (simp add: guard_stream_open)
    next
      case False
      have "loop_correct n (out @ h) ?g' (guard_loop n (out @ h) ?g')"
        using 1(1) [of h ?g'] prefix False s(2) pe eo n hl by (simp add: h_def)
      with s(1) False r show ?thesis by (simp add: loop_correct_prepend)
    qed
  next
    case payload
    let ?m = "min (n - length out) (fg_frame_remaining g)"
    obtain bs e src where rd: "read ?m (fg_source g) = ((bs, e), src)" by (metis surj_pair)
    have m: "0 < ?m" "?m \<le> fg_frame_remaining g" using payload by simp_all
    have "length bs \<le> n - length out" using read_length [OF rd] by simp
    then have bl: "length (out @ bs) \<le> n" using payload(1) by simp
    let ?g1 = "g\<lparr>fg_source := src, fg_frame_remaining := fg_frame_remaining g - length bs\<rparr>"
    show ?thesis
    proof (cases e)
      case (Some err)
      note s = stream_payload_Some [OF ok payload(2,3) m(2) rd [unfolded Some]]
      define err' where "err' = (if error_is err EOF \<and> fg_frame_remaining g - length bs > 0 then truncated_ciphertext else err)"
      have r: "guard_loop n out g = (if out @ bs \<noteq> [] then ((out @ bs, None), ?g1\<lparr>fg_pending_error := Some err'\<rparr>)
          else (([], Some err'), ?g1))"
        using payload rd Some by (subst guard_loop.simps) (simp add: err'_def Let_def)
      show ?thesis
      proof (cases "out @ bs = []")
        case True
        then show ?thesis
          using r s(1) loop_correct_error [of g "[]" err' out n ?g1] by (simp add: err'_def)
      next
        case False
        have "loop_correct n out g ((out @ bs, None), ?g1\<lparr>fg_pending_error := Some err'\<rparr>)"
          using s(1) bl False by (intro loop_correct_stop) (simp_all add: guard_stream_def err'_def)
        with False r show ?thesis by simp
      qed
    next
      case None
      let ?g2 = "if bs \<noteq> [] \<and> fg_frame_remaining ?g1 = 0 then ?g1\<lparr>fg_header_offset := 0, fg_header := zero_prefix\<rparr> else ?g1"
      note s = stream_payload_None [OF ok payload(2,3) m rd [unfolded None]]
      have r: "guard_loop n out g = guard_loop n (out @ bs) ?g2"
        using payload rd None by (subst guard_loop.simps) (simp add: Let_def)
      have "loop_correct n (out @ bs) ?g2 (guard_loop n (out @ bs) ?g2)"
      proof (cases "bs = []")
        case True
        with 1(2) [OF _ payload(2,3) rd [symmetric] refl refl refl None] payload(1) s(2) pe eo len n
        show ?thesis by simp
      next
        case False
        show ?thesis
        proof (cases "fg_frame_remaining ?g1 = 0")
          case True
          with 1(3) [OF _ payload(2,3) rd [symmetric] refl refl refl None False] False payload(1) s(2) pe eo bl n
          show ?thesis by simp
        next
          case 2: False
          with 1(4) [OF _ payload(2,3) rd [symmetric] refl refl refl None False] False payload(1) s(2) pe eo bl n
          show ?thesis by simp
        qed
      qed
      with s(1) r show ?thesis by (simp only: loop_correct_prepend)
    qed
  next
    case header
    obtain d e src where rd: "read_full 4 (fg_source g) = (d, e, src)" by (metis surj_pair)
    let ?g1 = "g\<lparr>fg_source := src, fg_header := overwrite_prefix (fg_header g) d\<rparr>"
    show ?thesis
    proof (cases e)
      case (Some err)
      note s = stream_header_Some [OF ok header(2,3) rd [unfolded Some]]
      have r: "guard_loop n out g =
          (if error_is err EOF \<and> d = []
           then (if out \<noteq> [] then ((out, None), ?g1\<lparr>fg_eof := True\<rparr>) else (([], Some (Sent EOF)), ?g1\<lparr>fg_eof := True\<rparr>))
           else if out \<noteq> [] then ((out, None), ?g1\<lparr>fg_pending_error := Some truncated_prefix\<rparr>)
           else (([], Some truncated_prefix), ?g1))"
        using header rd Some by (subst guard_loop.simps) (simp add: Let_def)
      have "loop_correct n out g ((out @ [], None), ?g1\<lparr>fg_eof := True\<rparr>)" if "error_is err EOF \<and> d = []" "out \<noteq> []"
        using s(1) len that pe by (intro loop_correct_stop) (simp_all add: guard_stream_def)
      moreover have "loop_correct n out g ((out @ [], None), ?g1\<lparr>fg_pending_error := Some truncated_prefix\<rparr>)"
        if "\<not> (error_is err EOF \<and> d = [])" "out \<noteq> []"
        using s(1) len that by (intro loop_correct_stop) (simp_all add: guard_stream_def)
      moreover have "loop_correct n out g (([] , Some (Sent EOF)), g')" if "error_is err EOF \<and> d = []" "out = []" for g'
        using s(1) that by (simp add: loop_correct_def)
      moreover have "loop_correct n out g (([] , Some truncated_prefix), g')"
        if "\<not> (error_is err EOF \<and> d = [])" "out = []" for g'
        using s(1) that by (simp add: loop_correct_def)
      ultimately show ?thesis unfolding r by simp
    next
      case None
      define l where "l = be_uint32 (fg_header ?g1)"
      note s = stream_header_None [OF ok header(2,3) rd [unfolded None]]
      let ?g2 = "?g1\<lparr>fg_frame_remaining := l, fg_header_offset := 0\<rparr>"
      have r: "guard_loop n out g = (if l = 0 then ((out, Some zero_frame), ?g1)
          else if l > maxEncryptedResponseFrame then ((out, Some oversized_frame), ?g1) else guard_loop n out ?g2)"
        using header rd None by (subst guard_loop.simps) (simp add: Let_def l_def)
      consider (bad) "l = 0 \<or> maxEncryptedResponseFrame < l" | (good) "0 < l" "l \<le> maxEncryptedResponseFrame"
        by linarith
      then show ?thesis
      proof cases
        case bad
        then have "source_stream g = ([], False)" using s(1) by (simp add: l_def)
        then have "loop_correct n out g ((out @ [], Some zero_frame), ?g1)"
          "loop_correct n out g ((out @ [], Some oversized_frame), ?g1)"
          using len by (intro loop_correct_error; simp)+
        then show ?thesis unfolding r using bad by auto
      next
        case good
        have g2: "source_stream g = source_stream ?g2" "guard_ok ?g2" using s(2) good by (simp_all add: l_def)
        have "loop_correct n out ?g2 (guard_loop n out ?g2)"
          using 1(5) [OF _ header(2) _ rd [symmetric] refl refl None l_def] header good g2(2) pe eo len n by simp
        with good r g2(1) show ?thesis
          using loop_correct_prepend [of n out "[]" ?g2 _ g] by simp
      qed
    qed
  qed
qed

section \<open>Reading to the end\<close>

definition guard_inv :: "frame_guard \<Rightarrow> bool" where
  "guard_inv g \<longleftrightarrow> (fg_pending_error g = None \<and> \<not> fg_eof g \<longrightarrow> guard_ok g)"

lemma guard_read_correct:
  assumes "guard_inv g" "0 < n" "guard_read n g = ((out, err), g')"
  shows "length out \<le> n" "err = None \<Longrightarrow> out \<noteq> [] \<and> guard_stream g = prepend out (guard_stream g') \<and> guard_inv g'"
    "err = Some e \<Longrightarrow> guard_stream g = (out, error_is e EOF)"
proof -
  have "length out \<le> n \<and> (err = None \<longrightarrow> out \<noteq> [] \<and> guard_stream g = prepend out (guard_stream g') \<and> guard_inv g') \<and>
      (\<forall>e. err = Some e \<longrightarrow> guard_stream g = (out, error_is e EOF))"
  proof (cases "fg_pending_error g = None \<and> \<not> fg_eof g")
    case True
    then have "loop_correct n [] g ((out, err), g')" "guard_stream g = source_stream g"
      using guard_loop_correct [of g "[]" n] assms by (simp_all add: guard_read_def guard_inv_def guard_stream_open)
    then show ?thesis by (auto simp: loop_correct_def guard_inv_def split: option.splits)
  next
    case False
    show ?thesis
    proof (cases "fg_pending_error g")
      case None
      with False assms show ?thesis by (auto simp: guard_read_def guard_stream_def)
    next
      case (Some a)
      then have "out = []" "err = Some a" using assms(2,3) by (auto simp: guard_read_def)
      with Some show ?thesis by (simp add: guard_stream_def)
    qed
  qed
  then show "length out \<le> n" "err = None \<Longrightarrow> out \<noteq> [] \<and> guard_stream g = prepend out (guard_stream g') \<and> guard_inv g'"
    "err = Some e \<Longrightarrow> guard_stream g = (out, error_is e EOF)"
    by blast+
qed

text \<open>A consumer that reads with buffers of the given sizes and stops at the first error.\<close>

fun guard_reads :: "nat list \<Rightarrow> frame_guard \<Rightarrow> bytes \<times> error option" where
  "guard_reads [] g = ([], None)"
| "guard_reads (n # ns) g = (case guard_read n g of
     ((out, Some e), g') \<Rightarrow> (out, Some e)
   | ((out, None), g') \<Rightarrow> (case guard_reads ns g' of (out', e) \<Rightarrow> (out @ out', e)))"

lemma guard_reads_correct:
  assumes "guard_inv g" "\<forall>n\<in>set ns. 0 < n" "guard_reads ns g = (out, err)"
  shows "case err of
      None \<Rightarrow> length ns \<le> length out \<and> (\<exists>rest. guard_stream g = prepend out rest)
    | Some e \<Rightarrow> guard_stream g = (out, error_is e EOF)"
  using assms
proof (induction ns g arbitrary: out err rule: guard_reads.induct)
  case (2 n ns g)
  obtain o1 e1 g1 where r: "guard_read n g = ((o1, e1), g1)" by (metis surj_pair)
  note c = guard_read_correct [OF 2(2) _ r]
  show ?case
  proof (cases e1)
    case None
    obtain o2 where o2: "guard_reads ns g1 = (o2, err)" "out = o1 @ o2"
      using 2(4) r None by (auto split: prod.splits)
    have n: "0 < n" using 2(3) by simp
    have s: "o1 \<noteq> []" "guard_stream g = prepend o1 (guard_stream g1)" "guard_inv g1" using c(2) [OF n None] by auto
    from 2(1) [OF r [symmetric] refl None s(3) _ o2(1)] 2(3)
    have "case err of None \<Rightarrow> length ns \<le> length o2 \<and> (\<exists>rest. guard_stream g1 = prepend o2 rest)
        | Some e \<Rightarrow> guard_stream g1 = (o2, error_is e EOF)" by simp
    moreover obtain c cs where "o1 = c # cs" using s(1) by (cases o1) auto
    ultimately show ?thesis using s(2) o2(2) by (auto split: option.splits)
  next
    case (Some e)
    then have "out = o1" "err = Some e" using 2(4) r by simp_all
    then show ?thesis using c(3) [OF _ Some] 2(3) by simp
  qed
qed auto

lemma guard_new:
  assumes "final_errors src" "drain src = (d, e)"
  shows "guard_inv (new_frame_guard src)" "guard_stream (new_frame_guard src) = frame_stream d e"
  using assms by (simp_all add: guard_inv_def guard_ok_def new_frame_guard_def guard_stream_def source_stream_def in_prefix_def)

text \<open>The delivered bytes are a prefix of the source's.\<close>

lemma frame_stream_prefix: "\<exists>rest. d = fst (frame_stream d e) @ rest"
proof (induction d e rule: frame_stream.induct)
  case (1 d e)
  show ?case
  proof (cases "4 \<le> length d \<and> be_uint32 (to_prefix d) \<noteq> 0 \<and> \<not> maxEncryptedResponseFrame < be_uint32 (to_prefix d) \<and>
      \<not> length d < 4 + be_uint32 (to_prefix d)")
    case True
    define l where "l = be_uint32 (to_prefix d)"
    have s: "frame_stream d e = prepend (take (4 + l) d) (frame_stream (drop (4 + l) d) e)"
      using True by (subst frame_stream.simps) (auto simp: Let_def l_def simp del: to_prefix.simps)
    obtain rest where "drop (4 + l) d = fst (frame_stream (drop (4 + l) d) e) @ rest"
    proof -
      have "\<not> (d = [] \<and> is_eof e)" "\<not> length d < 4" "\<not> (l = 0 \<or> maxEncryptedResponseFrame < l)" "\<not> length d < 4 + l"
        using True by (auto simp: l_def simp del: to_prefix.simps)
      from 1 [OF this(1,2) l_def this(3,4)] that show ?thesis by blast
    qed
    then have "d = fst (frame_stream d e) @ rest"
      unfolding s by (metis append_assoc append_take_drop_id fst_conv prepend_def)
    then show ?thesis by blast
  next
    case False
    then have "fst (frame_stream d e) = [] \<or> fst (frame_stream d e) = d"
      by (subst (1 2) frame_stream.simps) (auto simp: Let_def simp del: to_prefix.simps)
    then show ?thesis by auto
  qed
qed

section \<open>The same in terms of frames\<close>

text \<open>
  The wire format, written down apart from the reader: a frame is a length in four bytes, big-endian,
  between 1 and 67108864 (64 MiB), and as many bytes as it says. A stream \<open>opens\<close> a frame when it starts with such
  a length and has fewer bytes than it says. The guard delivers every complete frame and then the
  frame that was opened and cut short, because its bytes have gone out before the end is met; nothing
  of a cut prefix or of a frame of a forbidden length goes out.
\<close>

fun announced :: "bytes \<Rightarrow> nat" where
  "announced (a # b # c # x # _) = ((ord_of a * 256 + ord_of b) * 256 + ord_of c) * 256 + ord_of x"
| "announced _ = 0"

definition is_frame :: "bytes \<Rightarrow> bool" where
  "is_frame f \<longleftrightarrow> 1 \<le> announced f \<and> announced f \<le> 67108864 \<and> length f = 4 + announced f"

definition opens_frame :: "bytes \<Rightarrow> bool" where
  "opens_frame t \<longleftrightarrow> 1 \<le> announced t \<and> announced t \<le> 67108864 \<and> length t < 4 + announced t"

definition delivered :: "bytes list \<Rightarrow> bytes \<Rightarrow> bytes" where
  "delivered fs tail = concat fs @ (if opens_frame tail then tail else [])"

lemma announced_short: "length d < 4 \<Longrightarrow> announced d = 0"
  by (cases d rule: announced.cases) auto

lemma announced_prefix: "\<not> length d < 4 \<Longrightarrow> be_uint32 (to_prefix d) = announced d"
proof -
  assume "\<not> length d < 4"
  then obtain a b c x r where "d = a # b # c # x # r" by (cases d rule: announced.cases) auto
  then show ?thesis
    by (simp only: announced.simps to_prefix.simps overwrite_prefix.simps be_uint32.simps zero_prefix_def)
qed

lemma announced_append: "\<not> length d < 4 \<Longrightarrow> announced (d @ r) = announced d"
  by (cases d rule: announced.cases) auto

lemma announced_take: "announced (take (4 + k) d) = announced d"
proof -
  have "4 + k = Suc (Suc (Suc (Suc k)))" by simp
  then show ?thesis by (cases d rule: announced.cases) (simp_all only: announced.simps take_Suc_Cons take_Nil)
qed

lemma frame_stream_frames:
  "\<exists>fs tail. d = concat fs @ tail \<and> list_all is_frame fs \<and> (\<forall>f rest. tail = f @ rest \<longrightarrow> \<not> is_frame f) \<and>
     frame_stream d e = (delivered fs tail, tail = [] \<and> is_eof e)"
proof (induction d e rule: frame_stream.induct)
  case (1 d e)
  let ?l = "announced d"
  have nf: "\<not> is_frame f" if "d = f @ rest" "length d < 4 \<or> ?l = 0 \<or> ?l > 67108864 \<or> length d < 4 + ?l" for f rest
  proof
    assume f: "is_frame f"
    then have "\<not> length f < 4" by (simp add: is_frame_def)
    from announced_append [OF this] f that show False by (auto simp: is_frame_def)
  qed
  show ?case
  proof (cases "length d < 4 \<or> ?l = 0 \<or> ?l > 67108864 \<or> length d < 4 + ?l")
    case True
    then have "frame_stream d e = (if opens_frame d then d else [], d = [] \<and> is_eof e)"
      using announced_short [of d] announced_prefix [of d]
      by (subst frame_stream.simps) (auto simp: opens_frame_def Let_def maxEncryptedResponseFrame_def simp del: to_prefix.simps)
    with True nf show ?thesis by (intro exI [of _ "[]"] exI [of _ d]) (auto simp: delivered_def)
  next
    case False
    then have p: "be_uint32 (to_prefix d) = ?l" by (simp add: announced_prefix del: to_prefix.simps)
    from False have "d \<noteq> []" by auto
    with False p have c: "\<not> (d = [] \<and> is_eof e)" "\<not> length d < 4" "\<not> (?l = 0 \<or> maxEncryptedResponseFrame < ?l)"
      "\<not> length d < 4 + ?l" by (auto simp: maxEncryptedResponseFrame_def)
    obtain fs tail where t: "drop (4 + ?l) d = concat fs @ tail" "list_all is_frame fs"
      "\<forall>f rest. tail = f @ rest \<longrightarrow> \<not> is_frame f"
      "frame_stream (drop (4 + ?l) d) e = (delivered fs tail, tail = [] \<and> is_eof e)"
      using 1 [OF c(1,2) p [symmetric] c(3,4)] by blast
    have "frame_stream d e = prepend (take (4 + ?l) d) (frame_stream (drop (4 + ?l) d) e)"
      using c p by (subst frame_stream.simps) (auto simp: Let_def simp del: to_prefix.simps)
    moreover have "is_frame (take (4 + ?l) d)"
      using False by (auto simp: is_frame_def announced_take)
    moreover have "d = take (4 + ?l) d @ drop (4 + ?l) d" by (rule append_take_drop_id [symmetric])
    ultimately show ?thesis using t
      by (intro exI [of _ "take (4 + ?l) d # fs"] exI [of _ tail]) (simp add: delivered_def)
  qed
qed

section \<open>Problem responses\<close>

record bounded_reader =
  br_source :: reader
  br_remaining :: nat
  br_checked :: bool

definition problem_too_long :: error where
  "problem_too_long = Msg ''EHBP problem response exceeds 65536 bytes''"

definition bounded_read :: "nat \<Rightarrow> bounded_reader \<Rightarrow> (bytes \<times> error option) \<times> bounded_reader" where
  "bounded_read n b =
     (if br_remaining b > 0
      then (case read (min n (br_remaining b)) (br_source b) of ((bs, e), src) \<Rightarrow>
        ((bs, e), b\<lparr>br_source := src, br_remaining := br_remaining b - length bs\<rparr>))
      else if br_checked b then (([], Some problem_too_long), b)
      else (case read 1 (br_source b) of ((bs, e), src) \<Rightarrow>
        (if bs \<noteq> [] then (([], Some problem_too_long), b\<lparr>br_source := src, br_checked := True\<rparr>)
         else (([], e), b\<lparr>br_source := src, br_checked := True\<rparr>))))"

text \<open>A consumer as before, which here may also meet reads of nothing.\<close>

fun bounded_reads :: "nat list \<Rightarrow> bounded_reader \<Rightarrow> bytes \<times> error option" where
  "bounded_reads [] b = ([], None)"
| "bounded_reads (n # ns) b = (case bounded_read n b of
     ((out, Some e), b') \<Rightarrow> (out, Some e)
   | ((out, None), b') \<Rightarrow> (case bounded_reads ns b' of (out', e) \<Rightarrow> (out @ out', e)))"

lemma bounded_read_length:
  "bounded_read n b = ((out, e), b') \<Longrightarrow> length out + br_remaining b' = br_remaining b"
  using read_length [of "min n (br_remaining b)" "br_source b"]
  by (auto simp: bounded_read_def split: if_splits prod.splits)

lemma bounded_reads_length: "bounded_reads ns b = (out, e) \<Longrightarrow> length out \<le> br_remaining b"
proof (induction ns b arbitrary: out e rule: bounded_reads.induct)
  case (2 n ns b)
  obtain o1 e1 b1 where r: "bounded_read n b = ((o1, e1), b1)" by (metis surj_pair)
  note l = bounded_read_length [OF r]
  show ?case
  proof (cases e1)
    case None
    obtain o2 e2 where "bounded_reads ns b1 = (o2, e2)" by force
    with 2(1) [OF r [symmetric] refl None this] 2(2) r None l show ?thesis by auto
  qed (use 2(2) r l in simp)
qed simp

text \<open>Up to the limit the reader is transparent: what it delivers is what the source holds.\<close>

lemma bounded_read_source:
  assumes "bounded_read n b = ((out, e), b')" "final_errors (br_source b)" "0 < n" "\<not> br_checked b"
    "0 < br_remaining b"
  shows "e = None \<Longrightarrow> drain (br_source b) = (out @ fst (drain (br_source b')), snd (drain (br_source b'))) \<and>
      final_errors (br_source b') \<and> \<not> br_checked b'"
    "e = Some err \<Longrightarrow> drain (br_source b) = (out, eof_none err)"
proof -
  obtain bs e0 src where r: "read (min n (br_remaining b)) (br_source b) = ((bs, e0), src)" by (metis surj_pair)
  have b: "out = bs" "e = e0" "b' = b\<lparr>br_source := src, br_remaining := br_remaining b - length bs\<rparr>"
    using assms(1,5) r by (auto simp: bounded_read_def)
  show "drain (br_source b) = (out @ fst (drain (br_source b')), snd (drain (br_source b'))) \<and>
      final_errors (br_source b') \<and> \<not> br_checked b'" if "e = None"
  proof -
    have r0: "read (min n (br_remaining b)) (br_source b) = ((bs, None), src)" using r b(2) that by simp
    have m: "0 < min n (br_remaining b)" using assms(3,5) by simp
    show ?thesis using read_None [OF r0 assms(2) m] b(1,3) assms(4) by simp
  qed
  show "drain (br_source b) = (out, eof_none err)" if "e = Some err"
  proof -
    have r0: "read (min n (br_remaining b)) (br_source b) = ((bs, Some err), src)" using r b(2) that by simp
    show ?thesis using read_Some(1) [OF r0 assms(2)] b(1) by simp
  qed
qed

section \<open>The guarding transport\<close>

text \<open>
  A response body as the guard hands it on: the raw one, or one with a frame guard around it, and
  either of them with the bound of problem responses around it.
\<close>

datatype guarded_body =
    Plain reader
  | Framed frame_guard
  | BoundedPlain bounded_reader
  | BoundedFramed frame_guard nat bool

record guarded_response =
  gr_status :: int
  gr_header :: header
  gr_body :: guarded_body

definition canonicalResponseNonce :: "string \<Rightarrow> bool" where
  "canonicalResponseNonce encoded =
     (if length encoded \<noteq> 64 then False
      else (case hex_decode encoded of
        Inl _ \<Rightarrow> False
      | Inr decoded \<Rightarrow> length decoded = 32 \<and> hex_encode decoded = encoded))"

definition isMediaType :: "string \<Rightarrow> string \<Rightarrow> bool" where
  "isMediaType value expected = (case parse_media_type value of
     None \<Rightarrow> False
   | Some mediaType \<Rightarrow> to_lower mediaType = to_lower expected)"

definition invalid_nonce_header :: error where
  "invalid_nonce_header = Msg ''invalid EHBP response nonce header''"

definition guard_response :: "ehbp_protocol \<Rightarrow> http_response \<Rightarrow> guarded_response result" where
  "guard_response proto r =
     (let responseNonces = header_values (resp_header r) (ResponseNonceHeader proto);
          problem = (resp_status r = 422 \<and>
            isMediaType (header_get (resp_header r) ''Content-Type'') (ProblemJSONMediaType proto))
      in if 0 < length responseNonces \<and>
            (length responseNonces \<noteq> 1 \<or> \<not> canonicalResponseNonce (hd responseNonces))
         then Inl invalid_nonce_header
         else Inr \<lparr>gr_status = resp_status r, gr_header = resp_header r, gr_body =
           (if length responseNonces = 1
            then (if problem then BoundedFramed (new_frame_guard (resp_body r)) maxProblemResponseBody False
                  else Framed (new_frame_guard (resp_body r)))
            else (if problem
                  then BoundedPlain \<lparr>br_source = resp_body r, br_remaining = maxProblemResponseBody, br_checked = False\<rparr>
                  else Plain (resp_body r)))\<rparr>)"

text \<open>\<open>RoundTrip\<close>, over the transport below it (without redirects, which are the client's business).\<close>

definition guarding_RoundTrip ::
    "ehbp_protocol \<Rightarrow> ('q \<Rightarrow> 'w \<Rightarrow> http_response result \<times> 'w) \<Rightarrow> 'q \<Rightarrow> 'w \<Rightarrow> guarded_response result \<times> 'w" where
  "guarding_RoundTrip proto next_rt request w = (case next_rt request w of
     (Inl e, w') \<Rightarrow> (Inl e, w')
   | (Inr r, w') \<Rightarrow> (guard_response proto r, w'))"

lemma canonicalResponseNonce_iff: "canonicalResponseNonce s \<longleftrightarrow> length s = 64 \<and> list_all is_lower_hex s"
proof
  assume "canonicalResponseNonce s"
  then obtain d where "hex_encode d = s" "length s = 64"
    by (auto simp: canonicalResponseNonce_def split: if_splits sum.splits)
  then show "length s = 64 \<and> list_all is_lower_hex s" using hex_encode_lower [of d] by simp
next
  assume a: "length s = 64 \<and> list_all is_lower_hex s"
  then have "even (length s)" by simp
  then obtain d where "hex_decode s = Inr d" "hex_encode d = s"
    using a hex_canonical_iff [of s] by auto
  then show "canonicalResponseNonce s"
    using a hex_decode_length [of s d] by (simp add: canonicalResponseNonce_def)
qed

section \<open>Properties\<close>

text \<open>A reply of one frame and a truncated prefix, for the witnesses.\<close>

definition two_frames :: reader where
  "two_frames = [([CHR 0x00, CHR 0x00], None), ([CHR 0x00, CHR 0x01, CHR ''a''], None), ([CHR 0x00, CHR 0x00, CHR 0x00], None)]"

lemma two_frames_stream:
  "final_errors two_frames"
  "drain two_frames = ([CHR 0x00, CHR 0x00, CHR 0x00, CHR 0x01, CHR ''a'', CHR 0x00, CHR 0x00, CHR 0x00], None)"
  "frame_stream [CHR 0x00, CHR 0x00, CHR 0x00, CHR 0x01, CHR ''a'', CHR 0x00, CHR 0x00, CHR 0x00] None =
     ([CHR 0x00, CHR 0x00, CHR 0x00, CHR 0x01, CHR ''a''], False)"
proof -
  have z: "frame_stream [CHR 0x00, CHR 0x00, CHR 0x00] None = ([], False)" by (subst frame_stream.simps) simp
  show "frame_stream [CHR 0x00, CHR 0x00, CHR 0x00, CHR 0x01, CHR ''a'', CHR 0x00, CHR 0x00, CHR 0x00] None =
      ([CHR 0x00, CHR 0x00, CHR 0x00, CHR 0x01, CHR ''a''], False)"
    by (subst frame_stream.simps) (simp add: z zero_prefix_def maxEncryptedResponseFrame_def)
qed (simp_all add: two_frames_def)

text \<open>A reply cut in the middle of its first frame: the length and one byte of two.\<close>

definition cut_frame :: bytes where
  "cut_frame = [CHR 0x00, CHR 0x00, CHR 0x00, CHR 0x02, CHR ''a'']"

lemma cut_frame_split:
  assumes "cut_frame = concat fs @ tail" "list_all is_frame fs"
  shows "fs = []" "tail = cut_frame" "delivered fs tail = cut_frame"
proof -
  have a: "announced cut_frame = 2" "length cut_frame = 5" by (simp_all add: cut_frame_def)
  show "fs = []"
  proof (cases fs)
    case (Cons f gs)
    then have f: "is_frame f" "cut_frame = f @ (concat gs @ tail)" using assms by auto
    then have "\<not> length f < 4" by (simp add: is_frame_def)
    from announced_append [OF this] f a have "announced f = 2" by metis
    with f(1) have "length f = 6" by (simp add: is_frame_def)
    moreover have "length f \<le> length cut_frame" by (subst f(2)) simp
    ultimately show ?thesis using a(2) by simp
  qed simp
  with assms show "tail = cut_frame" by simp
  with a \<open>fs = []\<close> show "delivered fs tail = cut_frame" by (simp add: delivered_def opens_frame_def)
qed

text \<open>C7: Split the source into its complete frames, each a four-byte big-endian length between 1 and 67108864
  and that many bytes, and the rest after the last of them. Reading through the guard, whatever the sizes of the
  reads and of the pieces, delivers a prefix of the complete frames followed by the rest if the rest is the start of a
  frame of permitted length with its length prefix complete (and by nothing of the rest otherwise); when reading stops,
  all of that has been delivered, and it stops with the end of the stream exactly when there is no rest and the
  source itself ended without an error, otherwise with another error.\<close>

theorem guard_delivers_frames:
  assumes "final_errors src" "drain src = (d, e)" "\<forall>n\<in>set ns. 0 < n"
  shows "\<exists>fs tail. d = concat fs @ tail \<and> list_all is_frame fs \<and> (\<forall>f rest. tail = f @ rest \<longrightarrow> \<not> is_frame f) \<and>
    (case guard_reads ns (new_frame_guard src) of
      (out, None) \<Rightarrow> length ns \<le> length out \<and> (\<exists>rest. delivered fs tail = out @ rest)
    | (out, Some err) \<Rightarrow> out = delivered fs tail \<and> (error_is err EOF \<longleftrightarrow> tail = [] \<and> is_eof e))"
proof -
  obtain out err where g: "guard_reads ns (new_frame_guard src) = (out, err)" by force
  note c = guard_reads_correct [OF guard_new(1) [OF assms(1,2)] assms(3) g, unfolded guard_new(2) [OF assms(1,2)]]
  obtain fs tail where f: "d = concat fs @ tail" "list_all is_frame fs" "\<forall>f rest. tail = f @ rest \<longrightarrow> \<not> is_frame f"
    "frame_stream d e = (delivered fs tail, tail = [] \<and> is_eof e)"
    using frame_stream_frames [of d e] by blast
  have "case err of None \<Rightarrow> length ns \<le> length out \<and> (\<exists>rest. delivered fs tail = out @ rest)
    | Some err \<Rightarrow> out = delivered fs tail \<and> (error_is err EOF \<longleftrightarrow> tail = [] \<and> is_eof e)"
    using c unfolding f(4) by (cases err) (auto simp: prepend_def)
  with f(1-3) show ?thesis unfolding g prod.case by blast
qed

theorem guard_delivers_frames_witness:
  "\<exists>err. guard_reads (replicate 6 1) (new_frame_guard [(cut_frame, None)]) = (cut_frame, Some err) \<and> \<not> error_is err EOF"
proof -
  have "final_errors [(cut_frame, None)]" "drain [(cut_frame, None)] = (cut_frame, None)" by simp_all
  from guard_delivers_frames [OF this, of "replicate 6 1"]
  obtain fs tail where f: "cut_frame = concat fs @ tail" "list_all is_frame fs"
    "case guard_reads (replicate 6 1) (new_frame_guard [(cut_frame, None)]) of
      (out, None) \<Rightarrow> 6 \<le> length out \<and> (\<exists>rest. delivered fs tail = out @ rest)
    | (out, Some err) \<Rightarrow> out = delivered fs tail \<and> (error_is err EOF \<longleftrightarrow> tail = [] \<and> is_eof None)" by auto
  have "length cut_frame = 5" "cut_frame \<noteq> []" by (simp_all add: cut_frame_def)
  moreover have "delivered fs tail = cut_frame" "tail \<noteq> []"
    using cut_frame_split(2,3) [OF f(1,2)] calculation by simp_all
  moreover have "\<not> 6 \<le> length x" if "cut_frame = x @ rest" for x rest
    using arg_cong [OF that, of length] calculation(1) by simp
  ultimately show ?thesis using f(3) by (auto split: prod.splits option.splits)
qed

text \<open>C31: A guarded stream ends: more reads than the source has bytes always reach the end or an error.\<close>

theorem guard_ends:
  assumes "final_errors src" "drain src = (d, e)" "\<forall>n\<in>set ns. 0 < n" "length d < length ns"
  shows "\<exists>out err. guard_reads ns (new_frame_guard src) = (out, Some err) \<and> frame_stream d e = (out, error_is err EOF)"
proof -
  obtain out err where g: "guard_reads ns (new_frame_guard src) = (out, err)" by force
  note c = guard_reads_correct [OF guard_new(1) [OF assms(1,2)] assms(3) g, unfolded guard_new(2) [OF assms(1,2)]]
  show ?thesis
  proof (cases err)
    case None
    with c obtain rest where r: "length ns \<le> length out" "fst (frame_stream d e) = out @ rest" by (auto simp: prepend_def)
    obtain rest' where "d = fst (frame_stream d e) @ rest'" using frame_stream_prefix by blast
    then have "length (fst (frame_stream d e)) \<le> length d" by (metis length_append le_add1)
    with r assms(4) show ?thesis by simp
  next
    case (Some e)
    with c g show ?thesis by simp
  qed
qed

theorem guard_ends_witness:
  "\<exists>out err. guard_reads (replicate 9 1) (new_frame_guard two_frames) = (out, Some err) \<and>
     out = [CHR 0x00, CHR 0x00, CHR 0x00, CHR 0x01, CHR ''a''] \<and> \<not> error_is err EOF"
proof -
  show ?thesis
    using guard_ends [OF two_frames_stream(1,2), of "replicate 9 1", unfolded two_frames_stream(3)] by auto
qed

text \<open>However the body of a problem response is read, no more than the allowed number of bytes comes out.\<close>

theorem problem_body_bounded: "length (fst (bounded_reads ns b)) \<le> br_remaining b"
  by (cases "bounded_reads ns b") (simp add: bounded_reads_length)

text \<open>C40: The transport refuses a reply exactly when it carries a response nonce header that is not one canonical
  lower-case hexadecimal value of 32 bytes.\<close>

theorem nonce_header_checked:
  "guard_response proto r = Inl e \<longleftrightarrow> e = invalid_nonce_header \<and>
     header_values (resp_header r) (ResponseNonceHeader proto) \<noteq> [] \<and>
     (\<nexists>s. header_values (resp_header r) (ResponseNonceHeader proto) = [s] \<and> length s = 64 \<and> list_all is_lower_hex s)"
  apply (cases "header_values (resp_header r) (ResponseNonceHeader proto)")
   apply (auto simp: guard_response_def Let_def canonicalResponseNonce_iff)
  done

end
