(* ===== verification/Spec2Isabelle.thy ===== *)
theory Spec2Isabelle
  imports Proxy InProcessConc FrameGuard
begin

text \<open>
  A verification development of the Dappnode Nexus SDK (the Go module at the root of src/).

  The program. Nexus is a client for a confidential inference gateway. Before a prompt leaves the process,
  the client asks the gateway for an AWS Nitro attestation bound to a fresh nonce, checks the signed document
  against a pinned trust policy, takes the encryption key from it, and only then encrypts request bodies with
  that key (EHBP). The trust policy is a file, a text, or is derived from release manifests signed by the
  release workflow (Sigstore). Local programs talk to an OpenAI-compatible handler, in process or through the
  command line proxy, and a ledger keeps a bounded history of attestations and requests, in memory and in a
  state file.

  Values. Go strings and byte slices are lists of 8-bit characters; errors are values (theory Prelude), and a
  function returning (T, error) returns a sum with the error on the left; a time is a number of nanoseconds
  since the zero time, a duration an int64 number of nanoseconds; counters that wrap are machine words. The
  network, the clock, the random source and the disk are a world that the operations pass on; the network is
  an arbitrary transport on it, so every theorem about the world holds for every behaviour of the network.

  The Go library. GoText (trimming, media types, header keys), GoIO (readers as scripts of deliveries), GoNet
  (URLs, IP addresses, host and port), GoTime (RFC 3339), GoHttp (requests, responses, redirects), GoFS (files
  and the temporary-file-and-rename sequence, each call of which may fail), Encoding (hex, base64), Json,
  JsonCodec, JsonStruct, JsonRoundtrip (encoding/json: the grammar, decoding with unknown members refused,
  encoding, and that decoding inverts encoding) and Sha2 (SHA-256 and SHA-384 on words) model what the code
  uses of the standard library. The readers, maps and strings of the model compute.

  The components, in the order of the imports:
    JsonUtil        internal/jsonutil/json.go: strict decoding, bounded reading
    Policy          internal/attestation/policy.go: the trust policy, its parsing, its invariant wf_policy
    Verifier        internal/attestation/verifier.go: fetch, validate, SetPolicy; invariant wf_verifier
    Ledger, Store   internal/ledger/ledger.go and store.go; StoreRoundtrip: what survives a restart;
                    FlushConc: overlapping flushes as interleavings of the three critical sections of Flush
    FrameGuard      internal/confidential/frame_guard.go: the reader that checks the frames of a response
    Describe        internal/confidential/describe.go: the ledger record of accepted evidence
    Session         internal/confidential/client.go: sessionFor, Do, Reverify, WarmUp; SessionSafety: one
                    request at a time; SessionConc: any number of requests in flight, as a step relation
    Manifest, ReleaseVerify, ReleaseCache, ReleaseSource   internal/release/: the signed manifest, its
                    verification, the cache file, discovery and download; ReleaseSafety: its guarantees
    Documents       canonical encodings of the documents the gateway and the release host publish, and that
                    the decoders read them back
    Sse, Handler    internal/proxy/handler.go and verification.go; HandlerSafety: its guarantees
    Catalog         internal/catalog/catalog.go
    PolicyRefresh   policy_refresh.go: the verifier that refreshes its policy at an unpinned release
    PublicTypes     verification.go: the public copies of the ledger's records
    Nexus           client.go: New, Verify, Verification, Evidence, Flush, Close, the in-process client;
                    InProcess: its response writer; InProcessConc: the goroutines of its transport, as a step
                    relation; NexusSafety: the invariant of the whole client; Restart: what the next New finds
    Cmd, Proxy      cmd/nexus-proxy/main.go: flags, listen address, run; the life of the process as a step
                    relation (server, ticker, signal, shutdown, deferred Close), with every flush as its three
                    critical sections; its runs without overlapping flushes simulate those of FlushConc
    Scenario        one concrete world in which all of it runs, for the witnesses
  A record of the model is a struct of the code with its fields in the code's order, and a definition has the
  name of its function; a suffix or prefix (Nexus_Verify, Release_Verify, Source_Policy) separates methods of
  one name. Names the model adds are the bodies of loops and the straight-line parts of a long function
  (stream_loop, exchange_and_record, start_client), which are composed as the function composes them.

  Interfaces. The locale evidence_verifier (Session) is what the confidential client needs of its verifier: an
  invariant it keeps, and that evidence it returns is accepted. It is interpreted on the plain verifier, on
  the refreshing one (PolicyRefresh) and on the two together as New builds them (NexusSafety). release_cache
  (ReleaseCache) is what the release source needs of a cache, interpreted on the cache file. handler_world
  (HandlerSafety) and handler_keeps (NexusSafety) are what the handler needs of its sender and its ledger,
  interpreted on the handler of the client, for the invariant of the client and again for its history
  (Restart). client_frame (Restart) is what the surroundings of the confidential client keep of the disk.

  What the theorems show.
    Trust: reachable_session_attested, answers_over_attested_session, concurrent_sessions_attested,
      new_client_attested, explicit_verification, serves_only_attested (this theory) state that every session in
      use is made from evidence accepted under a trusted policy, sequentially, concurrently and up to the
      process; verification_accepts_iff (PolicyRefresh) is the exact condition of acceptance, policy_accepted_iff
      (Policy) the exact condition on a policy; derived_policy_is_signed and release_verified_iff trace a
      derived policy back to signatures; refusal_keeps_policy and policy_in_force, that a refused policy changes
      nothing; triggered_refreshes_spaced, that the source is consulted at most once in five minutes.
    Network: only_allowed_urls_requested (the hosts written out), downloads_end, guard_delivers_frames (what goes
      out, in terms of the frames of the source), guard_ends, nonce_header_checked, catalog_fetch_iff.
    History: every_exchange_recorded, chat_completion_exchanged (the same for an embedding program),
      recorded_encrypted_iff_complete (for every behaviour of the local connection), content_not_observed (two
      requests that differ only in their content leave the same world, when the EHBP library and the gateway
      answer alike), ledger_is_end_of_log (the ledger refines the unbounded log), flush_then_open,
      failed_flush_keeps_state, state_file_never_partial, serial_flushes_persist, overlapping_flushes_lose;
      history_survives_restart, that a client closed with a successful flush leaves its ledger to the next start;
      process_keeps_history, that the process leaves a history it had at some point of its run, and the last one
      when its flushes did not overlap and none was running; exit_can_lose_history, that it can end with success and
      leave none.
    Local surface: only_whitelisted_headers, tracker_recognises_stream (the incremental tracker equals the
      definition on the whole stream), in_process_delivers and in_process_ends (every interleaving of an in-process
      request gives the response of the sequential transport, and comes to an end), accepted_flags.

  Bounds and fuel. The JSON parser has fuel twice the length of its text and one more, which suffices because
  every level consumes a character. A client follows at most client_hops (11) requests, the limit net/http has
  when no policy is set; client_hops_length and downloads_end show that the bound of a policy is reached first.
  A reader is a finite script; a body that never ends is not a value of the model, but every reading loop with
  a limit in the code stops at it. The other recursions have termination proofs.

  Parameters. The Nitro document verifier, the Sigstore packages, the EHBP library and the embedded page are
  arguments (attest_env, sigstore, ehbp, se_page). What the theorems say of them is only that the code called
  them with the given arguments and got the given answer.

  Not modelled. Log lines. Contexts: a timeout or a cancellation is an error of the transport at any point, but
  that it happens in time is not stated. Goroutines other than through the interleavings above: the requests
  of a client in SessionConc, its flushes in FlushConc, one in-process request in InProcessConc (a handler there
  is any program of calls on its writer), the process in Proxy. In Restart a request, a refresh or a flush is one
  step; in Proxy a request or a refresh is one step, beside single records of requests that are still running, and
  a flush is three. RoundTrip in Nexus is the run in which the caller reads the whole body, which in_process_delivers justifies. The nil receivers of methods other than Handler, HTTPClient, GatewayURL,
  ChatCompletions and Models. The monotonic reading of
  the clock. The fraction of a duration flag, which Go computes in floating point, is truncated exactly. %q
  in messages is modelled for printable ASCII. Case folding (media types, header names) is that of ASCII, where
  EqualFold and ToLower fold Unicode. The text of a transport error is the transport's, without the method and URL
  that net/http puts before it, and http.NewRequest is taken to accept a URL that ParseRequestURI accepts, which holds of the
  validated endpoints. GuardEHBPResponses is composed with the EHBP transport inside
  the library parameter, so FrameGuard is stated of the reader and of the guard's RoundTrip. One verification
  reads the policy once. The listener, the HTTP server and the signals of the proxy are parameters of run;
  Proxy has their order. doc.go, the embedding example and the page shown by
  the browser have no operations of the library.
\<close>

section \<open>The life of a client\<close>

text \<open>C1: In every reachable state of a client (any interleaving of requests, verifications, refreshes, flushes
  and outside events after \<open>New\<close>), the session in use is the one made from evidence that was accepted
  under a trusted policy: the configured policy, or for a client that follows releases, a policy that pins
  exactly releases the release workflow signed.\<close>

theorem reachable_session_attested:
  assumes "New env c b = (Inr (nc, w0), b')" "(sdk_step env nc)\<^sup>*\<^sup>* w0 w" "cs_session (sw_state w) = Some ss"
  shows "\<exists>p0 b1 v ev. initial_policy env c b = (Inr (nc_source nc, p0), b1) \<and>
    trusted_policy env (nc_source nc) p0 (PolicySnapshot v) \<and>
    evidence_accepted (lift_attest (se_attest env)) v ev \<and> session_of (lift_ehbp (se_ehbp env)) ev ss"
proof -
  obtain p0 b1 where p: "initial_policy env c b = (Inr (nc_source nc, p0), b1)" "sdk_inv env (nc_source nc) p0 w0"
    using New_verified [OF assms(1)] by metis
  from sdk_steps_inv [OF assms(2) p(2)] assms(3) obtain ev es where
    "source_accepted env (nc_source nc) p0 es ev" "session_of (lift_ehbp (se_ehbp env)) ev ss"
    by (auto simp: sdk_inv_def client_inv_def from_accepted_def)
  with p(1) show ?thesis by (cases b1) (auto simp: source_accepted_def source_wf_def)
qed

theorem reachable_session_attested_witness:
  "\<exists>l v ev. (sdk_step sample_env sample_client)\<^sup>*\<^sup>* (sample_world l (good_disk, Map.empty)) ((sample_world l (good_disk, Map.empty))\<lparr>sw_base := (False, good_disk, Map.empty)\<rparr>) \<and>
     PolicySnapshot v = sample_policy \<and> evidence_accepted (lift_attest sample_attest) v ev \<and>
     session_of (lift_ehbp sample_ehbp) ev sample_session"
proof -
  obtain l where n: "New sample_env sample_config (True, good_disk, Map.empty) = (Inr (sample_client, sample_world l (good_disk, Map.empty)), (True, good_disk, Map.empty))"
    by (rule sample_new)
  have s: "(sdk_step sample_env sample_client)\<^sup>*\<^sup>* (sample_world l (good_disk, Map.empty)) ((sample_world l (good_disk, Map.empty))\<lparr>sw_base := (False, good_disk, Map.empty)\<rparr>)"
    by (rule r_into_rtranclp) (rule sdk_step.outside)
  have c: "cs_session (sw_state ((sample_world l (good_disk, Map.empty))\<lparr>sw_base := (False, good_disk, Map.empty)\<rparr>)) = Some sample_session"
    by (simp add: sample_world_def)
  from reachable_session_attested [OF n s c] obtain p0 b1 v ev where
    "initial_policy sample_env sample_config (True, good_disk, Map.empty) = (Inr (nc_source sample_client, p0), b1)"
    "trusted_policy sample_env (nc_source sample_client) p0 (PolicySnapshot v)"
    "evidence_accepted (lift_attest (se_attest sample_env)) v ev" "session_of (lift_ehbp (se_ehbp sample_env)) ev sample_session"
    by blast
  then show ?thesis
    using s by (auto simp: sample_initial_policy sample_parts trusted_policy_def)
qed

text \<open>C10: \<open>New\<close> gives a client only after a successful attestation: it has a session made from evidence
  accepted by its verifier, and the newest record of its ledger is that verification.\<close>

theorem new_client_attested:
  "case New env c b of (Inl e, _) \<Rightarrow> True
   | (Inr (nc, w), _) \<Rightarrow> (\<exists>ss ev. cs_session (sw_state w) = Some ss \<and>
       evidence_accepted (lift_attest (se_attest env)) (inner_verifier (sw_evidence w)) ev \<and>
       session_of (lift_ehbp (se_ehbp env)) ev ss \<and> newest_verified (cs_ledger (sw_state w)) (ss_attestation_id ss))"
proof -
  have "\<exists>ss ev. cs_session (sw_state w) = Some ss \<and>
       evidence_accepted (lift_attest (se_attest env)) (inner_verifier (sw_evidence w)) ev \<and>
       session_of (lift_ehbp (se_ehbp env)) ev ss \<and> newest_verified (cs_ledger (sw_state w)) (ss_attestation_id ss)"
    if "New env c b = (Inr (nc, w), b')" for nc w b'
    using New_verified [OF that] by (metis source_accepted_def)
  then show ?thesis by (auto split: prod.splits sum.splits)
qed

text \<open>C2: In every reachable state, an answer that comes back from the gateway came over a session whose key comes
  from evidence accepted under a trusted policy (trusted from the policy New started with), and the identifier reported
  is that of the session. The session is the client's own exactly when the client has one that has not expired by the
  clock at the start of the call; otherwise this very call verified the gateway, that evidence had not expired when it
  came, and the session is a new one made from it.\<close>

theorem answers_over_attested_session:
  assumes "New env c b = (Inr (nc, w0), b')" "(sdk_step env nc)\<^sup>*\<^sup>* w0 w"
    "sdk_do env nc authorization accept userAgent body w = ((Inr resp, ident), w')"
  shows "let cenv = confidential_env env (nc_source nc) (nc_gateway_url nc) in \<exists>p0 b1 es ev s st1 es1 w1 w2.
    initial_policy env c b = (Inr (nc_source nc, p0), b1) \<and>
    trusted_policy env (nc_source nc) p0 (PolicySnapshot (inner_verifier es)) \<and>
    evidence_accepted (lift_attest (se_attest env)) (inner_verifier es) ev \<and>
    session_of (lift_ehbp (se_ehbp env)) ev s \<and> ident = FingerprintKey (ev_public_key ev) \<and>
    (if \<exists>k. cs_session (sw_state w) = Some k \<and> fst (ce_now cenv (sw_base w)) < ss_expires_at k
     then cs_session (sw_state w) = Some s
     else \<exists>u0 u1. source_verify env (nc_source nc) (sw_evidence w) u0 = (Inr (Some ev), es, u1) \<and>
       fst (ce_now cenv u1) < ss_expires_at s \<and> ss_ref s = cs_next_ref (sw_state w)) \<and>
    sessionFor cenv (sw_state w) (sw_evidence w) (sw_base w) = (Inr s, st1, es1, w1) \<and>
    exchange cenv s (confidential_request (nc_gateway_url nc @ ConfidentialEndpoint) authorization accept userAgent body) w1 =
      (Inr resp, w2)"
proof -
  define cenv where "cenv = confidential_env env (nc_source nc) (nc_gateway_url nc)"
  obtain p0 b1 where p: "initial_policy env c b = (Inr (nc_source nc, p0), b1)" "sdk_inv env (nc_source nc) p0 w0"
    using New_verified [OF assms(1)] by metis
  with sdk_steps_inv [OF assms(2)] have i: "sdk_inv env (nc_source nc) p0 w" by blast
  obtain st es bb where d: "Do cenv authorization accept userAgent body (sw_state w) (sw_evidence w) (sw_base w) =
      ((Inr resp, ident), st, es, bb)"
    using assms(3) by (auto simp: sdk_do_def cenv_def split: prod.splits)
  have v: "ce_verify cenv = source_verify env (nc_source nc)" "source_wf env (nc_source nc) p0 (sw_evidence w)"
    "client_inv (ce_ehbp cenv) (source_accepted env (nc_source nc) p0) (sw_state w)"
    and c: "ce_ehbp cenv = lift_ehbp (se_ehbp env)" "ce_endpoint cenv = nc_gateway_url nc @ ConfidentialEndpoint"
    using i by (simp_all add: sdk_inv_def cenv_def)
  from sdk_evidence.Do_accepted(2) [OF v d refl] obtain s st1 es1 w1 w2 where s: "ident = ss_attestation_id s"
    "sessionFor cenv (sw_state w) (sw_evidence w) (sw_base w) = (Inr s, st1, es1, w1)"
    "exchange cenv s (confidential_request (nc_gateway_url nc @ ConfidentialEndpoint) authorization accept userAgent body) w1 = (Inr resp, w2)"
    unfolding c by blast
  from sdk_evidence.sessionFor_found_or_made [OF v s(2), unfolded c] obtain u ev where
    "source_accepted env (nc_source nc) p0 u ev" and e: "session_of (lift_ehbp (se_ehbp env)) ev s"
    "if \<exists>k. cs_session (sw_state w) = Some k \<and> fst (ce_now cenv (sw_base w)) < ss_expires_at k
     then cs_session (sw_state w) = Some s
     else \<exists>u0 u1. source_verify env (nc_source nc) (sw_evidence w) u0 = (Inr (Some ev), u, u1) \<and>
       fst (ce_now cenv u1) < ss_expires_at s \<and> ss_ref s = cs_next_ref (sw_state w)"
    by blast
  then have a: "trusted_policy env (nc_source nc) p0 (PolicySnapshot (inner_verifier u))"
    "evidence_accepted (lift_attest (se_attest env)) (inner_verifier u) ev"
    by (simp_all add: source_accepted_def source_wf_def)
  have "ident = FingerprintKey (ev_public_key ev)" using s(1) e(1) by (simp add: session_of_def)
  with p(1) a e s(2,3) show ?thesis unfolding cenv_def [symmetric] Let_def by (intro exI conjI)
qed

theorem answers_over_attested_session_witness:
  "\<exists>l ev s. sdk_do sample_env sample_client [] [] [] ''{}'' (sample_world l (good_disk, Map.empty)) =
     ((Inr (wr_response (json_reply 200 ''{}'')), FingerprintKey (ev_public_key ev)), sample_world l (good_disk, Map.empty)) \<and>
     session_of (lift_ehbp sample_ehbp) ev s"
proof -
  obtain l where n: "New sample_env sample_config (True, good_disk, Map.empty) = (Inr (sample_client, sample_world l (good_disk, Map.empty)), (True, good_disk, Map.empty))"
    by (rule sample_new)
  note d = sample_do [of "''{}''" l good_disk Map.empty, simplified]
  from answers_over_attested_session [OF n rtranclp.rtrancl_refl d] obtain ev s where
    "session_of (lift_ehbp (se_ehbp sample_env)) ev s" "ss_attestation_id sample_session = FingerprintKey (ev_public_key ev)"
    unfolding Let_def by blast
  with d show ?thesis unfolding sample_parts by metis
qed
text \<open>C11: An explicit verification either fails with the cause that the verification gave, or returns a verified
  record, and then the client's session is made from evidence just accepted under a trusted policy and the
  record is the one of that session.\<close>

theorem explicit_verification:
  assumes "sdk_inv env (nc_source nc) p0 w" "cs_ledger (sw_state w) \<noteq> None"
  shows "case Nexus_Verify env nc w of
      (Inl e, w') \<Rightarrow> (\<exists>cause. e = Wrapf ''verify Gateway: '' cause [] \<and>
        fst (Reverify (confidential_env env (nc_source nc) (nc_gateway_url nc)) (sw_state w) (sw_evidence w) (sw_base w)) = Some cause)
    | (Inr a, w') \<Rightarrow> pa_outcome a = OutcomeVerified \<and> (\<exists>ss ev. cs_session (sw_state w') = Some ss \<and>
        trusted_policy env (nc_source nc) p0 (PolicySnapshot (inner_verifier (sw_evidence w'))) \<and>
        evidence_accepted (lift_attest (se_attest env)) (inner_verifier (sw_evidence w')) ev \<and>
        session_of (lift_ehbp (se_ehbp env)) ev ss \<and> pa_id a = ss_attestation_id ss)"
proof -
  obtain r w' where v: "Nexus_Verify env nc w = (r, w')" by force
  from Nexus_Verify_record [OF assms v] v show ?thesis
    by (cases r) (auto simp: source_accepted_def source_wf_def)
qed

theorem explicit_verification_witness:
  "\<exists>a w'. Nexus_Verify sample_env sample_client (sample_world NewLedger (good_disk, Map.empty)) = (Inr a, w') \<and> pa_outcome a = OutcomeVerified"
proof -
  obtain l' where "establish (confidential_env sample_env None sample_origin) (discard_session (sw_state (sample_world NewLedger (good_disk, Map.empty))))
      (Direct sample_verifier) (True, good_disk, Map.empty) =
    (Inr (sample_session\<lparr>ss_ref := 1\<rparr>), \<lparr>cs_session = Some (sample_session\<lparr>ss_ref := 1\<rparr>), cs_next_ref = 2, cs_ledger = l'\<rparr>,
     Direct sample_verifier, (True, good_disk, Map.empty))" by (rule sample_establish_after)
  then have "fst (Reverify (confidential_env sample_env None sample_origin) (sw_state (sample_world NewLedger (good_disk, Map.empty)))
      (Direct sample_verifier) (True, good_disk, Map.empty)) = None"
    by (simp add: Reverify_def WarmUp_def sessionFor_def discard_session_def)
  then have r: "fst (Reverify (confidential_env sample_env (nc_source sample_client) (nc_gateway_url sample_client))
      (sw_state (sample_world NewLedger (good_disk, Map.empty))) (sw_evidence (sample_world NewLedger (good_disk, Map.empty))) (sw_base (sample_world NewLedger (good_disk, Map.empty)))) = None"
    by (simp add: sample_parts sample_world_def)
  have "sdk_inv sample_env (nc_source sample_client) sample_policy (sample_world NewLedger (good_disk, Map.empty))"
    "cs_ledger (sw_state (sample_world NewLedger (good_disk, Map.empty))) \<noteq> None"
    using sample_inv by (simp_all add: sample_parts sample_world_def)
  from explicit_verification [OF this] r show ?thesis by (auto split: prod.splits sum.splits)
qed

text \<open>C8: Every request the proxy sends to the gateway leaves exactly one entry in the ledger, with the size of its
  body and the identifier of the attestation it was sent under, counted as encrypted only when the whole of a
  complete reply was forwarded; a request that is not sent leaves the ledger unchanged.\<close>

theorem every_exchange_recorded:
  "case sdk_serve env nc r rw w of (rw', en, w') \<Rightarrow>
     (if reaches_sender (sdk_handler env nc) r w
      then \<exists>rc res ident envelope body w1 w2. check_chat_request r = Inr body \<and>
        sdk_do env nc (header_get (lr_header r) ''Authorization'') (header_get (lr_header r) ''Accept'')
          (header_get (lr_header r) ''User-Agent'') envelope w1 = ((res, ident), w2) \<and>
        request_log (cs_ledger (sw_state w')) = logged rc (request_log (cs_ledger (sw_state w))) \<and>
        rq_request_bytes rc = int (length body) \<and> rq_attestation_id rc = ident \<and>
        (rq_outcome rc = OutcomeEncrypted \<longrightarrow> en = Returned \<and> (\<exists>response. res = Inr response \<and> complete_response response))
      else cs_ledger (sw_state w') = cs_ledger (sw_state w) \<and> en = Returned)"
proof -
  obtain rw' en w' where s: "ServeHTTP (sdk_handler env nc) r rw w = (rw', en, w')" by (metis surj_pair)
  have h: "h_sender (sdk_handler env nc) = sdk_do env nc" "h_ledger (sdk_handler env nc) = (\<lambda>w. cs_ledger (sw_state w))"
    by (simp_all add: sdk_handler_def)
  show ?thesis
  proof (cases "reaches_sender (sdk_handler env nc) r w")
    case True
    obtain rc res ident envelope w1 w2 body where
      "check_chat_request r = Inr body"
      "sdk_do env nc (header_get (lr_header r) ''Authorization'') (header_get (lr_header r) ''Accept'')
         (header_get (lr_header r) ''User-Agent'') envelope w1 = ((res, ident), w2)"
      "request_log (cs_ledger (sw_state w')) = logged rc (request_log (cs_ledger (sw_state w)))"
      "rq_request_bytes rc = int (length body)" "rq_attestation_id rc = ident"
      "rq_outcome rc = OutcomeEncrypted \<longrightarrow> en = Returned \<and> (\<exists>response. res = Inr response \<and> complete_response response)"
      by (rule sdk_world.serve_reached [OF s True, unfolded h]) blast
    then show ?thesis unfolding sdk_serve_def s prod.case if_P [OF True] by (intro exI conjI)
  next
    case False
    with sdk_world.serve_unreached [OF s False] s show ?thesis by (simp add: sdk_serve_def h)
  qed
qed

theorem every_exchange_recorded_witness:
  "case sdk_serve sample_env sample_client (chat_request ''{}'') plain_writer (sample_world NewLedger (good_disk, Map.empty)) of (rw', en, w') \<Rightarrow>
     (\<exists>rc. request_log (cs_ledger (sw_state w')) = logged rc (Some ([], 0, 0)) \<and> rq_request_bytes rc = 2)"
proof -
  have l: "request_log (cs_ledger (sw_state (sample_world NewLedger (good_disk, Map.empty)))) = Some ([], 0, 0)"
    by (simp add: sample_world_def request_log_def NewLedger_def)
  have t: "trim_space ''{}'' = ''{}''" "IsJSONObject ''{}''" by code_simp+
  have c: "check_chat_request (chat_request ''{}'') = Inr ''{}''" by (rule chat_request_checked [OF t]) simp
  have b: "int (length body) = 2" if "check_chat_request (chat_request ''{}'') = Inr body" for body
  proof -
    from that c have "body = ''{}''" by simp
    then show ?thesis by simp
  qed
  show ?thesis
    using every_exchange_recorded [where env = sample_env and nc = sample_client and r = "chat_request ''{}''" and rw = plain_writer
        and w = "sample_world NewLedger (good_disk, Map.empty)"]
      sample_reaches [of NewLedger good_disk Map.empty] l b by (auto split: prod.splits)
qed

text \<open>C15: A chat completion of an embedding program is one exchange like any other: with a key and one JSON object it is
  sent under the caller's key, its answer is what the handler wrote, and it leaves exactly one entry in the ledger.\<close>

theorem chat_completion_exchanged:
  assumes "trim_space key \<noteq> []" "trim_space body = body" "IsJSONObject body" "length body \<le> 10485760"
    "h_new_id (sdk_handler env nc) w = (Inr requestID, w1)"
  shows "case ChatCompletions env (Some nc) True key body w of (r, w') \<Rightarrow>
    \<exists>rc rw en res ident envelope v v'. sdk_serve env nc (embedded_chat key body) pipe_writer w = (rw, en, w') \<and> r = pipe_response rw en \<and>
      sdk_do env nc (''Bearer '' @ key) ''application/json'' [] envelope v = ((res, ident), v') \<and>
      request_log (cs_ledger (sw_state w')) = logged rc (request_log (cs_ledger (sw_state w))) \<and>
      rq_request_bytes rc = int (length body) \<and> rq_attestation_id rc = ident \<and>
      (rq_outcome rc = OutcomeEncrypted \<longrightarrow> en = Returned \<and> (\<exists>response. res = Inr response \<and> complete_response response))"
proof -
  let ?r = "embedded_chat key body"
  have m: "parse_media_type ''application/json'' = Some ''application/json''" by code_simp
  have "ReadAllLimited [(body, None)] maxRequestBytes = Inr body"
    using assms(4) by (subst ReadAllLimited_iff) (simp_all add: maxRequestBytes_def)
  then have c: "check_chat_request ?r = Inr body"
    using assms(2,3) m embedded_chat_header(2) [of key body] by (simp add: check_chat_request_def embedded_chat_def)
  have "\<exists>env. enc_envelope ident issued body = Inr env" for ident issued
    using assms(3) by (simp add: enc_envelope_def json_compact_def IsJSONObject_def)
  then have reach: "reaches_sender (sdk_handler env nc) ?r w"
    using c assms(5) by (auto simp: reaches_sender_def embedded_chat_def split: prod.splits)
  have b: "body \<noteq> []" "json_valid body" using assms(3) by (auto simp: IsJSONObject_def)
  obtain rw en w' where h: "sdk_serve env nc ?r pipe_writer w = (rw, en, w')"
    "ChatCompletions env (Some nc) True key body w = (pipe_response rw en, w')"
    by (rule ChatCompletions_handled [OF assms(1)]) (use assms(2) b in auto)
  have hs: "h_sender (sdk_handler env nc) = sdk_do env nc" "h_ledger (sdk_handler env nc) = (\<lambda>w. cs_ledger (sw_state w))"
    by (simp_all add: sdk_handler_def)
  obtain rc res ident envelope v v' body' where e: "check_chat_request ?r = Inr body'"
    "sdk_do env nc (''Bearer '' @ key) ''application/json'' [] envelope v = ((res, ident), v')"
    "request_log (cs_ledger (sw_state w')) = logged rc (request_log (cs_ledger (sw_state w)))"
    "rq_request_bytes rc = int (length body')" "rq_attestation_id rc = ident"
    "rq_outcome rc = OutcomeEncrypted \<longrightarrow> en = Returned \<and> (\<exists>response. res = Inr response \<and> complete_response response)"
    by (rule sdk_world.serve_reached [OF h(1) [unfolded sdk_serve_def] reach, unfolded embedded_chat_header hs])
  have "body' = body" using e(1) c by simp
  show ?thesis unfolding h(2) prod.case
    by (intro exI conjI, rule h(1), rule refl, rule e(2), rule e(3)) (use e(4-6) \<open>body' = body\<close> in simp_all)
qed

theorem chat_completion_exchanged_witness:
  "case ChatCompletions sample_env (Some sample_client) True ''key'' ''{}'' (sample_world NewLedger (good_disk, Map.empty)) of (r, w') \<Rightarrow>
     \<exists>rc. request_log (cs_ledger (sw_state w')) = logged rc (Some ([], 0, 0)) \<and> rq_request_bytes rc = 2"
proof -
  have l: "request_log (cs_ledger (sw_state (sample_world NewLedger (good_disk, Map.empty)))) = Some ([], 0, 0)"
    by (simp add: sample_world_def request_log_def NewLedger_def)
  have t: "trim_space ''key'' \<noteq> []" "trim_space ''{}'' = ''{}''" "IsJSONObject ''{}''" by code_simp+
  obtain ident w1 where i: "h_new_id (sdk_handler sample_env sample_client) (sample_world NewLedger (good_disk, Map.empty)) = (Inr ident, w1)"
    using sample_reaches [of NewLedger good_disk Map.empty] by (auto simp: reaches_sender_def)
  show ?thesis
    using chat_completion_exchanged [OF t _ i] l by (auto split: prod.splits)
qed

text \<open>C29: The client does not observe what a request says: when the EHBP library and the gateway answer alike
  whatever the plain body of a request, two requests that differ only in their bodies, both one JSON object of
  the same size, get the same reply and leave the same world, the ledger included.\<close>

theorem content_not_observed:
  assumes "\<And>i req b1 b2 n. eh_transport (se_ehbp env) i (req\<lparr>req_body := b1\<rparr>) n = eh_transport (se_ehbp env) i (req\<lparr>req_body := b2\<rparr>) n"
    "check_chat_request r = Inr b1" "check_chat_request (r\<lparr>lr_body := rd\<rparr>) = Inr b2" "length b1 = length b2"
  shows "sdk_serve env nc r rw w = sdk_serve env nc (r\<lparr>lr_body := rd\<rparr>) rw w"
  unfolding sdk_serve_def
proof (rule ServeHTTP_content [OF assms(2-4)])
  fix a acc ua and e1 e2 :: bytes and w
  assume "e1 \<noteq> []" "e2 \<noteq> []"
  then have "sdk_do env nc a acc ua e1 w = sdk_do env nc a acc ua e2 w" by (rule sdk_do_content [OF assms(1)])
  then show "h_sender (sdk_handler env nc) a acc ua e1 w = h_sender (sdk_handler env nc) a acc ua e2 w"
    by (simp add: sdk_handler_def)
qed

theorem content_not_observed_witness:
  "sdk_serve sample_env sample_client (chat_request (enc_object [(''a'', ''1'')])) plain_writer (sample_world NewLedger (good_disk, Map.empty)) =
   sdk_serve sample_env sample_client (chat_request (enc_object [(''b'', ''2'')])) plain_writer (sample_world NewLedger (good_disk, Map.empty))"
proof -
  have t: "trim_space (enc_object [(''a'', ''1'')]) = enc_object [(''a'', ''1'')]"
    "trim_space (enc_object [(''b'', ''2'')]) = enc_object [(''b'', ''2'')]"
    "IsJSONObject (enc_object [(''a'', ''1'')])" "IsJSONObject (enc_object [(''b'', ''2'')])"
    "length (enc_object [(''a'', ''1'')]) = 7" "length (enc_object [(''b'', ''2'')]) = 7" by code_simp+
  have c: "check_chat_request (chat_request (enc_object [(''a'', ''1'')])) = Inr (enc_object [(''a'', ''1'')])"
    "check_chat_request (chat_request (enc_object [(''b'', ''2'')])) = Inr (enc_object [(''b'', ''2'')])"
    using t by (simp_all add: chat_request_checked)
  have r: "(chat_request (enc_object [(''a'', ''1'')]))\<lparr>lr_body := [(enc_object [(''b'', ''2'')], None)]\<rparr> =
      chat_request (enc_object [(''b'', ''2'')])" by (simp add: chat_request_def)
  have e: "eh_transport (se_ehbp sample_env) i (req\<lparr>req_body := b1\<rparr>) n = eh_transport (se_ehbp sample_env) i (req\<lparr>req_body := b2\<rparr>) n" for i req b1 b2 n
    by (simp add: sample_parts sample_ehbp_def)
  from content_not_observed [of sample_env "chat_request (enc_object [(''a'', ''1'')])", OF e, of _ "[(enc_object [(''b'', ''2'')], None)]", unfolded r,
      OF c] t(5,6)
  show ?thesis by simp
qed
section \<open>Many requests at once\<close>

text \<open>C4: With any number of requests in flight, interleaved with background refreshes, discarded sessions and
  finished exchanges, every session in use (the client's or one held by a request) is made from evidence that
  was accepted under a trusted policy, and two of them with the same address are the same session.\<close>

theorem concurrent_sessions_attested:
  assumes "initial_policy env cfg b = (Inr (s, p0), b')" "NewVerifier ep (Some p0) client = Inr v"
    "(client_step (background_refresh env s) (confidential_env env s u))\<^sup>*\<^sup>* (initial_conf (first_source s v) l) c"
  shows "(\<forall>ss\<in>Collect (live_session c). \<exists>v ev. trusted_policy env s p0 (PolicySnapshot v) \<and>
      evidence_accepted (lift_attest (se_attest env)) v ev \<and> session_of (lift_ehbp (se_ehbp env)) ev ss) \<and>
    inj_on ss_ref (Collect (live_session c))"
proof -
  have "source_wf env s p0 (first_source s v)"
    using first_source_wf [OF assms(2) initial_policy_trusted [OF assms(1)]] .
  note i = initial_conf_inv [where vinv = "source_wf env s p0", OF this]
  have "conf_inv (ce_ehbp (confidential_env env s u)) (source_accepted env s p0) (source_wf env s p0) c"
    by (rule sdk_evidence.client_steps_inv [OF _ assms(3) i]) (simp_all add: background_refresh_wf)
  then show ?thesis
    by (auto simp: conf_inv_def from_accepted_def source_accepted_def source_wf_def intro!: inj_onI) blast
qed

text \<open>C19: Ending a request never takes away a session that is not the one the request held: a newer session of
  the client survives, whatever the outcome of the exchange.\<close>

theorem finish_keeps_newer_session:
  assumes "initial_policy env cfg b = (Inr (s, p0), b')" "NewVerifier ep (Some p0) client = Inr v"
    "(client_step (background_refresh env s) (confidential_env env s u))\<^sup>*\<^sup>* (initial_conf (first_source s v) l) c"
    "cf_inflight c q = Some old" "cs_session (cf_client c) = Some new" "new \<noteq> old"
  shows "snd (after_exchange (confidential_env env s u) old res (cf_client c)) = cf_client c"
proof -
  have "source_wf env s p0 (first_source s v)"
    using first_source_wf [OF assms(2) initial_policy_trusted [OF assms(1)]] .
  note i = initial_conf_inv [where vinv = "source_wf env s p0", OF this]
  have "conf_inv (ce_ehbp (confidential_env env s u)) (source_accepted env s p0) (source_wf env s p0) c"
    by (rule sdk_evidence.client_steps_inv [OF _ assms(3) i]) (simp_all add: background_refresh_wf)
  then show ?thesis by (rule finish_keeps_other [OF _ assms(4-6)])
qed

theorem concurrent_sessions_attested_witness:
  "\<exists>l. live_session (two_requests l) sample_session \<and> live_session (two_requests l) (sample_session\<lparr>ss_ref := 1\<rparr>) \<and>
     inj_on ss_ref (Collect (live_session (two_requests l)))"
proof -
  obtain l where r: "(client_step (background_refresh sample_env None) (confidential_env sample_env None sample_origin))\<^sup>*\<^sup>*
    start_conf (two_requests l)" by (rule two_requests_reached)
  have "live_session (two_requests l) sample_session" "live_session (two_requests l) (sample_session\<lparr>ss_ref := 1\<rparr>)"
    by (auto simp: live_session_def two_requests_def)
  with concurrent_sessions_attested [OF sample_initial_policy sample_new_verifier r [unfolded start_conf_def]] show ?thesis by blast
qed

theorem finish_keeps_newer_session_witness:
  "\<exists>l. snd (after_exchange (confidential_env sample_env None sample_origin) sample_session (Inl (Msg ''key configuration'')) (cf_client (two_requests l)))
     = cf_client (two_requests l) \<and> cs_session (cf_client (two_requests l)) = Some (sample_session\<lparr>ss_ref := 1\<rparr>)"
proof -
  obtain l where r: "(client_step (background_refresh sample_env None) (confidential_env sample_env None sample_origin))\<^sup>*\<^sup>*
    start_conf (two_requests l)" by (rule two_requests_reached)
  have c: "cf_inflight (two_requests l) 0 = Some sample_session" "cs_session (cf_client (two_requests l)) = Some (sample_session\<lparr>ss_ref := 1\<rparr>)"
    "sample_session\<lparr>ss_ref := 1\<rparr> \<noteq> sample_session"
    by (simp_all add: two_requests_def sample_session_def)
  from finish_keeps_newer_session [OF sample_initial_policy sample_new_verifier r [unfolded start_conf_def] c, of "Inl (Msg ''key configuration'')"] c(2)
  show ?thesis by blast
qed

section \<open>Witnesses of the release source\<close>

theorem downloads_end_witness:
  "\<forall>(tr :: bool transport) req w. length (fst (snd (client_do tr (src_client (sample_source :: (unit, unit) source)) req w))) \<le> 5"
proof (intro allI)
  fix tr :: "bool transport" and req w
  have n: "NewSource sample_sigstore ''{}'' [] 0 None = Inr (sample_source :: (unit, unit) source)" by (rule sample_new_source)
  from downloads_end [OF n, of maxRedirects tr req w] show "length (fst (snd (client_do tr (src_client (sample_source :: (unit, unit) source)) req w))) \<le> 5" by (simp add: maxRedirects_def)
qed

theorem only_allowed_urls_requested_witness:
  "case Source_Policy sample_sigstore (recording github_transport) (WithCache sample_source None) ([], True) () of
    (r, (urls, w'), c') \<Rightarrow> list_all (\<lambda>u. \<exists>p. ParseRequestURI u = Inr p \<and> url_scheme p = ''https'' \<and> \<not> url_user p \<and>
      Hostname p \<in> {''api.github.com'', ''github.com'', ''objects.githubusercontent.com'', ''release-assets.githubusercontent.com''}) urls"
  by (rule only_allowed_urls_requested [OF sample_new_source])

theorem derived_policy_iff_witness:
  "\<exists>p. Release_Policy [Some sample_release_manifest] = Inr p \<and> wf_policy p \<and>
     map release_claims (pol_releases p) = [manifest_pins sample_release_manifest]"
  using derived_policy_iff [of "[sample_release_manifest]"] sample_manifest_verified
  by (auto simp: MaxPolicyReleases_def split: sum.splits)

theorem derived_policy_is_signed_witness:
  "\<exists>p w c. Source_Policy sample_sigstore github_transport (WithCache sample_source None) True () = (Inr p, w, c) \<and> wf_policy p"
proof -
  obtain p where p: "Release_Policy [Some sample_release_manifest] = Inr p" using sample_derived by blast
  have "\<exists>c. Source_Policy sample_sigstore github_transport (WithCache sample_source None) True () = (Inr p, True, c)"
    using sample_source_fetch [OF sample_source_fields, of None "()"] p by (simp add: Source_Policy_def)
  with derived_policy_is_signed [OF sample_new_source, where tr = github_transport and cache = None and w = True and c = "()"] show ?thesis by auto
qed

theorem offline_start_same_policy_witness:
  "\<exists>p c1. source_fetch sample_sigstore github_transport (WithCache sample_source (Some (file_cache ''cache''))) True (spare_env, Map.empty) =
      (Inr [sample_release_manifest], True, c1) \<and>
    fst (Source_Policy sample_sigstore github_transport (WithCache sample_source (Some (file_cache ''cache''))) False c1) = Inr p"
proof -
  let ?s = "WithCache sample_source (Some (file_cache ''cache''))"
  obtain p where p: "Release_Policy [Some sample_release_manifest] = Inr p" using sample_derived by blast
  have d: "working_disk spare_env" "fresh_temp spare_env ''cache'' Map.empty"
    by (simp_all add: working_disk_def spare_env_def is_ok_def fresh_temp_def)
  obtain c1 where f: "source_fetch sample_sigstore github_transport ?s True (spare_env, Map.empty) = (Inr [sample_release_manifest], True, c1)"
    by (rule that [OF sample_source_fetch [OF sample_source_fields]])
  obtain e where o: "source_fetch sample_sigstore github_transport ?s False c1 = (Inl e, False, c1)"
    by (rule sample_source_offline [OF sample_source_fields(1-3)])
  have q: "fst (Source_Policy sample_sigstore github_transport ?s True (spare_env, Map.empty)) = Inr p"
    using f p by (simp add: Source_Policy_def)
  have "fst (Source_Policy sample_sigstore github_transport ?s False c1) = Inr p"
    by (rule trans [OF offline_start_same_policy [OF sample_new_source refl d f o] q])
  with f show ?thesis by blast
qed

section \<open>The process\<close>

text \<open>A client whose session is made from evidence its verifier accepted under a trusted policy.\<close>

definition attested_client :: "('t, 'v, 'b, 'i, 'id, 'n) sdk_env \<Rightarrow> 'v nexus_client \<Rightarrow> ('id, 'n) sdk_world \<Rightarrow> bool" where
  "attested_client env nc w \<longleftrightarrow> (\<exists>p0 ss ev. trusted_policy env (nc_source nc) p0 (PolicySnapshot (inner_verifier (sw_evidence w))) \<and>
     cs_session (sw_state w) = Some ss \<and> session_of (lift_ehbp (se_ehbp env)) ev ss \<and>
     evidence_accepted (lift_attest (se_attest env)) (inner_verifier (sw_evidence w)) ev)"

text \<open>C5: The process opens its listener only on an address that passed the checks of its scope, and serves only
  with an attested client: whatever the listener and the server would do with any other address or client makes
  no difference to what the process does.\<close>

theorem serves_only_attested:
  assumes "\<And>address scope. validateListenAddress address scope = None \<Longrightarrow> listen address = listen' address"
    "\<And>nc w. attested_client env nc w \<Longrightarrow> serve nc w = serve' nc w"
  shows "run env listen serve wind_down args b = run env listen' serve' wind_down args b"
proof (cases "parseFlags args")
  case (Inr c)
  have l: "listen (pc_listen_address c) = listen' (pc_listen_address c)"
    by (rule assms(1) [OF parseFlags_listen [OF Inr]])
  have "serve nc w = serve' nc w" if n: "New env (sdk_config c) b = (Inr (nc, w), b1)" for nc w b1
  proof (rule assms(2))
    obtain p0 ss ev where "sdk_inv env (nc_source nc) p0 w" "cs_session (sw_state w) = Some ss"
      "source_accepted env (nc_source nc) p0 (sw_evidence w) ev" "session_of (lift_ehbp (se_ehbp env)) ev ss"
      using New_verified [OF n] by metis
    then show "attested_client env nc w"
      unfolding attested_client_def source_accepted_def source_wf_def by blast
  qed
  with Inr l show ?thesis by (auto simp: run_def run_serving_def split: prod.splits sum.splits option.splits)
qed (simp add: run_def)

theorem serves_only_attested_witness:
  "fst (run sample_env (\<lambda>a. if a = ''127.0.0.1:3301'' then None else Some (Msg ''refused''))
     (\<lambda>nc w. if cs_session (sw_state w) = None then (Stopped (Some (Msg ''not attested'')), w) else (Interrupted None (Some (Sent ServerClosed)), w))
     (\<lambda>nc w. w) sample_args (True, good_disk, sample_disk)) = 0"
  (is "fst (run _ ?listen ?serve _ _ _) = 0")
proof -
  let ?serve' = "\<lambda>nc w. (Interrupted None (Some (Sent ServerClosed)), w)"
  have "run sample_env ?listen ?serve (\<lambda>nc w. w) sample_args (True, good_disk, sample_disk) =
      run sample_env ?listen ?serve' (\<lambda>nc w. w) sample_args (True, good_disk, sample_disk)"
    by (rule serves_only_attested) (auto simp: attested_client_def)
  moreover have "fst (run sample_env ?listen ?serve' (\<lambda>nc w. w) sample_args (True, good_disk, sample_disk)) = 0"
  proof -
    obtain nc :: "unit nexus_client" and l where n: "New sample_env (sdk_config sample_cmd) (True, good_disk, sample_disk) =
      (Inr (nc, sample_world l (good_disk, sample_disk)), (True, good_disk, sample_disk))" by (rule sample_cmd_new)
    have a: "pc_listen_address sample_cmd = ''127.0.0.1:3301''" by (simp add: sample_cmd_def)
    show ?thesis by (simp add: run_def run_serving_def sample_flags n a serve_status_def split: prod.split)
  qed
  ultimately show ?thesis by simp
qed

end
